(* ===== verification/Prelude.thy ===== *)
theory Prelude
  imports Main "HOL-Library.Word"
begin

text \<open>
  What every component of the model shares: the names of the machine types, the type of
  errors (the source carries every failure as one \<open>anyhow::Error\<close>, so the model has one
  datatype with a constructor per \<open>bail!\<close> or error context that a caller can tell apart),
  the \<open>?\<close> operator and fallible loops as functions on \<open>err + 'a\<close>, and a few facts on
  lists and words that the component proofs rest on.
\<close>

type_synonym u8 = "8 word"
type_synonym u16 = "16 word"
type_synonym u32 = "32 word"
type_synonym u64 = "64 word"
type_synonym port = u16
type_synonym slot = u8
type_synonym bytes = "u8 list"

subsection \<open>Paths\<close>

text \<open>
  A \<open>std::path::Path\<close> is the list of its components, which is what its comparison, its
  \<open>parent\<close> and its \<open>file_name\<close> look at.
\<close>

type_synonym path = "string list"

subsection \<open>Errors\<close>

datatype port_err =
    BadPort string
  | PortZero
  | BadRange string
  | RangeReversed string
  | NoPorts
  | FillCountZero
  | FillCountTooBig nat
  | FillStartZero
  | NotEnoughPorts nat nat
  | NoBulkSource
  | BulkTooBig nat

datatype policy_err =
    BadIdentity string
  | DeniedPort port
  | ReservedPort port
  | PrivilegedPort port
  | CapacityExceeded nat
  | MachineQuota nat nat
  | TenantQuota string nat nat
  | PolicyNoEquals nat
  | PolicyUnknownKey nat string
  | PolicyValue nat string

datatype desired_err =
    PortOnlyLine nat
  | UnexpectedToken nat string
  | ConflictingBinding nat port
  | DesiredTooMany nat
  | AssignedTwice port

datatype central_err =
    CentralParse
  | CentralVersion nat
  | CentralPortZero
  | CentralConflict port
  | CentralTooMany nat

datatype ctl_err =
    Frozen string string string string
  | ListenOverlap "port list"
  | LadderDisabled nat
  | BindingMissing
  | PortInBothLists "port list"
  | FillStart nat
  | FillCount
  | BadBatch
  | NeedsPorts string
  | ImportUnbound
  | DryRunOnly string
  | MigrateNeedsMode
  | OverlapReport "port list" string
  | BulkUnknown string

datatype nginx_err =
    GlobNoParent path
  | GlobNoName path
  | IncludesTooDeep

datatype cli_err =
    FlagNeedsArgument string
  | FlagNotDefined string
  | NotAFlag string
  | EmptyFlag
  | BadBpf string
  | UnknownMode string
  | EmptyDuration
  | BadDuration string
  | MissingUnit string
  | UnknownUnit string
  | BadCtlGroup
  | RescanTooShort string

datatype pin_err =
    OpenPortsMaxEntries nat
  | OpenPortsLayout nat nat
  | RedirSocketLayout nat nat nat
  | PinMissing path
  | PrimaryNotPinned path

datatype upgrade_err =
    Stopped
  | NonTerminal
  | NoCandidateFile path
  | UnsupportedMap string
  | AbiMismatch string
  | MissingMap string
  | NoDispatch
  | MapsMissing path
  | ProgMissing path
  | ForcedHealth
  | HealthWindow
  | JournalParse path
  | NeedsObj
  | SlotRange u32

datatype sock_err =
    SocketTooOpen
  | Unauthorized
  | UnknownOp string
  | NeedsOnePort string
  | SockBinding
  | RequestTooLarge
  | BadRequest
  | SocketDisabled
  | NeedsCommand
  | BulkNeedsAction
  | BadCount
  | RequestFailed
  | UnknownCommand string
  | LockPoisoned

datatype listen_err =
    BadHost string
  | NoInode
  | SocketNotFound nat
  | BadListenPort string
  | WaitCancelled string
  | WaitExpired string
  | LoaderLocked path
  | NeedsPortLists string
  | SeedUnbound
  | OpenUnbound

datatype io_err = NotFound path | IoFault path

text \<open>What libbpf reports when a map operation fails: the key is not there, or another error.\<close>

datatype kern = KNotFound | KOther

text \<open>The contexts that \<open>with_context\<close> puts around an error.\<close>

datatype ctx =
    AtLine nat
  | InRange string
  | InSkip
  | InFile path
  | InFileName string
  | InStdin
  | InPolicyKey nat string
  | InBatchUpdate nat
  | InPut port
  | InDelete port
  | InFlag string
  | Doing string

datatype err =
    PortE port_err
  | PolicyE policy_err
  | DesiredE desired_err
  | IoE io_err
  | CentralE central_err
  | CtlE ctl_err
  | NginxE nginx_err
  | CliE cli_err
  | PinE pin_err
  | KernE kern
  | ListenE listen_err
  | UpgradeE upgrade_err
  | SockE sock_err
  | Ctx ctx err

subsection \<open>Fallible computations\<close>

fun rbind :: "'e + 'a \<Rightarrow> ('a \<Rightarrow> 'e + 'b) \<Rightarrow> 'e + 'b" where
  "rbind (Inl e) f = Inl e"
| "rbind (Inr x) f = f x"

fun with_context :: "ctx \<Rightarrow> err + 'a \<Rightarrow> err + 'a" where
  "with_context c (Inl e) = Inl (Ctx c e)"
| "with_context c (Inr x) = Inr x"

fun is_ok :: "'e + 'a \<Rightarrow> bool" where
  "is_ok (Inl _) = False"
| "is_ok (Inr _) = True"

text \<open>A \<open>for\<close> loop whose body may return early with an error.\<close>

fun rfold :: "('a \<Rightarrow> 's \<Rightarrow> 'e + 's) \<Rightarrow> 'a list \<Rightarrow> 's \<Rightarrow> 'e + 's" where
  "rfold f [] s = Inr s"
| "rfold f (x # xs) s = rbind (f x s) (rfold f xs)"

lemma rbind_Inr_iff [simp]: "rbind r f = Inr y \<longleftrightarrow> (\<exists>x. r = Inr x \<and> f x = Inr y)"
  by (cases r) auto

lemma rbind_Inl_iff: "rbind r f = Inl e \<longleftrightarrow> r = Inl e \<or> (\<exists>x. r = Inr x \<and> f x = Inl e)"
  by (cases r) auto

lemma with_context_Inr_iff [simp]: "with_context c r = Inr y \<longleftrightarrow> r = Inr y"
  by (cases r) auto

lemma with_context_Inl_iff: "with_context c r = Inl e \<longleftrightarrow> (\<exists>e'. r = Inl e' \<and> e = Ctx c e')"
  by (cases r) auto

lemma is_ok_iff: "is_ok r \<longleftrightarrow> (\<exists>x. r = Inr x)"
  by (cases r) auto

lemma rfold_append: "rfold f (xs @ ys) s = rbind (rfold f xs s) (rfold f ys)"
proof (induction xs arbitrary: s)
  case (Cons x xs)
  then show ?case by (cases "f x s") auto
qed simp

text \<open>An invariant that every iteration keeps holds after the loop.\<close>

lemma rfold_invariant:
  assumes "rfold f xs s = Inr t" and "I s"
    and "\<And>x s t. x \<in> set xs \<Longrightarrow> f x s = Inr t \<Longrightarrow> I s \<Longrightarrow> I t"
  shows "I t"
  using assms
proof (induction xs arbitrary: s)
  case (Cons x xs)
  from Cons.prems(1) obtain u where u: "f x s = Inr u" "rfold f xs u = Inr t" by auto
  have "I u" using Cons.prems(3) [OF _ u(1) Cons.prems(2)] by simp
  then show ?case by (rule Cons.IH [OF u(2)]) (rule Cons.prems(3), simp_all)
qed simp

lemma rfold_cases:
  assumes "I s"
    and "\<And>x s. x \<in> set xs \<Longrightarrow> I s \<Longrightarrow> (case f x s of Inl e \<Rightarrow> E e | Inr t \<Rightarrow> I t)"
  shows "case rfold f xs s of Inl e \<Rightarrow> E e | Inr t \<Rightarrow> I t"
  using assms
proof (induction xs arbitrary: s)
  case (Cons x xs)
  show ?case
  proof (cases "f x s")
    case (Inl e)
    then show ?thesis using Cons.prems(2) [of x s] Cons.prems(1) by simp
  next
    case (Inr t)
    then have "I t" using Cons.prems(2) [of x s] Cons.prems(1) by simp
    then show ?thesis using Inr Cons.IH [of t] Cons.prems(2) by simp
  qed
qed simp

subsection \<open>Actions on a state\<close>

text \<open>
  A method that reads and writes state and may fail returns its result and the state it leaves,
  also when it fails: an early return keeps the effects it comes after.
\<close>

type_synonym ('s, 'a) act = "'s \<Rightarrow> (err + 'a) \<times> 's"

definition ret :: "'a \<Rightarrow> ('s, 'a) act" where
  "ret x s = (Inr x, s)"

definition fail :: "err \<Rightarrow> ('s, 'a) act" where
  "fail e s = (Inl e, s)"

definition lift_res :: "err + 'a \<Rightarrow> ('s, 'a) act" where
  "lift_res r s = (r, s)"

definition sbind :: "('s, 'a) act \<Rightarrow> ('a \<Rightarrow> ('s, 'b) act) \<Rightarrow> ('s, 'b) act" where
  "sbind m f s = (case m s of (Inl e, t) \<Rightarrow> (Inl e, t) | (Inr x, t) \<Rightarrow> f x t)"

definition gets :: "('s \<Rightarrow> 'a) \<Rightarrow> ('s, 'a) act" where
  "gets f s = (Inr (f s), s)"

definition getr :: "('s \<Rightarrow> err + 'a) \<Rightarrow> ('s, 'a) act" where
  "getr f s = (f s, s)"

named_theorems act_simps \<open>unfolding the action combinators\<close>

lemmas act_defs [act_simps] = ret_def fail_def lift_res_def gets_def getr_def

lemma sbind_ret [act_simps]: "sbind m f s = (Inr y, t) \<longleftrightarrow> (\<exists>x u. m s = (Inr x, u) \<and> f x u = (Inr y, t))"
  by (auto simp: sbind_def split: prod.splits sum.splits)

lemma sbind_fail:
  "sbind m f s = (Inl e, t) \<longleftrightarrow> m s = (Inl e, t) \<or> (\<exists>x u. m s = (Inr x, u) \<and> f x u = (Inl e, t))"
  by (auto simp: sbind_def split: prod.splits sum.splits)

lemma sbind_step: "m s = (Inr x, t) \<Longrightarrow> sbind m f s = f x t"
  by (simp add: sbind_def)

lemma sbind_stop: "m s = (Inl e, t) \<Longrightarrow> sbind m f s = (Inl e, t)"
  by (simp add: sbind_def)

text \<open>A relation between the states before and after that every action of a chain keeps.\<close>

definition act_keeps :: "('s \<Rightarrow> 's \<Rightarrow> bool) \<Rightarrow> ('s, 'a) act \<Rightarrow> bool" where
  "act_keeps R m \<longleftrightarrow> (\<forall>s. R s (snd (m s)))"

lemma act_keepsI: "(\<And>s r t. m s = (r, t) \<Longrightarrow> R s t) \<Longrightarrow> act_keeps R m"
  by (simp add: act_keeps_def) (metis prod.collapse)

lemma act_keepsD: "act_keeps R m \<Longrightarrow> m s = (r, t) \<Longrightarrow> R s t"
  by (auto simp: act_keeps_def dest: spec [of _ s])

lemma act_keeps_pure:
  assumes "reflp R"
  shows "act_keeps R (ret x)" "act_keeps R (fail e)" "act_keeps R (lift_res r)"
    "act_keeps R (gets f)" "act_keeps R (getr g)"
  using assms by (auto simp: act_keeps_def act_simps dest: reflpD)

lemma act_keeps_sbind:
  assumes "transp R" "act_keeps R m" "\<And>x. act_keeps R (f x)"
  shows "act_keeps R (sbind m f)"
proof (rule act_keepsI)
  fix s r t
  assume run: "sbind m f s = (r, t)"
  obtain q u where u: "m s = (q, u)" by (cases "m s")
  show "R s t"
  proof (cases q)
    case (Inl e)
    with run u have "t = u" by (simp add: sbind_def)
    with u assms(2) show ?thesis by (auto dest: act_keepsD)
  next
    case (Inr x)
    with run u have "f x u = (r, t)" by (simp add: sbind_def)
    with u assms show ?thesis by (blast dest: act_keepsD transpD)
  qed
qed

subsection \<open>Words\<close>

lemma unat_u16_less [simp]: "unat (p :: u16) < 65536"
  using unsigned_less [of p] by simp

lemma unat_u16_le: "unat (p :: u16) \<le> 65535"
  using unat_u16_less [of p] by linarith

lemma unat_of_nat_u16: "n \<le> 65535 \<Longrightarrow> unat (of_nat n :: u16) = n"
  by (simp add: unat_of_nat take_bit_nat_eq_self)

lemma unat_less_u16_max: "p \<noteq> 65535 \<Longrightarrow> unat (p :: u16) < 65535"
proof -
  assume p: "p \<noteq> 65535"
  have "unat p \<noteq> 65535"
  proof
    assume "unat p = 65535"
    then have "unat p = unat (65535 :: u16)" by simp
    then have "p = 65535" by (simp only: unsigned_word_eqI)
    with p show False by simp
  qed
  then show ?thesis using unat_u16_less [of p] by linarith
qed

lemma unat_succ_u16: "p \<noteq> 65535 \<Longrightarrow> unat (p + 1 :: u16) = Suc (unat p)"
  using unat_less_u16_max [of p] by (simp add: unat_word_ariths)

lemma of_nat_unat_u16 [simp]: "of_nat (unat p) = (p :: u16)"
  by simp

end
