(* ===== verification/Rust_Text.thy ===== *)
theory Rust_Text
  imports Prelude
begin

text \<open>
  The string and integer-parsing functions of the Rust standard library that the source
  calls, and the facts about them that the parsers and printers need. A \<open>string\<close> is the
  list of the text's Unicode scalars, restricted to U+0000--U+00FF (an Isabelle \<open>char\<close>), and
  \<open>is_whitespace\<close> is Rust's \<open>char::is_whitespace\<close> on that range.
\<close>

subsection \<open>Splitting and trimming\<close>

definition is_whitespace :: "char \<Rightarrow> bool" where
  "is_whitespace c \<longleftrightarrow>
     c \<in> set [CHR 0x09, CHR 0x0A, CHR 0x0B, CHR 0x0C, CHR 0x0D, CHR 0x20, CHR 0x85, CHR 0xA0]"

definition trim_start :: "string \<Rightarrow> string" where
  "trim_start s = dropWhile is_whitespace s"

definition trim_end_matches :: "(char \<Rightarrow> bool) \<Rightarrow> string \<Rightarrow> string" where
  "trim_end_matches P s = rev (dropWhile P (rev s))"

definition trim :: "string \<Rightarrow> string" where
  "trim s = trim_end_matches is_whitespace (trim_start s)"

text \<open>\<open>str::split\<close> with a predicate: the pieces between the matching characters.\<close>

fun split_by :: "(char \<Rightarrow> bool) \<Rightarrow> string \<Rightarrow> string list" where
  "split_by P [] = [[]]"
| "split_by P (c # s) =
     (if P c then [] # split_by P s
      else (case split_by P s of [] \<Rightarrow> [[c]] | t # ts \<Rightarrow> (c # t) # ts))"

definition split_on :: "char \<Rightarrow> string \<Rightarrow> string list" where
  "split_on c s = split_by (\<lambda>x. x = c) s"

definition split_whitespace :: "string \<Rightarrow> string list" where
  "split_whitespace s = filter (\<lambda>t. t \<noteq> []) (split_by is_whitespace s)"

fun split_once :: "char \<Rightarrow> string \<Rightarrow> (string \<times> string) option" where
  "split_once c [] = None"
| "split_once c (x # s) =
     (if x = c then Some ([], s)
      else (case split_once c s of None \<Rightarrow> None | Some (a, b) \<Rightarrow> Some (x # a, b)))"

definition rsplit_once :: "char \<Rightarrow> string \<Rightarrow> (string \<times> string) option" where
  "rsplit_once c s =
     (case split_once c (rev s) of None \<Rightarrow> None | Some (b, a) \<Rightarrow> Some (rev a, rev b))"

fun strip_prefix :: "string \<Rightarrow> string \<Rightarrow> string option" where
  "strip_prefix [] s = Some s"
| "strip_prefix (p # ps) [] = None"
| "strip_prefix (p # ps) (c # s) = (if p = c then strip_prefix ps s else None)"

definition starts_with :: "string \<Rightarrow> string \<Rightarrow> bool" where
  "starts_with p s \<longleftrightarrow> strip_prefix p s \<noteq> None"

text \<open>
  \<open>str::lines\<close> and \<open>BufRead::lines\<close>: a line ends at a line feed, a carriage return right
  before it goes too, and a last line without a line feed counts when it is not empty.
\<close>

definition strip_cr :: "string \<Rightarrow> string" where
  "strip_cr s = (if s \<noteq> [] \<and> last s = CHR 0x0D then butlast s else s)"

definition lines :: "string \<Rightarrow> string list" where
  "lines s =
     (let segs = split_on CHR 0x0A s
      in map strip_cr (butlast segs) @ (if last segs = [] then [] else [last segs]))"

definition to_ascii_lowercase_char :: "char \<Rightarrow> char" where
  "to_ascii_lowercase_char c =
     (let n = (of_char c :: nat) in if 65 \<le> n \<and> n \<le> 90 then char_of (n + 32) else c)"

definition to_ascii_lowercase :: "string \<Rightarrow> string" where
  "to_ascii_lowercase s = map to_ascii_lowercase_char s"

subsection \<open>Numbers\<close>

definition digit_value :: "char \<Rightarrow> nat option" where
  "digit_value c =
     (let n = (of_char c :: nat) in if 48 \<le> n \<and> n \<le> 57 then Some (n - 48) else None)"

definition is_ascii_digit :: "char \<Rightarrow> bool" where
  "is_ascii_digit c \<longleftrightarrow> digit_value c \<noteq> None"

definition digit_char :: "nat \<Rightarrow> char" where
  "digit_char d = char_of (48 + d)"

fun digits_value :: "nat \<Rightarrow> string \<Rightarrow> nat option" where
  "digits_value acc [] = Some acc"
| "digits_value acc (c # s) =
     (case digit_value c of None \<Rightarrow> None | Some d \<Rightarrow> digits_value (10 * acc + d) s)"

text \<open>
  \<open>FromStr\<close> of an unsigned integer type whose largest value is \<open>m\<close>: one leading plus
  sign is accepted, then at least one digit and nothing else, and a value above \<open>m\<close> is the
  overflow error.
\<close>

definition strip_plus :: "string \<Rightarrow> string" where
  "strip_plus s = (case s of [] \<Rightarrow> [] | c # r \<Rightarrow> if c = CHR ''+'' then r else s)"

definition parse_uint :: "nat \<Rightarrow> string \<Rightarrow> nat option" where
  "parse_uint m s =
     (let ds = strip_plus s
      in if ds = [] then None
         else (case digits_value 0 ds of None \<Rightarrow> None
               | Some n \<Rightarrow> if n \<le> m then Some n else None))"

definition u16_max :: nat where "u16_max = 65535"
definition u64_max :: nat where "u64_max = 18446744073709551615"

fun show_nat :: "nat \<Rightarrow> string" where
  "show_nat n = (if n < 10 then [digit_char n] else show_nat (n div 10) @ [digit_char (n mod 10)])"

declare show_nat.simps [simp del]

definition show_port :: "port \<Rightarrow> string" where
  "show_port p = show_nat (unat p)"

text \<open>\<open>i32\<close>: its text, and its \<open>FromStr\<close>, which takes one sign.\<close>

definition show_int :: "int \<Rightarrow> string" where
  "show_int i = (if i < 0 then ''-'' @ show_nat (nat (- i)) else show_nat (nat i))"

definition parse_i32 :: "string \<Rightarrow> int option" where
  "parse_i32 s =
     (case s of
        [] \<Rightarrow> None
      | c # r \<Rightarrow>
          if c = CHR ''-'' then
            (if r = [] then None
             else (case digits_value 0 r of None \<Rightarrow> None
                   | Some n \<Rightarrow> if n \<le> 2147483648 then Some (- int n) else None))
          else map_option int (parse_uint 2147483647 s))"

text \<open>\<open>String::len\<close>: the bytes of the text in UTF-8.\<close>

definition utf8_length :: "string \<Rightarrow> nat" where
  "utf8_length s = sum_list (map (\<lambda>c. if (of_char c :: nat) < 128 then 1 else 2) s)"

subsection \<open>Facts: digits and numbers\<close>

lemma digit_value_digit_char [simp]: "d < 10 \<Longrightarrow> digit_value (digit_char d) = Some d"
  by (simp add: digit_value_def digit_char_def)

lemma digits_value_append:
  "digits_value acc (s @ t) = (case digits_value acc s of None \<Rightarrow> None | Some n \<Rightarrow> digits_value n t)"
  by (induction s arbitrary: acc) (auto split: option.splits)

lemma digits_value_show_nat: "digits_value 0 (show_nat n) = Some n"
proof (induction n rule: show_nat.induct)
  case (1 n)
  show ?case
  proof (cases "n < 10")
    case True
    then show ?thesis by (simp add: show_nat.simps [of n])
  next
    case False
    with "1" show ?thesis by (simp add: show_nat.simps [of n] digits_value_append)
  qed
qed

lemma show_nat_nonempty [simp]: "show_nat n \<noteq> []"
  by (subst show_nat.simps) simp

lemma show_nat_digits: "c \<in> set (show_nat n) \<Longrightarrow> is_ascii_digit c"
proof (induction n rule: show_nat.induct)
  case (1 n)
  then show ?case
    by (cases "n < 10") (auto simp: show_nat.simps [of n] is_ascii_digit_def)
qed

lemma is_ascii_digit_not:
  assumes "is_ascii_digit c"
  shows "\<not> is_whitespace c" "c \<noteq> CHR ''+''" "c \<noteq> CHR ''-''" "c \<noteq> CHR '',''" "c \<noteq> CHR ''#''"
    "c \<noteq> CHR 0x0A" "c \<noteq> CHR 0x0D"
  using assms by (auto simp: is_ascii_digit_def digit_value_def is_whitespace_def)

lemma strip_plus_show_nat [simp]: "strip_plus (show_nat n) = show_nat n"
proof -
  have "hd (show_nat n) \<in> set (show_nat n)" by (rule hd_in_set) simp
  then have "hd (show_nat n) \<noteq> CHR ''+''" by (blast dest: show_nat_digits is_ascii_digit_not(2))
  then show ?thesis by (auto simp: strip_plus_def split: list.splits)
qed

theorem parse_uint_show_nat [simp]: "n \<le> m \<Longrightarrow> parse_uint m (show_nat n) = Some n"
  by (simp add: parse_uint_def digits_value_show_nat)

lemma parse_uint_le: "parse_uint m s = Some n \<Longrightarrow> n \<le> m"
  by (auto simp: parse_uint_def Let_def split: if_splits option.splits)

subsection \<open>Text facts\<close>

lemma split_by_nonempty [simp]: "split_by P s \<noteq> []"
  by (cases s) (auto split: list.splits)

lemma split_by_none: "\<forall>c \<in> set s. \<not> P c \<Longrightarrow> split_by P s = [s]"
  by (induction s) auto

lemma split_by_cons:
  "\<forall>c \<in> set s. \<not> P c \<Longrightarrow> P d \<Longrightarrow> split_by P (s @ d # t) = s # split_by P t"
  by (induction s) auto

lemma split_eq_cons: "d \<notin> set s \<Longrightarrow> split_by (\<lambda>x. x = d) (s @ d # t) = s # split_by (\<lambda>x. x = d) t"
  by (rule split_by_cons) auto

lemma split_eq_none: "d \<notin> set s \<Longrightarrow> split_by (\<lambda>x. x = d) s = [s]"
  by (rule split_by_none) auto

lemma lines_unlines:
  assumes "\<forall>l \<in> set ls. CHR 0x0A \<notin> set l \<and> (l = [] \<or> last l \<noteq> CHR 0x0D)"
  shows "lines (concat (map (\<lambda>l. l @ [CHR 0x0A]) ls)) = ls"
proof -
  have "split_on CHR 0x0A (concat (map (\<lambda>l. l @ [CHR 0x0A]) ls)) = ls @ [[]]"
    using assms unfolding split_on_def
    by (induction ls) (auto simp: split_eq_cons)
  moreover have "map strip_cr ls = ls"
    using assms by (intro map_idI) (auto simp: strip_cr_def)
  ultimately show ?thesis by (simp add: lines_def)
qed

definition tokens_line :: "string list \<Rightarrow> string" where
  "tokens_line ts = concat (map (\<lambda>t. '' '' @ t) ts)"

lemma split_whitespace_tokens:
  "\<forall>t \<in> set (t0 # ts). t \<noteq> [] \<and> (\<forall>c \<in> set t. \<not> is_whitespace c) \<Longrightarrow>
   split_whitespace (t0 @ tokens_line ts) = t0 # ts"
proof (induction ts arbitrary: t0)
  case Nil
  then show ?case by (simp add: split_whitespace_def tokens_line_def split_by_none)
next
  case (Cons t ts)
  have sp: "is_whitespace CHR '' ''" by (simp add: is_whitespace_def)
  have "tokens_line (t # ts) = CHR '' '' # (t @ tokens_line ts)" by (simp add: tokens_line_def)
  then have "split_by is_whitespace (t0 @ tokens_line (t # ts))
      = t0 # split_by is_whitespace (t @ tokens_line ts)"
    using Cons.prems sp by (simp add: split_by_cons)
  moreover have "split_whitespace (t @ tokens_line ts) = t # ts"
    using Cons.prems by (intro Cons.IH) simp
  ultimately show ?case using Cons.prems by (simp add: split_whitespace_def)
qed

lemma tokens_line_last:
  "\<forall>t \<in> set (t0 # ts). t \<noteq> [] \<and> (\<forall>c \<in> set t. \<not> is_whitespace c) \<Longrightarrow>
   \<not> is_whitespace (last (t0 @ tokens_line ts))"
proof (induction ts rule: rev_induct)
  case (snoc t ts)
  then show ?case by (auto simp: tokens_line_def)
qed (auto simp: tokens_line_def)

lemma takeWhile_id: "\<forall>c \<in> set s. P c \<Longrightarrow> takeWhile P s = s"
  by (rule takeWhile_eq_all_conv [THEN iffD2])

lemma strip_prefix_append [simp]: "strip_prefix p (p @ s) = Some s"
  by (induction p) auto

lemma starts_with_append [simp]: "starts_with p (p @ s)"
  by (simp add: starts_with_def)


lemma split_by_subset: "t \<in> set (split_by P s) \<Longrightarrow> set t \<subseteq> set s"
proof (induction s arbitrary: t)
  case (Cons c s)
  then show ?case by (fastforce split: if_splits list.splits)
qed simp

lemma trim_subset: "set (trim s) \<subseteq> set s"
  by (auto simp: trim_def trim_start_def trim_end_matches_def dest!: set_dropWhileD)

lemma split_whitespace_subset: "t \<in> set (split_whitespace s) \<Longrightarrow> set t \<subseteq> set s"
  by (auto simp: split_whitespace_def dest: split_by_subset)

end
