(* ===== verification/Ordered_Map.thy ===== *)
theory Ordered_Map
  imports Prelude
begin

text \<open>
  \<open>BTreeMap\<close>: the associations in ascending key order, as its iterators give them. The same
  representation serves the \<open>HashMap<u16, u8>\<close> snapshots of the port map, whose iteration
  order the source never lets through (it sorts or only counts what it reads from them).
  The interface is the locale \<open>ordered_map\<close>; its laws are proved for the operations below and
  its clients use the derived lemmas of the interpretation \<open>om\<close>.
\<close>

type_synonym ('k, 'v) omap = "('k \<times> 'v) list"

definition om_empty :: "('k, 'v) omap" where
  "om_empty = []"

definition om_get :: "('k, 'v) omap \<Rightarrow> 'k \<Rightarrow> 'v option" where
  "om_get m = map_of m"

fun om_insert :: "'k::linorder \<Rightarrow> 'v \<Rightarrow> ('k, 'v) omap \<Rightarrow> ('k, 'v) omap" where
  "om_insert k v [] = [(k, v)]"
| "om_insert k v ((k', v') # m) =
     (if k < k' then (k, v) # (k', v') # m
      else if k = k' then (k, v) # m
      else (k', v') # om_insert k v m)"

fun om_remove :: "'k::linorder \<Rightarrow> ('k, 'v) omap \<Rightarrow> ('k, 'v) omap" where
  "om_remove k [] = []"
| "om_remove k ((k', v') # m) = (if k = k' then m else (k', v') # om_remove k m)"

definition om_keys :: "('k, 'v) omap \<Rightarrow> 'k list" where
  "om_keys m = map fst m"

definition om_wf :: "('k::linorder, 'v) omap \<Rightarrow> bool" where
  "om_wf m \<longleftrightarrow> sorted_wrt (<) (map fst m)"

text \<open>Two loops every client runs: insert one value under many keys, remove many keys.\<close>

fun om_insert_all :: "'k::linorder list \<Rightarrow> 'v \<Rightarrow> ('k, 'v) omap \<Rightarrow> ('k, 'v) omap" where
  "om_insert_all [] v m = m"
| "om_insert_all (k # ks) v m = om_insert_all ks v (om_insert k v m)"

fun om_remove_all :: "'k::linorder list \<Rightarrow> ('k, 'v) omap \<Rightarrow> ('k, 'v) omap" where
  "om_remove_all [] m = m"
| "om_remove_all (k # ks) m = om_remove_all ks (om_remove k m)"

subsection \<open>The interface\<close>

locale ordered_map =
  fixes empty :: "'m"
    and get :: "'m \<Rightarrow> 'k::linorder \<Rightarrow> 'v option"
    and ins :: "'k \<Rightarrow> 'v \<Rightarrow> 'm \<Rightarrow> 'm"
    and del :: "'k \<Rightarrow> 'm \<Rightarrow> 'm"
    and keys :: "'m \<Rightarrow> 'k list"
    and wf :: "'m \<Rightarrow> bool"
  assumes get_empty: "get empty k = None"
    and get_ins: "wf m \<Longrightarrow> get (ins k v m) = (get m)(k := Some v)"
    and get_del: "wf m \<Longrightarrow> get (del k m) = (get m)(k := None)"
    and set_keys: "set (keys m) = dom (get m)"
    and sorted_keys: "wf m \<Longrightarrow> sorted_wrt (<) (keys m)"
    and wf_empty: "wf empty"
    and wf_ins: "wf m \<Longrightarrow> wf (ins k v m)"
    and wf_del: "wf m \<Longrightarrow> wf (del k m)"
begin

lemma distinct_keys: "wf m \<Longrightarrow> distinct (keys m)"
  using sorted_keys [of m] by (simp add: strict_sorted_iff)

lemma length_keys: "wf m \<Longrightarrow> length (keys m) = card (dom (get m))"
  using distinct_card [OF distinct_keys] set_keys by metis

lemma wf_fold_ins: "wf m \<Longrightarrow> wf (fold (\<lambda>k. ins k v) ks m)"
  by (induction ks arbitrary: m) (simp_all add: wf_ins)

lemma wf_fold_del: "wf m \<Longrightarrow> wf (fold del ks m)"
  by (induction ks arbitrary: m) (simp_all add: wf_del)

lemma get_fold_ins:
  "wf m \<Longrightarrow> get (fold (\<lambda>k. ins k v) ks m) k = (if k \<in> set ks then Some v else get m k)"
  by (induction ks arbitrary: m) (simp_all add: wf_ins get_ins)

lemma get_fold_del:
  "wf m \<Longrightarrow> get (fold del ks m) k = (if k \<in> set ks then None else get m k)"
  by (induction ks arbitrary: m) (simp_all add: wf_del get_del)

lemma keys_eq_if_get_eq:
  "wf m \<Longrightarrow> wf n \<Longrightarrow> dom (get m) = dom (get n) \<Longrightarrow> keys m = keys n"
  using sorted_keys set_keys
  by (metis strict_sorted_equal)

end

subsection \<open>The implementation meets it\<close>

lemma set_om_keys: "set (om_keys m) = dom (om_get m)"
  by (simp add: om_keys_def om_get_def dom_map_of_conv_image_fst)

lemma om_insert_keys: "set (map fst (om_insert k v m)) = insert k (set (map fst m))"
  by (induction k v m rule: om_insert.induct) auto

lemma om_remove_keys: "set (map fst (om_remove k m)) \<subseteq> set (map fst m)"
  by (induction k m rule: om_remove.induct) auto

lemma om_wf_insert [simp]: "om_wf m \<Longrightarrow> om_wf (om_insert k v m)"
proof (induction k v m rule: om_insert.induct)
  case (2 k v k' v' m)
  then show ?case using om_insert_keys [of k v m] by (auto simp: om_wf_def)
qed (simp add: om_wf_def)

lemma om_wf_remove [simp]: "om_wf m \<Longrightarrow> om_wf (om_remove k m)"
proof (induction k m rule: om_remove.induct)
  case (2 k k' v' m)
  then show ?case using om_remove_keys [of k m] by (fastforce simp: om_wf_def)
qed (simp add: om_wf_def)

lemma om_wf_empty [simp]: "om_wf om_empty"
  by (simp add: om_wf_def om_empty_def)

lemma om_get_insert [simp]: "om_wf m \<Longrightarrow> om_get (om_insert k v m) = (om_get m)(k := Some v)"
proof (induction k v m rule: om_insert.induct)
  case (2 k v k' v' m)
  then show ?case by (auto simp: om_get_def om_wf_def fun_eq_iff)
qed (simp add: om_get_def)

lemma om_get_remove [simp]: "om_wf m \<Longrightarrow> om_get (om_remove k m) = (om_get m)(k := None)"
proof (induction k m rule: om_remove.induct)
  case (2 k k' v' m)
  then have "k' \<notin> dom (map_of m)"
    by (auto simp: om_wf_def dom_map_of_conv_image_fst)
  with "2" show ?case by (auto simp: om_get_def om_wf_def fun_eq_iff)
qed (simp add: om_get_def)

lemma om_wf_keys: "om_wf m \<Longrightarrow> sorted_wrt (<) (om_keys m)"
  by (simp add: om_wf_def om_keys_def)

lemma om_get_empty: "om_get om_empty k = None"
  by (simp add: om_get_def om_empty_def)

interpretation om: ordered_map om_empty om_get om_insert om_remove om_keys om_wf
  by unfold_locales (simp_all add: om_get_empty set_om_keys om_wf_keys)

lemma om_insert_all_fold: "om_insert_all ks v m = fold (\<lambda>k. om_insert k v) ks m"
  by (induction ks arbitrary: m) simp_all

lemma om_remove_all_fold: "om_remove_all ks m = fold om_remove ks m"
  by (induction ks arbitrary: m) simp_all

lemmas om_wf_insert_all [simp] = om.wf_fold_ins [folded om_insert_all_fold]
lemmas om_wf_remove_all [simp] = om.wf_fold_del [folded om_remove_all_fold]
lemmas om_get_insert_all [simp] = om.get_fold_ins [folded om_insert_all_fold]
lemmas om_get_remove_all [simp] = om.get_fold_del [folded om_remove_all_fold]

subsection \<open>Canonicity\<close>

lemma om_get_Some_iff: "om_wf m \<Longrightarrow> om_get m k = Some v \<longleftrightarrow> (k, v) \<in> set m"
  unfolding om_wf_def om_get_def
  by (metis distinct_map map_of_eq_Some_iff strict_sorted_iff)

lemma om_get_None_iff: "om_get m k = None \<longleftrightarrow> k \<notin> set (map fst m)"
  by (simp add: om_get_def map_of_eq_None_iff)

text \<open>A well-formed map is determined by what it looks up.\<close>

lemma om_eqI:
  assumes "om_wf m" "om_wf n" "om_get m = om_get n"
  shows "m = n"
proof -
  have keys: "map fst m = map fst n"
    using om.keys_eq_if_get_eq [OF assms(1,2)] assms(3) by (simp add: om_keys_def)
  have "set m = set n"
    using om_get_Some_iff [OF assms(1)] om_get_Some_iff [OF assms(2)] assms(3) by auto
  moreover have "inj_on fst (set m)"
    using assms(1) by (simp add: om_wf_def strict_sorted_iff distinct_map)
  ultimately show ?thesis using keys by (metis map_inj_on sup.idem)
qed

text \<open>Inserting above every key appends.\<close>

lemma om_insert_snoc: "\<forall>k' \<in> set (map fst m). k' < k \<Longrightarrow> om_insert k v m = m @ [(k, v)]"
  by (induction k v m rule: om_insert.induct) auto

lemma om_wf_append: "om_wf (m @ n) \<longleftrightarrow>
    om_wf m \<and> om_wf n \<and> (\<forall>k \<in> set (map fst m). \<forall>k' \<in> set (map fst n). k < k')"
  by (auto simp: om_wf_def sorted_wrt_append)

lemma length_om_keys: "om_wf m \<Longrightarrow> length m = card (dom (om_get m))"
  using om.length_keys [of m] by (simp add: om_keys_def)

lemma set_om_insert: "set (om_insert k v m) \<subseteq> insert (k, v) (set m)"
  by (induction k v m rule: om_insert.induct) auto

end
