(* ===== verification/Ports.thy ===== *)
theory Ports
  imports Rust_Text Ordered_Map
begin

text \<open>
  \<open>rust/loader/src/ports.rs\<close>: port numbers, comma lists, inclusive ranges, port files, and the
  generation of a run of ports to fill. Each parser is the function of the same name; the two
  loops of the file that count a \<open>u16\<close> upwards are recursions on the word itself, so that the
  increment is the machine's.
\<close>

definition open_ports_max_entries :: nat where
  "open_ports_max_entries = 131072"

subsection \<open>Parsers\<close>

definition parse_port_number :: "string \<Rightarrow> err + port" where
  "parse_port_number raw =
     (case parse_uint u64_max (trim raw) of
        None \<Rightarrow> Inl (PortE (BadPort raw))
      | Some n \<Rightarrow>
          if n = 0 then Inl (PortE PortZero)
          else if n > u16_max then Inl (PortE (BadPort raw))
          else Inr (of_nat n))"

fun parse_port_list_tokens :: "string list \<Rightarrow> err + port list" where
  "parse_port_list_tokens [] = Inr []"
| "parse_port_list_tokens (p # ps) =
     (let t = trim p
      in if t = [] then parse_port_list_tokens ps
         else (case parse_uint u64_max t of
             None \<Rightarrow> Inl (PortE (BadPort t))
           | Some n \<Rightarrow>
               if n > u16_max then Inl (PortE (BadPort t))
               else rbind (parse_port_list_tokens ps) (\<lambda>rest. Inr (of_nat n # rest))))"

definition parse_port_list_allow_empty :: "string \<Rightarrow> err + port list" where
  "parse_port_list_allow_empty raw = parse_port_list_tokens (split_on CHR '','' raw)"

definition parse_port_list :: "string \<Rightarrow> err + port list" where
  "parse_port_list raw =
     rbind (parse_port_list_allow_empty raw) (\<lambda>ports. if ports = [] then Inl (PortE NoPorts) else Inr ports)"

text \<open>The push loop of a range: it stops at \<open>p == end\<close>, before the increment could wrap.\<close>

function range_loop :: "port \<Rightarrow> port \<Rightarrow> port list" where
  "range_loop p e = (if p = e then [p] else p # range_loop (p + 1) e)"
  by pat_completeness auto
termination
proof (relation "measure (\<lambda>(p, e). unat (e - p))")
  fix p e :: port
  assume "p \<noteq> e"
  then have "e - p \<noteq> 0" by simp
  then have "unat (e - p - 1) < unat (e - p)"
    by (simp add: unat_minus_one unat_gt_0)
  then show "((p + 1, e), (p, e)) \<in> measure (\<lambda>(p, e). unat (e - p))"
    by (simp add: algebra_simps)
qed simp

declare range_loop.simps [simp del]

definition parse_port_range :: "string \<Rightarrow> err + port list" where
  "parse_port_range raw =
     (case split_once CHR ''-'' (trim raw) of
        None \<Rightarrow> Inl (PortE (BadRange raw))
      | Some (start_str, end_str) \<Rightarrow>
          if start_str = [] \<or> end_str = [] \<or> CHR ''-'' \<in> set end_str then Inl (PortE (BadRange raw))
          else rbind (with_context (InRange raw) (parse_port_number start_str)) (\<lambda>start.
               rbind (with_context (InRange raw) (parse_port_number end_str)) (\<lambda>end'.
               if end' < start then Inl (PortE (RangeReversed raw)) else Inr (range_loop start end'))))"

definition parse_port_token :: "string \<Rightarrow> err + port list" where
  "parse_port_token raw =
     (let s = trim raw
      in if s = [] then Inr []
         else if CHR ''-'' \<in> set s then parse_port_range s
         else rbind (parse_port_number s) (\<lambda>p. Inr [p]))"

definition parse_port_list_flexible :: "string \<Rightarrow> err + port list" where
  "parse_port_list_flexible raw =
     rfold (\<lambda>tok out. rbind (parse_port_token tok) (\<lambda>ps. Inr (out @ ps))) (split_on CHR '','' raw) []"

text \<open>
  A reader is the text it yields. The trimmed copy of a line decides whether it is blank or a
  comment; what is parsed is the line itself, cut at its first hash sign.
\<close>

fun load_port_lines :: "nat \<Rightarrow> string list \<Rightarrow> port list \<Rightarrow> err + port list" where
  "load_port_lines i [] out = Inr out"
| "load_port_lines i (line # rest) out =
     (let trimmed = trim line
      in if trimmed = [] \<or> starts_with ''#'' trimmed then load_port_lines (Suc i) rest out
         else
           let cut = trim (takeWhile (\<lambda>c. c \<noteq> CHR ''#'') line)
           in if cut = [] then load_port_lines (Suc i) rest out
              else rbind (with_context (AtLine (Suc i)) (parse_port_list_flexible cut))
                     (\<lambda>ports. load_port_lines (Suc i) rest (out @ ports)))"

definition load_ports_from_reader :: "string \<Rightarrow> err + port list" where
  "load_ports_from_reader text = load_port_lines 0 (lines text) []"

subsection \<open>Sets of ports\<close>

fun unique_loop :: "port list \<Rightarrow> port set \<Rightarrow> port list" where
  "unique_loop [] seen = []"
| "unique_loop (p # ps) seen =
     (if p \<in> seen then unique_loop ps seen else p # unique_loop ps (insert p seen))"

definition unique_ports :: "port list \<Rightarrow> port list" where
  "unique_ports ports = unique_loop ports {}"

definition parse_skip_set :: "string \<Rightarrow> err + port set" where
  "parse_skip_set raw =
     rbind (with_context InSkip (parse_port_list_allow_empty raw)) (\<lambda>ports. Inr (set ports))"

text \<open>The fill loop: it stops at 65535, before the increment could wrap to port 0.\<close>

function fill_loop :: "port \<Rightarrow> nat \<Rightarrow> port set \<Rightarrow> port list \<Rightarrow> err + port list" where
  "fill_loop p count skip out =
     (let out' = (if p \<in> skip then out else out @ [p])
      in if p \<notin> skip \<and> length out' = count then Inr out'
         else if p = 65535 then Inl (PortE (NotEnoughPorts (length out') count))
         else fill_loop (p + 1) count skip out')"
  by pat_completeness auto
termination
  by (relation "measure (\<lambda>(p, count, skip, out). 65535 - unat p)")
    (auto simp: unat_succ_u16 dest: unat_less_u16_max)

declare fill_loop.simps [simp del]

definition generate_fill_ports :: "port \<Rightarrow> nat \<Rightarrow> port set \<Rightarrow> err + port list" where
  "generate_fill_ports start count skip =
     (if count = 0 then Inl (PortE FillCountZero)
      else if count > open_ports_max_entries then Inl (PortE (FillCountTooBig count))
      else if start = 0 then Inl (PortE FillStartZero)
      else fill_loop start count skip [])"

fun overlap_loop :: "port set \<Rightarrow> port list \<Rightarrow> port set \<Rightarrow> port list" where
  "overlap_loop seen [] dup = []"
| "overlap_loop seen (p # ps) dup =
     (if p \<in> seen \<and> p \<notin> dup then p # overlap_loop seen ps (insert p dup)
      else overlap_loop seen ps dup)"

definition port_set_overlap :: "port list \<Rightarrow> port list \<Rightarrow> port list" where
  "port_set_overlap a b = (if a = [] \<or> b = [] then [] else overlap_loop (set a) b {})"

text \<open>
  \<open>collect_bulk_ports\<close>: the file's contents come from the file system (\<open>read\<close>), standard
  input is the text it holds. An option that is present but empty counts as absent.
\<close>

definition collect_bulk_ports ::
    "(string \<Rightarrow> err + string) \<Rightarrow> string \<Rightarrow> string option \<Rightarrow> string option \<Rightarrow> bool \<Rightarrow> string list
      \<Rightarrow> err + port list" where
  "collect_bulk_ports read stdin range_spec file_path from_stdin extra =
     rbind (case range_spec of Some r \<Rightarrow> if r = [] then Inr [] else parse_port_range r
              | None \<Rightarrow> Inr []) (\<lambda>out1.
     rbind (case file_path of Some f \<Rightarrow>
                if f = [] then Inr []
                else rbind (read f) (\<lambda>text. with_context (InFileName f) (load_ports_from_reader text))
              | None \<Rightarrow> Inr []) (\<lambda>out2.
     rbind (if from_stdin then with_context InStdin (load_ports_from_reader stdin) else Inr []) (\<lambda>out3.
     rbind (rfold (\<lambda>a out. rbind (parse_port_list_flexible a) (\<lambda>ps. Inr (out @ ps))) extra
              (out1 @ out2 @ out3)) (\<lambda>out.
     let out = unique_ports out
     in if out = [] then Inl (PortE NoBulkSource)
        else if length out > open_ports_max_entries then Inl (PortE (BulkTooBig (length out)))
        else Inr out))))"

subsection \<open>Numbers and ranges\<close>

lemma parse_port_number_Inr:
  "parse_port_number raw = Inr p \<Longrightarrow> p \<noteq> 0"
proof -
  assume "parse_port_number raw = Inr p"
  then obtain n where n: "n \<noteq> 0" "n \<le> 65535" "p = of_nat n"
    by (auto simp: parse_port_number_def u16_max_def split: option.splits if_splits)
  then have "unat p = n" by (simp add: unat_of_nat_u16)
  with n(1) show "p \<noteq> 0" by auto
qed

lemma dropWhile_nop: "\<not> P (hd s) \<Longrightarrow> dropWhile P s = s"
  by (cases s) auto

lemma trim_nop: "s \<noteq> [] \<Longrightarrow> \<not> is_whitespace (hd s) \<Longrightarrow> \<not> is_whitespace (last s) \<Longrightarrow> trim s = s"
  by (simp add: trim_def trim_start_def trim_end_matches_def dropWhile_nop hd_rev)

lemma trim_no_ws: "\<forall>c \<in> set s. \<not> is_whitespace c \<Longrightarrow> trim s = s"
proof (cases "s = []")
  case True
  then show ?thesis by (simp add: trim_def trim_start_def trim_end_matches_def)
qed (simp add: trim_nop)

lemma show_port_no_ws: "\<forall>c \<in> set (show_port p). \<not> is_whitespace c"
  by (auto simp: show_port_def dest: show_nat_digits is_ascii_digit_not(1))

lemma parse_port_number_show: "p \<noteq> 0 \<Longrightarrow> parse_port_number (show_port p) = Inr p"
proof -
  assume "p \<noteq> 0"
  then have "unat p \<noteq> 0" by (simp add: unat_eq_0)
  moreover have "unat p \<le> u64_max" "unat p \<le> u16_max"
    using unat_u16_le [of p] by (simp_all add: u64_max_def u16_max_def)
  ultimately show ?thesis
    by (simp add: parse_port_number_def trim_no_ws [OF show_port_no_ws]) (simp add: show_port_def)
qed

lemma range_loop_upt: "p \<le> e \<Longrightarrow> range_loop p e = map of_nat [unat p ..< Suc (unat e)]"
proof (induction p e rule: range_loop.induct)
  case (1 p e)
  show ?case
  proof (cases "p = e")
    case True
    then show ?thesis by (simp add: range_loop.simps [of e e])
  next
    case False
    then have lt: "p < e" using "1.prems" by simp
    then have nmax: "p \<noteq> 65535"
      using unat_u16_le [of e] by (auto simp: word_less_nat_alt)
    then have s: "unat (p + 1) = Suc (unat p)" by (rule unat_succ_u16)
    have "p + 1 \<le> e" using lt s by (simp add: word_le_nat_alt word_less_nat_alt)
    from "1.IH" [OF False this] have "range_loop p e = p # map of_nat [Suc (unat p) ..< Suc (unat e)]"
      using False s by (simp add: range_loop.simps [of p e])
    moreover have "[unat p ..< Suc (unat e)] = unat p # [Suc (unat p) ..< Suc (unat e)]"
      using lt by (simp add: upt_rec word_less_nat_alt)
    ultimately show ?thesis by simp
  qed
qed

lemma range_loop_set: "p \<le> e \<Longrightarrow> set (range_loop p e) = {p .. e}"
proof -
  assume le: "p \<le> e"
  have "x \<in> of_nat ` {unat p ..< Suc (unat e)} \<longleftrightarrow> p \<le> x \<and> x \<le> e" for x :: port
  proof
    assume "x \<in> of_nat ` {unat p ..< Suc (unat e)}"
    then obtain n where n: "unat p \<le> n" "n \<le> unat e" "x = of_nat n" by auto
    then have "unat x = n" using unat_u16_le [of e] by (simp add: unat_of_nat_u16)
    with n show "p \<le> x \<and> x \<le> e" by (simp add: word_le_nat_alt)
  next
    assume "p \<le> x \<and> x \<le> e"
    then have "unat x \<in> {unat p ..< Suc (unat e)}" by (simp add: word_le_nat_alt)
    then show "x \<in> of_nat ` {unat p ..< Suc (unat e)}" by (rule rev_image_eqI) simp
  qed
  moreover have "set (range_loop p e) = of_nat ` {unat p ..< Suc (unat e)}"
    by (simp add: range_loop_upt [OF le] del: upt_Suc)
  ultimately show ?thesis by (simp add: set_eq_iff)
qed

lemma parse_port_range_Inr:
  assumes "parse_port_range raw = Inr ps"
  obtains a b where "a \<noteq> 0" "a \<le> b" "ps = range_loop a b"
proof -
  have "\<exists>a b s. parse_port_number s = Inr a \<and> a \<le> b \<and> ps = range_loop a b"
    using assms
    by (fastforce simp: parse_port_range_def linorder_not_less split: option.splits if_splits)
  with that show ?thesis by (blast dest: parse_port_number_Inr)
qed

lemma parse_port_token_nonzero: "parse_port_token raw = Inr ps \<Longrightarrow> 0 \<notin> set ps"
  by (auto simp: parse_port_token_def Let_def range_loop_set word_le_0_iff split: if_splits
      dest: parse_port_number_Inr elim!: parse_port_range_Inr)

lemma parse_port_list_flexible_nonzero: "parse_port_list_flexible raw = Inr ps \<Longrightarrow> 0 \<notin> set ps"
  unfolding parse_port_list_flexible_def
  by (erule rfold_invariant [where I = "\<lambda>out. 0 \<notin> set out"])
    (auto dest: parse_port_token_nonzero)

lemma load_port_lines_nonzero:
  "load_port_lines i ls out = Inr ps \<Longrightarrow> 0 \<notin> set out \<Longrightarrow> 0 \<notin> set ps"
proof (induction i ls out rule: load_port_lines.induct)
  case (2 i line rest out)
  then show ?case
    by (auto simp: Let_def dest: parse_port_list_flexible_nonzero split: if_splits)
qed simp

lemma load_ports_from_reader_nonzero: "load_ports_from_reader text = Inr ps \<Longrightarrow> 0 \<notin> set ps"
  by (auto simp: load_ports_from_reader_def dest: load_port_lines_nonzero)

subsection \<open>Duplicates, overlap\<close>

lemma unique_loop_spec:
  "distinct (unique_loop ps seen) \<and> set (unique_loop ps seen) = set ps - seen"
  by (induction ps seen rule: unique_loop.induct) auto

lemma set_unique_ports [simp]: "set (unique_ports ps) = set ps"
  by (simp add: unique_ports_def unique_loop_spec)

lemma distinct_unique_ports [simp]: "distinct (unique_ports ps)"
  by (simp add: unique_ports_def unique_loop_spec)

lemma length_distinct_ports: "distinct (ps :: port list) \<Longrightarrow> length ps \<le> 65536"
proof -
  assume "distinct ps"
  then have "length ps = card (set ps)" by (simp add: distinct_card)
  also have "\<dots> \<le> card (UNIV :: port set)" by (rule card_mono) auto
  also have "\<dots> = 65536" by (simp add: card_word)
  finally show ?thesis .
qed

lemma unique_loop_filter: "unique_loop ps seen = filter (\<lambda>p. p \<notin> seen) (unique_loop ps {})"
proof (induction ps arbitrary: seen)
  case (Cons p ps)
  have "unique_loop ps (insert p seen) = filter (\<lambda>q. q \<notin> seen) (unique_loop ps {p})"
    using Cons [of "insert p seen"] Cons [of "{p}"] by (auto intro: filter_cong)
  then show ?case using Cons [of seen] Cons [of "{p}"] by (auto intro: filter_cong)
qed simp

text \<open>The hash-set loop keeps the first occurrence of each port, in order.\<close>

lemma unique_ports_remdups: "unique_ports ps = rev (remdups (rev ps))"
proof (induction ps)
  case Nil
  then show ?case by (simp add: unique_ports_def)
next
  case (Cons p ps)
  have app: "remdups (xs @ [p]) = filter (\<lambda>q. q \<noteq> p) (remdups xs) @ [p]" for xs :: "port list"
    by (induction xs) auto
  have "unique_ports (p # ps) = p # filter (\<lambda>q. q \<noteq> p) (unique_ports ps)"
    using unique_loop_filter [of ps "{p}"] by (simp add: unique_ports_def)
  with Cons show ?case by (simp add: app rev_filter)
qed

lemma overlap_loop_spec:
  "distinct (overlap_loop seen ps dup) \<and>
   set (overlap_loop seen ps dup) = (set ps \<inter> seen) - dup"
  by (induction seen ps dup rule: overlap_loop.induct) auto

lemma port_set_overlap_spec:
  "distinct (port_set_overlap a b) \<and> set (port_set_overlap a b) = set a \<inter> set b"
  using overlap_loop_spec [of "set a" b "{}"] by (auto simp: port_set_overlap_def)

lemma port_set_overlap_empty_iff: "port_set_overlap a b = [] \<longleftrightarrow> set a \<inter> set b = {}"
  using port_set_overlap_spec [of a b] by (metis set_empty)

subsection \<open>The fill loop\<close>

text \<open>What the loop searches: the ports from \<open>p\<close> up to 65535 that are not skipped.\<close>

definition fill_candidates :: "port \<Rightarrow> port set \<Rightarrow> port list" where
  "fill_candidates p skip = filter (\<lambda>q. q \<notin> skip) (map of_nat [unat p ..< 65536])"

lemma fill_candidates_step:
  "fill_candidates p skip = (if p \<in> skip then [] else [p]) @
     (if p = 65535 then [] else fill_candidates (p + 1) skip)"
proof -
  have "[unat p ..< 65536] = unat p # [Suc (unat p) ..< 65536]"
    by (rule upt_conv_Cons) simp
  then show ?thesis
    by (cases "p = 65535") (simp_all add: fill_candidates_def unat_succ_u16)
qed

lemma fill_loop_spec:
  "length out < count \<Longrightarrow>
   fill_loop p count skip out =
     (let cand = fill_candidates p skip; n = length out + length cand
      in if count \<le> n then Inr (out @ take (count - length out) cand)
         else Inl (PortE (NotEnoughPorts n count)))"
proof (induction p count skip out rule: fill_loop.induct)
  case (1 p count skip out)
  let ?out = "if p \<in> skip then out else out @ [p]"
  show ?case
  proof (cases "(p \<notin> skip \<and> length ?out = count) \<or> p = 65535")
    case True
    with "1.prems" show ?thesis
      by (subst fill_loop.simps) (auto simp: Let_def fill_candidates_step [of p])
  next
    case False
    with "1.prems" have less: "length ?out < count" by auto
    have "fill_loop p count skip out = fill_loop (p + 1) count skip ?out"
      using False by (subst fill_loop.simps) (auto simp: Let_def)
    also have "\<dots> = (let cand = fill_candidates (p + 1) skip; n = length ?out + length cand
        in if count \<le> n then Inr (?out @ take (count - length ?out) cand)
           else Inl (PortE (NotEnoughPorts n count)))"
      using "1.IH" [OF refl _ _ less] False by simp
    finally show ?thesis
      using False less
      by (cases "p \<in> skip") (simp_all add: Let_def fill_candidates_step [of p] take_Cons')
  qed
qed

lemma generate_fill_ports_eq:
  "generate_fill_ports start count skip =
     (if count = 0 then Inl (PortE FillCountZero)
      else if count > open_ports_max_entries then Inl (PortE (FillCountTooBig count))
      else if start = 0 then Inl (PortE FillStartZero)
      else let cand = fill_candidates start skip
           in if count \<le> length cand then Inr (take count cand)
              else Inl (PortE (NotEnoughPorts (length cand) count)))"
  by (simp add: generate_fill_ports_def fill_loop_spec Let_def)

lemma set_fill_candidates: "set (fill_candidates p skip) = {q. p \<le> q} - skip"
proof -
  have "q \<in> of_nat ` {unat p ..< 65536} \<longleftrightarrow> p \<le> q" for q :: port
  proof
    assume "q \<in> of_nat ` {unat p ..< 65536}"
    then obtain n where "unat p \<le> n" "n \<le> 65535" "q = of_nat n" by auto
    then show "p \<le> q" by (simp add: word_le_nat_alt unat_of_nat_u16)
  next
    assume "p \<le> q"
    then have "unat q \<in> {unat p ..< 65536}" by (simp add: word_le_nat_alt)
    then show "q \<in> of_nat ` {unat p ..< 65536}" by (rule rev_image_eqI) simp
  qed
  then show ?thesis by (auto simp: fill_candidates_def)
qed

lemma sorted_fill_candidates: "sorted_wrt (<) (fill_candidates p skip)"
proof -
  have "sorted_wrt (<) (map of_nat [a ..< b] :: port list)" if "b \<le> 65536" for a b
    using that
  proof (induction b)
    case (Suc b)
    then show ?case by (auto simp: sorted_wrt_append word_less_nat_alt unat_of_nat_u16)
  qed simp
  then show ?thesis unfolding fill_candidates_def by (intro sorted_wrt_filter) simp
qed

lemma small_ports: "distinct (ps :: port list) \<Longrightarrow> length ps < 2 ^ 32"
  using length_distinct_ports [of ps] by simp

lemma sorted_prefix:
  fixes ps cand :: "port list"
  assumes "sorted_wrt (<) ps" "sorted_wrt (<) cand" "set ps \<subseteq> set cand"
    and "\<forall>q \<in> set cand - set ps. \<forall>p \<in> set ps. p < q"
  shows "ps = take (length ps) cand"
proof -
  let ?rest = "filter (\<lambda>q. q \<notin> set ps) cand"
  have "sorted_wrt (<) (ps @ ?rest)"
    using assms by (auto simp: sorted_wrt_append intro: sorted_wrt_filter)
  moreover have "set (ps @ ?rest) = set cand" using assms(3) by auto
  ultimately have "ps @ ?rest = cand" using assms(2) strict_sorted_equal by blast
  then show ?thesis by (metis append_eq_conv_conj)
qed

lemma show_port_no_dash: "CHR ''-'' \<notin> set (show_port p)"
  unfolding show_port_def using show_nat_digits is_ascii_digit_not(3) by blast

lemma split_once_append: "c \<notin> set s \<Longrightarrow> split_once c (s @ c # t) = Some (s, t)"
  by (induction s) auto

end
