(* ===== verification/File_System.thy ===== *)
theory File_System
  imports Rust_Text
begin

text \<open>
  The part of \<open>std::fs\<close> and \<open>std::path\<close> the source uses, as the standard library documents it.
  A file system is the contents of its regular files and the operations that fail on it; every
  theorem holds for any such set of failing operations. An operation on several steps is the
  list of them, so that a crash between two steps is a prefix of the list.
\<close>

subsection \<open>Paths\<close>

definition path_parent :: "path \<Rightarrow> path option" where
  "path_parent p = (if p = [] \<or> p = [''/''] then None else Some (butlast p))"

definition parent_or_dot :: "path \<Rightarrow> path" where
  "parent_or_dot p =
     (case path_parent p of Some d \<Rightarrow> if d = [] then [''.''] else d | None \<Rightarrow> [''.''])"

definition path_file_name :: "path \<Rightarrow> string option" where
  "path_file_name p = (if p = [] \<or> last p \<in> {''/'', ''..''} then None else Some (last p))"

text \<open>The system resolves a path by dropping its \<open>.\<close> components.\<close>

definition resolve :: "path \<Rightarrow> path" where
  "resolve p = filter (\<lambda>c. c \<noteq> ''.'') p"

subsection \<open>Files and steps\<close>

datatype fs_step =
    Mkdir path
  | Create path
  | SetMeta path
  | Append path string
  | Sync path
  | Rename path path
  | Remove path

record fsys =
  fs_files :: "path \<Rightarrow> string option"
  fs_unreadable :: "path \<Rightarrow> bool"
  fs_fault :: "fs_step \<Rightarrow> bool"

definition fs_exists :: "path \<Rightarrow> fsys \<Rightarrow> bool" where
  "fs_exists p fs \<longleftrightarrow> fs_files fs (resolve p) \<noteq> None"

definition fs_read :: "path \<Rightarrow> fsys \<Rightarrow> err + string" where
  "fs_read p fs =
     (case fs_files fs (resolve p) of
        None \<Rightarrow> Inl (IoE (NotFound p))
      | Some text \<Rightarrow> if fs_unreadable fs (resolve p) then Inl (IoE (IoFault p)) else Inr text)"

fun step_path :: "fs_step \<Rightarrow> path" where
  "step_path (Mkdir p) = p"
| "step_path (Create p) = p"
| "step_path (SetMeta p) = p"
| "step_path (Append p s) = p"
| "step_path (Sync p) = p"
| "step_path (Rename p q) = q"
| "step_path (Remove p) = p"

text \<open>What a step does to the files when it succeeds; \<open>None\<close> when its file is not there.\<close>

fun step_files :: "fs_step \<Rightarrow> (path \<Rightarrow> string option) \<Rightarrow> (path \<Rightarrow> string option) option" where
  "step_files (Mkdir p) m = Some m"
| "step_files (Create p) m = Some (m(resolve p := Some []))"
| "step_files (SetMeta p) m = Some m"
| "step_files (Append p s) m =
     (case m (resolve p) of None \<Rightarrow> None | Some t \<Rightarrow> Some (m(resolve p := Some (t @ s))))"
| "step_files (Sync p) m = Some m"
| "step_files (Rename p q) m =
     (case m (resolve p) of None \<Rightarrow> None
      | Some t \<Rightarrow> Some ((m(resolve p := None))(resolve q := Some t)))"
| "step_files (Remove p) m =
     (case m (resolve p) of None \<Rightarrow> None | Some t \<Rightarrow> Some (m(resolve p := None)))"

definition fs_do :: "fs_step \<Rightarrow> (fsys, unit) act" where
  "fs_do st fs =
     (if fs_fault fs st then (Inl (IoE (IoFault (step_path st))), fs)
      else (case step_files st (fs_files fs) of
          None \<Rightarrow> (Inl (IoE (NotFound (step_path st))), fs)
        | Some m \<Rightarrow> (Inr (), fs\<lparr>fs_files := m\<rparr>)))"

fun fs_run :: "fs_step list \<Rightarrow> (fsys, unit) act" where
  "fs_run [] = ret ()"
| "fs_run (st # sts) = sbind (fs_do st) (\<lambda>_. fs_run sts)"

text \<open>\<open>let _ = op\<close>: the result is dropped.\<close>

definition fs_try :: "fs_step \<Rightarrow> fsys \<Rightarrow> fsys" where
  "fs_try st fs = snd (fs_do st fs)"

text \<open>\<open>fs::write\<close>, which truncates in place.\<close>

definition fs_write_steps :: "path \<Rightarrow> string \<Rightarrow> fs_step list" where
  "fs_write_steps p text = Create p # map (\<lambda>c. Append p [c]) text"

subsection \<open>Replacing a file\<close>

text \<open>
  The sequence of \<open>desired::write\<close> after the directory exists: create the temporary file, copy
  the old file's mode and owner to it, write the text (which may stop after any byte), flush it,
  rename it over the file. When a step fails the temporary file is removed.
\<close>

definition tmp_path :: "nat \<Rightarrow> path \<Rightarrow> path" where
  "tmp_path pid path =
     parent_or_dot path @
       [''.'' @ (case path_file_name path of Some n \<Rightarrow> n | None \<Rightarrow> ''ports.conf'') @ ''.tmp.''
          @ show_nat pid]"

definition replace_steps :: "path \<Rightarrow> path \<Rightarrow> bool \<Rightarrow> string \<Rightarrow> fs_step list" where
  "replace_steps tmp path had_old text =
     [Create tmp] @ (if had_old then [SetMeta tmp] else []) @ map (\<lambda>c. Append tmp [c]) text
       @ [Sync tmp, Rename tmp path]"

definition replace_file :: "nat \<Rightarrow> path \<Rightarrow> string \<Rightarrow> (fsys, unit) act" where
  "replace_file pid path text fs =
     (let had_old = fs_exists path fs; tmp = tmp_path pid path in
      case fs_do (Mkdir (parent_or_dot path)) fs of
        (Inl e, fs1) \<Rightarrow> (Inl e, fs1)
      | (Inr _, fs1) \<Rightarrow>
          (case fs_run (replace_steps tmp path had_old text) fs1 of
             (Inl e, fs2) \<Rightarrow> (Inl e, fs_try (Remove tmp) fs2)
           | (Inr _, fs2) \<Rightarrow> (Inr (), fs2)))"

subsection \<open>Facts\<close>

lemma resolve_append [simp]: "resolve (p @ q) = resolve p @ resolve q"
  by (simp add: resolve_def)

lemma resolve_parent_or_dot: "resolve (parent_or_dot p) = resolve (butlast p) \<or> p = [''/'']"
  by (auto simp: parent_or_dot_def path_parent_def resolve_def)

lemma fs_do_keeps:
  "fs_do st fs = (r, fs') \<Longrightarrow>
     fs_unreadable fs' = fs_unreadable fs \<and> fs_fault fs' = fs_fault fs"
  by (auto simp: fs_do_def split: if_splits option.splits)

lemma fs_do_Inr_iff:
  "fs_do st fs = (Inr (), fs') \<longleftrightarrow> \<not> fs_fault fs st \<and>
     (\<exists>m. step_files st (fs_files fs) = Some m \<and> fs' = fs\<lparr>fs_files := m\<rparr>)"
  by (auto simp: fs_do_def split: if_splits option.splits)

lemma fs_do_Inl: "fs_do st fs = (Inl e, fs') \<Longrightarrow> fs' = fs"
  by (auto simp: fs_do_def split: if_splits option.splits)

text \<open>The paths a step can change.\<close>

fun step_writes :: "fs_step \<Rightarrow> path set" where
  "step_writes (Create p) = {resolve p}"
| "step_writes (Append p s) = {resolve p}"
| "step_writes (Rename p q) = {resolve p, resolve q}"
| "step_writes (Remove p) = {resolve p}"
| "step_writes _ = {}"

lemma step_files_frame:
  "step_files st m = Some m' \<Longrightarrow> q \<notin> step_writes st \<Longrightarrow> m' q = m q"
  by (cases st) (auto split: option.splits)

lemma fs_do_frame:
  "fs_do st fs = (r, fs') \<Longrightarrow> q \<notin> step_writes st \<Longrightarrow> fs_files fs' q = fs_files fs q"
  by (auto simp: fs_do_def split: if_splits option.splits dest: step_files_frame)

lemma fs_run_frame:
  "fs_run sts fs = (r, fs') \<Longrightarrow> q \<notin> (\<Union>st \<in> set sts. step_writes st) \<Longrightarrow> fs_files fs' q = fs_files fs q"
proof (induction sts arbitrary: fs)
  case (Cons st sts)
  obtain r1 fs1 where 1: "fs_do st fs = (r1, fs1)" by (cases "fs_do st fs")
  then have f1: "fs_files fs1 q = fs_files fs q"
    using Cons.prems(2) by (auto intro: fs_do_frame)
  show ?case
  proof (cases r1)
    case (Inl e)
    then show ?thesis using Cons.prems(1) 1 f1 by (simp add: sbind_stop)
  next
    case (Inr x)
    then have "fs_run sts fs1 = (r, fs')" using Cons.prems(1) 1 by (simp add: sbind_step)
    then show ?thesis using Cons.IH Cons.prems(2) f1 by simp
  qed
qed (simp add: act_simps)

lemma fs_run_append: "fs_run (xs @ ys) = sbind (fs_run xs) (\<lambda>_. fs_run ys)"
proof (induction xs)
  case Nil
  show ?case by (rule ext) (simp add: sbind_def act_simps)
next
  case (Cons x xs)
  show ?case by (rule ext) (auto simp: Cons sbind_def split: prod.splits sum.splits)
qed

lemma fs_run_appends:
  "fs_run (map (\<lambda>c. Append p [c]) ys) fs = (Inr (), fs') \<Longrightarrow>
   fs_files fs (resolve p) = Some t \<Longrightarrow>
   fs' = fs\<lparr>fs_files := (fs_files fs)(resolve p := Some (t @ ys))\<rparr>"
proof (induction ys arbitrary: fs t)
  case Nil
  then show ?case by (simp add: act_simps fun_upd_idem)
next
  case (Cons c ys)
  let ?fs1 = "fs\<lparr>fs_files := (fs_files fs)(resolve p := Some (t @ [c]))\<rparr>"
  from Cons.prems have "fs_do (Append p [c]) fs = (Inr (), ?fs1)"
    by (auto simp: act_simps fs_do_Inr_iff)
  then have "fs_run (map (\<lambda>c. Append p [c]) ys) ?fs1 = (Inr (), fs')"
    using Cons.prems(1) by (simp add: sbind_step)
  from Cons.IH [OF this, of "t @ [c]"] show ?case
    by (simp add: fun_upd_same del: fun_upd_apply)
qed

subsection \<open>Replacing is atomic\<close>

text \<open>A path that names a file: its last component is a normal one.\<close>

definition names_file :: "path \<Rightarrow> bool" where
  "names_file p \<longleftrightarrow> p \<noteq> [] \<and> last p \<notin> {''/'', ''..'', ''.''}"

lemma tmp_path_neq:
  assumes "names_file path"
  shows "resolve (tmp_path pid path) \<noteq> resolve path"
proof -
  obtain d n where p: "path = d @ [n]" "n \<notin> {''/'', ''..'', ''.''}"
    using assms by (auto simp: names_file_def dest!: append_butlast_last_id [symmetric])
  let ?t = "''.'' @ n @ ''.tmp.'' @ show_nat pid"
  have "last (resolve (tmp_path pid path)) = ?t"
    using p by (simp add: tmp_path_def path_file_name_def resolve_def)
  moreover have "last (resolve path) = n" using p by (simp add: resolve_def)
  moreover have "length n < length ?t" by simp
  ultimately show ?thesis by auto
qed

lemma replace_steps_butlast:
  "replace_steps tmp path had ys =
     (Create tmp # (if had then [SetMeta tmp] else []) @ map (\<lambda>c. Append tmp [c]) ys @ [Sync tmp])
       @ [Rename tmp path]"
  by (simp add: replace_steps_def)

lemma replace_prepare_writes:
  "st \<in> set (Create tmp # (if had then [SetMeta tmp] else []) @ map (\<lambda>c. Append tmp [c]) ys @ [Sync tmp])
     \<Longrightarrow> step_writes st \<subseteq> {resolve tmp}"
  by (auto split: if_splits)

lemma take_snoc: "k < length (xs @ [x]) \<Longrightarrow> take k (xs @ [x]) = take k xs"
  by simp

text \<open>Whatever happens before the rename, the other files are as they were.\<close>

lemma replace_prefix_frame:
  assumes "fs_run (take k (replace_steps tmp path had ys)) fs = (r, fs')"
    and "k < length (replace_steps tmp path had ys)" and "q \<noteq> resolve tmp"
  shows "fs_files fs' q = fs_files fs q"
proof -
  let ?pre = "Create tmp # (if had then [SetMeta tmp] else []) @ map (\<lambda>c. Append tmp [c]) ys @ [Sync tmp]"
  have "take k (replace_steps tmp path had ys) = take k ?pre"
    using assms(2) unfolding replace_steps_butlast by (rule take_snoc)
  then have "fs_run (take k ?pre) fs = (r, fs')" using assms(1) by simp
  moreover have "q \<notin> (\<Union>st \<in> set (take k ?pre). step_writes st)"
    using assms(3) by (auto dest!: in_set_takeD replace_prepare_writes [THEN subsetD, rotated])
  ultimately show ?thesis by (rule fs_run_frame)
qed

lemma fs_run_Sync: "fs_run [Sync p, st] = sbind (fs_do (Sync p)) (\<lambda>_. fs_do st)"
  by (rule ext) (auto simp: sbind_def act_simps split: prod.splits sum.splits)

lemma replace_success:
  assumes run: "fs_run (replace_steps tmp path had ys) fs = (Inr (), fs')"
  shows "fs_files fs' = (fs_files fs)(resolve tmp := None, resolve path := Some ys)"
proof -
  let ?fs1 = "fs\<lparr>fs_files := (fs_files fs)(resolve tmp := Some [])\<rparr>"
  from run have "fs_run ((if had then [SetMeta tmp] else []) @ map (\<lambda>c. Append tmp [c]) ys
      @ [Sync tmp, Rename tmp path]) ?fs1 = (Inr (), fs')"
    by (auto simp: replace_steps_def act_simps fs_do_Inr_iff)
  then have "fs_run (map (\<lambda>c. Append tmp [c]) ys @ [Sync tmp, Rename tmp path]) ?fs1 = (Inr (), fs')"
    by (cases had) (auto simp: act_simps fs_do_Inr_iff)
  then obtain fs2 where 2: "fs_run (map (\<lambda>c. Append tmp [c]) ys) ?fs1 = (Inr (), fs2)"
    and 3: "fs_run [Sync tmp, Rename tmp path] fs2 = (Inr (), fs')"
    by (auto simp: fs_run_append sbind_ret simp del: fs_run.simps)
  have "fs2 = ?fs1\<lparr>fs_files := (fs_files ?fs1)(resolve tmp := Some ([] @ ys))\<rparr>"
    by (rule fs_run_appends [OF 2]) simp
  with 3 show ?thesis
    by (auto simp: act_simps fs_do_Inr_iff simp del: fun_upd_apply) (simp add: fun_eq_iff)
qed

lemma replace_failure_frame:
  assumes run: "fs_run (replace_steps tmp path had ys) fs = (Inl e, fs')" and q: "q \<noteq> resolve tmp"
  shows "fs_files fs' q = fs_files fs q"
proof -
  let ?pre = "Create tmp # (if had then [SetMeta tmp] else []) @ map (\<lambda>c. Append tmp [c]) ys @ [Sync tmp]"
  from run consider "fs_run ?pre fs = (Inl e, fs')"
    | u where "fs_run ?pre fs = (Inr (), u)" "fs_run [Rename tmp path] u = (Inl e, fs')"
    unfolding replace_steps_butlast fs_run_append sbind_fail by (auto simp del: fs_run.simps)
  moreover have fr: "fs_files u q = fs_files fs q" if "fs_run ?pre fs = (r, u)" for r u
    using that q by (rule_tac fs_run_frame [OF that])
      (auto dest!: replace_prepare_writes [THEN subsetD, rotated])
  ultimately show ?thesis
  proof cases
    case (2 u)
    then have "fs' = u" by (auto simp: sbind_fail act_simps dest: fs_do_Inl)
    with fr [OF 2(1)] show ?thesis by simp
  qed (rule fr)
qed

text \<open>
  The outcome of a replacement. On success the file holds the new text, the temporary file is
  gone and nothing else changed. On failure no file but the temporary one changed, and that one
  is gone too unless it could not be removed.
\<close>

lemma replace_file_Inr:
  assumes "replace_file pid path ys fs = (Inr (), fs')"
  shows "fs_files fs' = (fs_files fs)(resolve (tmp_path pid path) := None, resolve path := Some ys)"
  using assms
  by (auto simp: replace_file_def Let_def fs_do_Inr_iff split: prod.splits sum.splits
      dest!: replace_success)

lemma replace_file_Inl:
  assumes "replace_file pid path ys fs = (Inl e, fs')" and "q \<noteq> resolve (tmp_path pid path)"
  shows "fs_files fs' q = fs_files fs q"
proof -
  have drp: "fs_files (fs_try (Remove (tmp_path pid path)) g) q = fs_files g q" for g
    using assms(2) unfolding fs_try_def
    by (metis fs_do_frame prod.collapse singletonD step_writes.simps(4))
  show ?thesis
    using assms(1)
    by (auto simp: replace_file_def Let_def fs_do_Inr_iff drp split: prod.splits sum.splits
        dest!: fs_do_Inl replace_failure_frame [OF _ assms(2)])
qed

lemma replace_file_keeps:
  "replace_file pid path ys fs = (r, fs') \<Longrightarrow> fs_unreadable fs' = fs_unreadable fs \<and> fs_fault fs' = fs_fault fs"
proof -
  have run: "fs_run sts fs = (r, fs') \<Longrightarrow>
      fs_unreadable fs' = fs_unreadable fs \<and> fs_fault fs' = fs_fault fs" for sts fs r fs'
  proof (induction sts arbitrary: fs)
    case (Cons st sts)
    then show ?case
      by (auto simp: sbind_def split: prod.splits sum.splits dest!: fs_do_keeps)
  qed (simp add: act_simps)
  have drp: "fs_unreadable (fs_try st g) = fs_unreadable g \<and> fs_fault (fs_try st g) = fs_fault g" for st g
    unfolding fs_try_def by (metis fs_do_keeps prod.collapse)
  assume "replace_file pid path ys fs = (r, fs')"
  then show ?thesis
    by (auto simp: replace_file_def Let_def drp split: prod.splits sum.splits dest!: run fs_do_keeps)
qed

lemma fs_write_success:
  assumes "fs_run (fs_write_steps p ys) fs = (Inr (), fs')"
  shows "fs_files fs' = (fs_files fs)(resolve p := Some ys) \<and> fs_unreadable fs' = fs_unreadable fs"
proof -
  let ?g = "fs\<lparr>fs_files := (fs_files fs)(resolve p := Some [])\<rparr>"
  have "fs_run (map (\<lambda>c. Append p [c]) ys) ?g = (Inr (), fs')"
    using assms by (auto simp: fs_write_steps_def act_simps fs_do_Inr_iff)
  from fs_run_appends [OF this, of "[]"] show ?thesis by simp
qed

subsection \<open>Nothing fails on a healthy file system\<close>

lemma fs_run_appends_total:
  "fs_fault fs = (\<lambda>_. False) \<Longrightarrow> fs_files fs (resolve p) = Some t \<Longrightarrow>
   fs_run (map (\<lambda>c. Append p [c]) ys) fs = (Inr (), fs\<lparr>fs_files := (fs_files fs)(resolve p := Some (t @ ys))\<rparr>)"
proof (induction ys arbitrary: fs t)
  case Nil
  then show ?case by (simp add: act_simps fun_upd_idem)
next
  case (Cons c ys)
  let ?fs1 = "fs\<lparr>fs_files := (fs_files fs)(resolve p := Some (t @ [c]))\<rparr>"
  have "fs_do (Append p [c]) fs = (Inr (), ?fs1)" using Cons.prems by (simp add: fs_do_def)
  moreover have "fs_run (map (\<lambda>c. Append p [c]) ys) ?fs1 =
      (Inr (), ?fs1\<lparr>fs_files := (fs_files ?fs1)(resolve p := Some ((t @ [c]) @ ys))\<rparr>)"
    by (rule Cons.IH) (simp_all add: Cons.prems)
  ultimately show ?case by (simp add: sbind_step del: fun_upd_apply)
qed

lemma replace_file_total:
  assumes "fs_fault fs = (\<lambda>_. False)"
  shows "\<exists>fs'. replace_file pid path ys fs = (Inr (), fs')"
proof -
  let ?tmp = "tmp_path pid path" and ?had = "fs_exists path fs"
  let ?fs1 = "fs\<lparr>fs_files := (fs_files fs)(resolve ?tmp := Some [])\<rparr>"
  let ?fs2 = "?fs1\<lparr>fs_files := (fs_files ?fs1)(resolve ?tmp := Some ([] @ ys))\<rparr>"
  have 1: "fs_run (Create ?tmp # (if ?had then [SetMeta ?tmp] else [])) fs = (Inr (), ?fs1)"
    using assms by (simp add: sbind_def fs_do_def act_defs)
  have 2: "fs_run (map (\<lambda>c. Append ?tmp [c]) ys) ?fs1 = (Inr (), ?fs2)"
    using assms by (intro fs_run_appends_total) simp_all
  obtain fs3 where 3: "fs_run [Sync ?tmp, Rename ?tmp path] ?fs2 = (Inr (), fs3)"
    using assms by (simp add: sbind_def fs_do_def act_defs)
  have "replace_steps ?tmp path ?had ys = (Create ?tmp # (if ?had then [SetMeta ?tmp] else [])) @
      map (\<lambda>c. Append ?tmp [c]) ys @ [Sync ?tmp, Rename ?tmp path]"
    by (simp add: replace_steps_def)
  then have "fs_run (replace_steps ?tmp path ?had ys) fs = (Inr (), fs3)"
    using 1 2 3 by (simp only: fs_run_append sbind_step)
  moreover have "fs_do (Mkdir (parent_or_dot path)) fs = (Inr (), fs)" using assms by (simp add: fs_do_def)
  ultimately show ?thesis by (simp add: replace_file_def Let_def)
qed

end
