(* ===== verification/Policy.thy ===== *)
theory Policy
  imports Ports File_System
begin

text \<open>
  \<open>rust/loader/src/policy.rs\<close>, and the two types of \<open>desired.rs\<close> and the constants of \<open>pin.rs\<close>
  it works on: the binding of a port, the desired state, the policy with its parser, the check
  of one binding and the check of a whole state. Identities, quotas and the three port lists are
  those of the source; a \<open>BTreeSet<u16>\<close> is a set.
\<close>

definition redir_primary :: slot where "redir_primary = 0"
definition redir_tls :: slot where "redir_tls = 1"

record port_binding =
  b_slot :: slot
  b_tenant :: string
  b_site :: string
  b_cert :: "string option"
  b_policy :: "string option"

type_synonym desired_ports = "(port, port_binding) omap"

record policy =
  p_deny :: "port set"
  p_reserve :: "port set"
  p_allow_privileged :: "port set"
  p_max_ports_per_tenant :: nat
  p_max_ports_per_machine :: nat

definition default_deny :: "port list" where
  "default_deny = [22, 25, 53, 3306, 6379]"

definition default_policy :: policy where
  "default_policy =
     \<lparr>p_deny = set default_deny, p_reserve = {}, p_allow_privileged = {},
      p_max_ports_per_tenant = 32, p_max_ports_per_machine = 128\<rparr>"

text \<open>The policy file defaults to \<open>policy.conf\<close> beside the desired file.\<close>

definition default_path :: "path \<Rightarrow> path" where
  "default_path ports_file = parent_or_dot ports_file @ [''policy.conf'']"

subsection \<open>Parsing a policy file\<close>

definition extend_ports ::
    "nat \<Rightarrow> string \<Rightarrow> string \<Rightarrow> port set \<Rightarrow> (port set \<Rightarrow> policy) \<Rightarrow> err + policy" where
  "extend_ports line_no key value old upd =
     rbind (with_context (InPolicyKey line_no key) (parse_port_list_flexible (trim value)))
       (\<lambda>ps. Inr (upd (old \<union> set ps)))"

definition parse_usize :: "nat \<Rightarrow> string \<Rightarrow> string \<Rightarrow> err + nat" where
  "parse_usize line_no key value =
     (case parse_uint u64_max (trim value) of
        None \<Rightarrow> Inl (PolicyE (PolicyValue line_no key)) | Some n \<Rightarrow> Inr n)"

text \<open>
  One line: the text before the first hash sign, trimmed; a blank line is skipped. The boolean
  is \<open>allow_seen\<close>: the first \<open>allow_privileged\<close> line clears the default list.
\<close>

definition parse_policy_entry ::
    "nat \<Rightarrow> string \<Rightarrow> string \<Rightarrow> policy \<times> bool \<Rightarrow> err + policy \<times> bool" where
  "parse_policy_entry line_no key value st =
     (let (out, allow_seen) = st in
      if key = ''deny'' then
        rbind (extend_ports line_no key value (p_deny out) (\<lambda>s. out\<lparr>p_deny := s\<rparr>))
          (\<lambda>out. Inr (out, allow_seen))
      else if key = ''reserve'' then
        rbind (extend_ports line_no key value (p_reserve out) (\<lambda>s. out\<lparr>p_reserve := s\<rparr>))
          (\<lambda>out. Inr (out, allow_seen))
      else if key = ''allow_privileged'' then
        (let out = (if allow_seen then out else out\<lparr>p_allow_privileged := {}\<rparr>)
         in if trim value = [] then Inr (out, True)
            else rbind (extend_ports line_no key value (p_allow_privileged out)
                          (\<lambda>s. out\<lparr>p_allow_privileged := s\<rparr>))
                   (\<lambda>out. Inr (out, True)))
      else if key = ''max_ports_per_tenant'' then
        rbind (parse_usize line_no key value)
          (\<lambda>n. Inr (out\<lparr>p_max_ports_per_tenant := n\<rparr>, allow_seen))
      else if key = ''max_ports_per_machine'' then
        rbind (parse_usize line_no key value)
          (\<lambda>n. Inr (out\<lparr>p_max_ports_per_machine := n\<rparr>, allow_seen))
      else Inl (PolicyE (PolicyUnknownKey line_no key)))"

fun parse_policy_lines :: "nat \<Rightarrow> string list \<Rightarrow> policy \<times> bool \<Rightarrow> err + policy \<times> bool" where
  "parse_policy_lines i [] st = Inr st"
| "parse_policy_lines i (original # rest) st =
     (let line = trim (hd (split_on CHR ''#'' original))
      in if line = [] then parse_policy_lines (Suc i) rest st
         else (case split_once CHR ''='' line of
             None \<Rightarrow> Inl (PolicyE (PolicyNoEquals (Suc i)))
           | Some (key, value) \<Rightarrow>
               rbind (parse_policy_entry (Suc i) (trim key) value st)
                 (parse_policy_lines (Suc i) rest)))"

definition parse_policy :: "string \<Rightarrow> err + policy" where
  "parse_policy raw =
     rbind (parse_policy_lines 0 (lines raw) (default_policy, False)) (\<lambda>st. Inr (fst st))"

subsection \<open>Validation\<close>

definition valid_identity :: "string \<Rightarrow> string \<Rightarrow> err + unit" where
  "valid_identity name value =
     (if value = [] \<or> list_ex is_whitespace value then Inl (PolicyE (BadIdentity name)) else Inr ())"

definition valid_opt_identity :: "string \<Rightarrow> string option \<Rightarrow> err + unit" where
  "valid_opt_identity name v = (case v of None \<Rightarrow> Inr () | Some s \<Rightarrow> valid_identity name s)"

definition validate_binding :: "port \<Rightarrow> port_binding \<Rightarrow> policy \<Rightarrow> err + unit" where
  "validate_binding port b pol =
     rbind (valid_identity ''tenant'' (b_tenant b)) (\<lambda>_.
     rbind (valid_identity ''site'' (b_site b)) (\<lambda>_.
     rbind (valid_opt_identity ''cert'' (b_cert b)) (\<lambda>_.
     rbind (valid_opt_identity ''policy'' (b_policy b)) (\<lambda>_.
       if port \<in> p_deny pol then Inl (PolicyE (DeniedPort port))
       else if port \<in> p_reserve pol then Inl (PolicyE (ReservedPort port))
       else if port \<le> 1023 \<and> port \<notin> p_allow_privileged pol then Inl (PolicyE (PrivilegedPort port))
       else Inr ()))))"

text \<open>The tenant counters of the loop are a hash map that reads 0 for an absent key.\<close>

definition count_tenant :: "policy \<Rightarrow> port \<times> port_binding \<Rightarrow> (string \<Rightarrow> nat) \<Rightarrow> err + (string \<Rightarrow> nat)" where
  "count_tenant pol entry tenants =
     (let (port, b) = entry in
      rbind (validate_binding port b pol) (\<lambda>_.
        let n = Suc (tenants (b_tenant b))
        in if n > p_max_ports_per_tenant pol
           then Inl (PolicyE (TenantQuota (b_tenant b) n (p_max_ports_per_tenant pol)))
           else Inr (tenants(b_tenant b := n))))"

definition validate :: "desired_ports \<Rightarrow> policy \<Rightarrow> err + unit" where
  "validate d pol =
     (if length d > open_ports_max_entries then Inl (PolicyE (CapacityExceeded (length d)))
      else if length d > p_max_ports_per_machine pol
      then Inl (PolicyE (MachineQuota (length d) (p_max_ports_per_machine pol)))
      else rbind (rfold (count_tenant pol) d (\<lambda>_. 0)) (\<lambda>_. Inr ()))"

subsection \<open>What a valid binding and a valid state are\<close>

definition identity_ok :: "string \<Rightarrow> bool" where
  "identity_ok s \<longleftrightarrow> s \<noteq> [] \<and> (\<forall>c \<in> set s. \<not> is_whitespace c)"

definition port_allowed :: "policy \<Rightarrow> port \<Rightarrow> bool" where
  "port_allowed pol p \<longleftrightarrow>
     p \<notin> p_deny pol \<and> p \<notin> p_reserve pol \<and> (p \<le> 1023 \<longrightarrow> p \<in> p_allow_privileged pol)"

definition binding_ok :: "port_binding \<Rightarrow> bool" where
  "binding_ok b \<longleftrightarrow> identity_ok (b_tenant b) \<and> identity_ok (b_site b) \<and>
     (\<forall>s \<in> set_option (b_cert b). identity_ok s) \<and> (\<forall>s \<in> set_option (b_policy b). identity_ok s)"

definition tenant_ports :: "desired_ports \<Rightarrow> string \<Rightarrow> (port \<times> port_binding) list" where
  "tenant_ports d t = filter (\<lambda>(p, b). b_tenant b = t) d"

definition admissible :: "policy \<Rightarrow> desired_ports \<Rightarrow> bool" where
  "admissible pol d \<longleftrightarrow>
     length d \<le> open_ports_max_entries \<and> length d \<le> p_max_ports_per_machine pol \<and>
     (\<forall>(p, b) \<in> set d. binding_ok b \<and> port_allowed pol p) \<and>
     (\<forall>t. length (tenant_ports d t) \<le> p_max_ports_per_tenant pol)"

lemma valid_identity_iff: "valid_identity n v = Inr () \<longleftrightarrow> identity_ok v"
  by (auto simp: valid_identity_def identity_ok_def list_ex_iff)

lemma valid_opt_identity_iff: "valid_opt_identity n v = Inr () \<longleftrightarrow> (\<forall>s \<in> set_option v. identity_ok s)"
  by (auto simp: valid_opt_identity_def valid_identity_iff split: option.splits)

lemma validate_binding_iff: "validate_binding p b pol = Inr () \<longleftrightarrow> binding_ok b \<and> port_allowed pol p"
  by (auto simp: validate_binding_def binding_ok_def port_allowed_def valid_identity_iff
      valid_opt_identity_iff)

text \<open>The loop of \<open>validate\<close>, started with any counters that are within the quota.\<close>

lemma rfold_count_tenant:
  "(\<forall>t. c t \<le> p_max_ports_per_tenant pol) \<Longrightarrow>
   (\<exists>c'. rfold (count_tenant pol) d c = Inr c') \<longleftrightarrow>
     (\<forall>(p, b) \<in> set d. binding_ok b \<and> port_allowed pol p) \<and>
     (\<forall>t. c t + length (tenant_ports d t) \<le> p_max_ports_per_tenant pol)"
proof (induction d arbitrary: c)
  case Nil
  then show ?case by (simp add: tenant_ports_def)
next
  case (Cons e d)
  obtain p b where e: "e = (p, b)" by force
  let ?t = "b_tenant b" and ?m = "p_max_ports_per_tenant pol"
  define c2 where "c2 = c(?t := Suc (c ?t))"
  have len: "c t + length (tenant_ports (e # d) t) = c2 t + length (tenant_ports d t)" for t
    by (simp add: e tenant_ports_def c2_def)
  show ?case
  proof (cases "binding_ok b \<and> port_allowed pol p \<and> Suc (c ?t) \<le> ?m")
    case True
    then have "count_tenant pol e c = Inr c2"
      using validate_binding_iff [of p b pol] by (simp add: e count_tenant_def c2_def)
    then have "rfold (count_tenant pol) (e # d) c = rfold (count_tenant pol) d c2" by simp
    moreover have "\<forall>t. c2 t \<le> ?m" using Cons.prems True by (simp add: c2_def)
    note Cons.IH [OF this]
    moreover have "(\<forall>(p, b) \<in> set (e # d). binding_ok b \<and> port_allowed pol p) \<longleftrightarrow>
        (\<forall>(p, b) \<in> set d. binding_ok b \<and> port_allowed pol p)"
      using True by (simp add: e)
    ultimately show ?thesis unfolding len by (simp only:)
  next
    case False
    have "\<nexists>c'. count_tenant pol e c = Inr c'"
    proof
      assume "\<exists>c'. count_tenant pol e c = Inr c'"
      then show False using False validate_binding_iff [of p b pol]
        by (auto simp: e count_tenant_def Let_def split: if_splits)
    qed
    moreover have "\<not> (\<forall>t. c t + length (tenant_ports (e # d) t) \<le> ?m)"
      if "\<not> Suc (c ?t) \<le> ?m"
      using that unfolding len by (metis add_leD1 fun_upd_same c2_def)
    ultimately show ?thesis using False by (auto simp: e)
  qed
qed

lemma validate_iff: "validate d pol = Inr () \<longleftrightarrow> admissible pol d"
  using rfold_count_tenant [of "\<lambda>_. 0" pol d]
  by (auto simp: validate_def admissible_def not_less)

lemma validate_cases: "validate d pol = Inr () \<or> (\<exists>e. validate d pol = Inl e)"
  by (cases "validate d pol") auto

subsection \<open>What a policy file can say\<close>

text \<open>
  A policy that came from a file, or the default one: the built-in deny list is still denied and
  port 0 is not on the privileged allowlist, since the list parser refuses it.
\<close>

definition policy_wf :: "policy \<Rightarrow> bool" where
  "policy_wf pol \<longleftrightarrow> set default_deny \<subseteq> p_deny pol \<and> 0 \<notin> p_allow_privileged pol"

lemma policy_wf_default: "policy_wf default_policy"
  by (simp add: policy_wf_def default_policy_def)

lemma parse_policy_entry_wf:
  "parse_policy_entry n key v st = Inr st' \<Longrightarrow> policy_wf (fst st) \<Longrightarrow> policy_wf (fst st')"
  by (cases st)
    (auto simp: parse_policy_entry_def Let_def extend_ports_def parse_usize_def policy_wf_def
      split: if_splits option.splits dest!: parse_port_list_flexible_nonzero)

lemma parse_policy_lines_wf:
  "parse_policy_lines i ls st = Inr st' \<Longrightarrow> policy_wf (fst st) \<Longrightarrow> policy_wf (fst st')"
proof (induction ls arbitrary: i st)
  case (Cons original rest)
  from Cons.prems(1) consider "parse_policy_lines (Suc i) rest st = Inr st'"
    | n k v st2 where "parse_policy_entry n k v st = Inr st2"
        "parse_policy_lines (Suc i) rest st2 = Inr st'"
    by (simp add: Let_def split: if_splits option.splits prod.splits del: split_paired_Ex) blast
  then show ?case using Cons.prems(2) by cases (blast intro: Cons.IH parse_policy_entry_wf)+
qed simp

lemma parse_policy_wf: "parse_policy raw = Inr pol \<Longrightarrow> policy_wf pol"
  using policy_wf_default
  by (auto simp: parse_policy_def dest!: parse_policy_lines_wf)

text \<open>\<open>policy::load\<close>: a missing file is the default policy.\<close>

definition policy_load :: "path \<Rightarrow> fsys \<Rightarrow> err + policy" where
  "policy_load path fs =
     (if \<not> fs_exists path fs then Inr default_policy
      else rbind (fs_read path fs) (\<lambda>raw. with_context (InFile path) (parse_policy raw)))"

lemma policy_load_wf: "policy_load path fs = Inr pol \<Longrightarrow> policy_wf pol"
  by (auto simp: policy_load_def policy_wf_default split: if_splits dest: parse_policy_wf)

lemma port_allowed_nonzero: "policy_wf pol \<Longrightarrow> port_allowed pol p \<Longrightarrow> p \<noteq> 0"
  by (auto simp: policy_wf_def port_allowed_def)

lemma port_allowed_not_default_denied:
  "policy_wf pol \<Longrightarrow> port_allowed pol p \<Longrightarrow> p \<notin> set default_deny"
  by (auto simp: policy_wf_def port_allowed_def)

end
