(* ===== verification/Desired.thy ===== *)
theory Desired
  imports Policy
begin

text \<open>
  \<open>rust/loader/src/desired.rs\<close>: reading \<open>ports.conf\<close> under a policy, writing it back, the state
  seeded from command-line lists, and the reconcile plan between a desired state and the live
  port map. Reading and writing a kernel map is in \<open>Bulk\<close>.
\<close>

subsection \<open>Reading the desired file\<close>

fun parse_binding_tokens ::
    "nat \<Rightarrow> string list \<Rightarrow> slot \<times> string option \<times> string option
      \<Rightarrow> err + slot \<times> string option \<times> string option" where
  "parse_binding_tokens n [] st = Inr st"
| "parse_binding_tokens n (t # ts) (slot, cert, policy_id) =
     (if t = ''tls'' \<and> slot = redir_primary
      then parse_binding_tokens n ts (redir_tls, cert, policy_id)
      else if starts_with ''cert='' t \<and> cert = None
      then parse_binding_tokens n ts (slot, Some (drop 5 t), policy_id)
      else if starts_with ''policy='' t \<and> policy_id = None
      then parse_binding_tokens n ts (slot, cert, Some (drop 7 t))
      else Inl (DesiredE (UnexpectedToken n t)))"

text \<open>One expanded port of a line: validate the binding, insert it, refuse a different old one.\<close>

definition insert_bound_port ::
    "nat \<Rightarrow> policy \<Rightarrow> port_binding \<Rightarrow> port \<Rightarrow> desired_ports \<Rightarrow> err + desired_ports" where
  "insert_bound_port n pol b port d =
     rbind (with_context (AtLine n) (validate_binding port b pol)) (\<lambda>_.
       case om_get d port of
         Some old \<Rightarrow> if old \<noteq> b then Inl (DesiredE (ConflictingBinding n port)) else Inr (om_insert port b d)
       | None \<Rightarrow> Inr (om_insert port b d))"

definition load_desired_line ::
    "nat \<Rightarrow> policy \<Rightarrow> string \<Rightarrow> desired_ports \<Rightarrow> err + desired_ports" where
  "load_desired_line n pol raw d =
     (let line = trim (takeWhile (\<lambda>c. c \<noteq> CHR ''#'') raw)
      in if line = [] then Inr d
         else (case split_whitespace line of
             spec # tenant # site # opts \<Rightarrow>
               rbind (parse_binding_tokens n opts (redir_primary, None, None)) (\<lambda>(slot, cert, policy_id).
               let b = \<lparr>b_slot = slot, b_tenant = tenant, b_site = site, b_cert = cert,
                        b_policy = policy_id\<rparr>
               in rbind (with_context (AtLine n) (parse_port_list_flexible spec)) (\<lambda>ports.
                  rfold (insert_bound_port n pol b) ports d))
           | _ \<Rightarrow> Inl (DesiredE (PortOnlyLine n))))"

fun load_desired_lines ::
    "nat \<Rightarrow> policy \<Rightarrow> string list \<Rightarrow> desired_ports \<Rightarrow> err + desired_ports" where
  "load_desired_lines i pol [] d = Inr d"
| "load_desired_lines i pol (line # rest) d =
     rbind (load_desired_line (Suc i) pol line d) (load_desired_lines (Suc i) pol rest)"

definition load_from_reader_with_policy :: "string \<Rightarrow> policy \<Rightarrow> err + desired_ports" where
  "load_from_reader_with_policy body pol =
     rbind (load_desired_lines 0 pol (lines body) om_empty) (\<lambda>d.
       if length d > open_ports_max_entries then Inl (DesiredE (DesiredTooMany (length d)))
       else rbind (validate d pol) (\<lambda>_. Inr d))"

definition load_with_policy :: "path \<Rightarrow> path \<Rightarrow> fsys \<Rightarrow> err + desired_ports" where
  "load_with_policy path policy_path fs =
     rbind (fs_read path fs) (\<lambda>body.
     rbind (policy_load policy_path fs) (\<lambda>pol.
       with_context (InFile path) (load_from_reader_with_policy body pol)))"

definition load_from_reader :: "string \<Rightarrow> err + desired_ports" where
  "load_from_reader body = load_from_reader_with_policy body default_policy"

definition desired_load :: "path \<Rightarrow> fsys \<Rightarrow> err + desired_ports" where
  "desired_load path fs = load_with_policy path (default_path path) fs"

subsection \<open>Writing the desired file\<close>

definition opt_token :: "string \<Rightarrow> string option \<Rightarrow> string" where
  "opt_token key v = (case v of None \<Rightarrow> [] | Some s \<Rightarrow> '' '' @ key @ s)"

definition render_binding :: "port \<times> port_binding \<Rightarrow> string" where
  "render_binding e =
     (let (port, b) = e in
      show_port port @ '' '' @ b_tenant b @ '' '' @ b_site b
        @ (if b_slot b = redir_tls then '' tls'' else [])
        @ opt_token ''cert='' (b_cert b) @ opt_token ''policy='' (b_policy b))"

definition desired_header :: "string list" where
  "desired_header = [''# desired open_ports'', ''# PORT TENANT SITE [tls] [cert=ID] [policy=ID]'']"

definition desired_text :: "desired_ports \<Rightarrow> string" where
  "desired_text d = concat (map (\<lambda>l. l @ [CHR 0x0A]) (desired_header @ map render_binding d))"

definition desired_write :: "nat \<Rightarrow> path \<Rightarrow> desired_ports \<Rightarrow> (fsys, unit) act" where
  "desired_write pid path d = replace_file pid path (desired_text d)"

subsection \<open>Seeding from the command line\<close>

definition seed_binding :: "string \<Rightarrow> string \<Rightarrow> slot \<Rightarrow> port_binding" where
  "seed_binding tenant site slot =
     \<lparr>b_slot = slot, b_tenant = tenant, b_site = site, b_cert = None, b_policy = None\<rparr>"

definition insert_fresh :: "port_binding \<Rightarrow> port \<Rightarrow> desired_ports \<Rightarrow> err + desired_ports" where
  "insert_fresh b p d =
     (case om_get d p of Some _ \<Rightarrow> Inl (DesiredE (AssignedTwice p)) | None \<Rightarrow> Inr (om_insert p b d))"

definition from_lists :: "port list \<Rightarrow> port list \<Rightarrow> string \<Rightarrow> string \<Rightarrow> err + desired_ports" where
  "from_lists primary tls tenant site =
     rbind (rfold (insert_fresh (seed_binding tenant site redir_primary)) primary om_empty)
       (rfold (insert_fresh (seed_binding tenant site redir_tls)) tls)"

subsection \<open>The reconcile plan\<close>

record reconcile_plan =
  put_primary :: "port list"
  put_tls :: "port list"
  plan_delete :: "port list"

definition needs_put :: "(port, slot) omap \<Rightarrow> port \<times> port_binding \<Rightarrow> bool" where
  "needs_put current e \<longleftrightarrow> om_get current (fst e) \<noteq> Some (b_slot (snd e))"

definition plan :: "desired_ports \<Rightarrow> (port, slot) omap \<Rightarrow> reconcile_plan" where
  "plan d current =
     \<lparr>put_primary = map fst (filter (\<lambda>e. needs_put current e \<and> b_slot (snd e) \<noteq> redir_tls) d),
      put_tls = map fst (filter (\<lambda>e. needs_put current e \<and> b_slot (snd e) = redir_tls) d),
      plan_delete = sort (filter (\<lambda>p. om_get d p = None) (om_keys current))\<rparr>"

subsection \<open>Round trip\<close>

lemma parse_port_list_flexible_show: "p \<noteq> 0 \<Longrightarrow> parse_port_list_flexible (show_port p) = Inr [p]"
proof -
  assume p: "p \<noteq> 0"
  have dig: "c \<in> set (show_port p) \<Longrightarrow> is_ascii_digit c" for c
    unfolding show_port_def by (rule show_nat_digits)
  have "CHR '','' \<notin> set (show_port p)" "CHR ''-'' \<notin> set (show_port p)"
    using dig is_ascii_digit_not(3,4) by blast+
  moreover have "show_port p \<noteq> []" by (simp add: show_port_def)
  ultimately show ?thesis
    using p by (simp add: parse_port_list_flexible_def split_on_def split_eq_none
        parse_port_token_def trim_no_ws [OF show_port_no_ws] parse_port_number_show)
qed

text \<open>What can be stored: valid identities that the comment sign does not cut, a slot in use.\<close>

definition hash_free :: "port_binding \<Rightarrow> bool" where
  "hash_free b \<longleftrightarrow> CHR ''#'' \<notin> set (b_tenant b) \<and> CHR ''#'' \<notin> set (b_site b) \<and>
     (\<forall>s \<in> set_option (b_cert b). CHR ''#'' \<notin> set s) \<and>
     (\<forall>s \<in> set_option (b_policy b). CHR ''#'' \<notin> set s)"

definition slot_ok :: "port_binding \<Rightarrow> bool" where
  "slot_ok b \<longleftrightarrow> b_slot b = redir_primary \<or> b_slot b = redir_tls"

definition opt_tokens :: "port_binding \<Rightarrow> string list" where
  "opt_tokens b =
     (if b_slot b = redir_tls then [''tls''] else []) @
     (case b_cert b of None \<Rightarrow> [] | Some s \<Rightarrow> [''cert='' @ s]) @
     (case b_policy b of None \<Rightarrow> [] | Some s \<Rightarrow> [''policy='' @ s])"

lemma render_binding_tokens:
  "render_binding (p, b) = show_port p @ tokens_line (b_tenant b # b_site b # opt_tokens b)"
  by (simp add: render_binding_def opt_token_def opt_tokens_def tokens_line_def split: option.splits)

lemma parse_opt_tokens:
  "slot_ok b \<Longrightarrow> parse_binding_tokens n (opt_tokens b) (redir_primary, None, None)
     = Inr (b_slot b, b_cert b, b_policy b)"
  by (auto simp: opt_tokens_def slot_ok_def redir_primary_def redir_tls_def starts_with_def
      split: option.splits)

lemma opt_tokens_ok:
  assumes "binding_ok b" "hash_free b" "t \<in> set (opt_tokens b)"
  shows "t \<noteq> [] \<and> (\<forall>c \<in> set t. \<not> is_whitespace c \<and> c \<noteq> CHR ''#'')"
proof -
  have lit: "\<forall>c \<in> set ''tls''. \<not> is_whitespace c" "\<forall>c \<in> set ''cert=''. \<not> is_whitespace c"
    "\<forall>c \<in> set ''policy=''. \<not> is_whitespace c"
    by (simp_all add: is_whitespace_def)
  consider "t = ''tls''" | s where "b_cert b = Some s" "t = ''cert='' @ s"
    | s where "b_policy b = Some s" "t = ''policy='' @ s"
    using assms(3)
    by (cases "b_cert b"; cases "b_policy b") (auto simp: opt_tokens_def split: if_splits)
  then show ?thesis
  proof cases
    case 1
    then show ?thesis using lit(1) by simp
  next
    case 2
    then have "\<forall>c \<in> set s. \<not> is_whitespace c" "CHR ''#'' \<notin> set s"
      using assms(1,2) by (auto simp: binding_ok_def hash_free_def identity_ok_def)
    then show ?thesis using 2 lit(2) by auto
  next
    case 3
    then have "\<forall>c \<in> set s. \<not> is_whitespace c" "CHR ''#'' \<notin> set s"
      using assms(1,2) by (auto simp: binding_ok_def hash_free_def identity_ok_def)
    then show ?thesis using 3 lit(3) by auto
  qed
qed

lemma identity_ok_tokens:
  assumes "binding_ok b" "hash_free b" "t \<in> set (show_port p # b_tenant b # b_site b # opt_tokens b)"
  shows "t \<noteq> [] \<and> (\<forall>c \<in> set t. \<not> is_whitespace c \<and> c \<noteq> CHR ''#'')"
proof -
  have p: "\<forall>c \<in> set (show_port p). \<not> is_whitespace c \<and> c \<noteq> CHR ''#''"
    unfolding show_port_def using show_nat_digits is_ascii_digit_not(1,5) by blast
  have ids: "identity_ok (b_tenant b)" "identity_ok (b_site b)"
    "CHR ''#'' \<notin> set (b_tenant b)" "CHR ''#'' \<notin> set (b_site b)"
    using assms(1,2) by (auto simp: binding_ok_def hash_free_def)
  consider "t = show_port p" | "t = b_tenant b" | "t = b_site b" | "t \<in> set (opt_tokens b)"
    using assms(3) by auto
  then show ?thesis
  proof cases
    case 1
    then show ?thesis using p by (simp add: show_port_def)
  next
    case 4
    then show ?thesis using opt_tokens_ok [OF assms(1,2)] by blast
  qed (use ids in \<open>auto simp: identity_ok_def\<close>)
qed

lemma tokens_line_chars: "c \<in> set (tokens_line ts) \<Longrightarrow> c = CHR '' '' \<or> (\<exists>t \<in> set ts. c \<in> set t)"
  by (auto simp: tokens_line_def split: if_splits)

lemma load_rendered_line:
  assumes ok: "binding_ok b" "hash_free b" "slot_ok b" "port_allowed pol p" "p \<noteq> 0"
    and new: "om_get d p = None"
  shows "load_desired_line n pol (render_binding (p, b)) d = Inr (om_insert p b d)"
proof -
  let ?ts = "b_tenant b # b_site b # opt_tokens b"
  let ?l = "show_port p @ tokens_line ?ts"
  note tok = identity_ok_tokens [OF ok(1,2), where p = p]
  have "\<forall>c \<in> set ?l. c \<noteq> CHR ''#''"
  proof
    fix c assume "c \<in> set ?l"
    then have "c = CHR '' '' \<or> (\<exists>t \<in> set (show_port p # ?ts). c \<in> set t)"
      using tokens_line_chars [of c ?ts] by auto
    then show "c \<noteq> CHR ''#''" using tok by auto
  qed
  then have cut: "takeWhile (\<lambda>c. c \<noteq> CHR ''#'') ?l = ?l" by (rule takeWhile_id)
  have ne: "?l \<noteq> []" by (simp add: show_port_def)
  have toks: "\<forall>t \<in> set (show_port p # ?ts). t \<noteq> [] \<and> (\<forall>c \<in> set t. \<not> is_whitespace c)"
    using tok by blast
  have tr: "trim ?l = ?l"
  proof (rule trim_nop [OF ne])
    show "\<not> is_whitespace (hd ?l)"
      using show_port_no_ws [of p] by (simp add: hd_append show_port_def)
    show "\<not> is_whitespace (last ?l)" using toks by (rule tokens_line_last)
  qed
  have ws: "split_whitespace ?l = show_port p # ?ts" using toks by (rule split_whitespace_tokens)
  have "validate_binding p b pol = Inr ()" using ok(1,4) by (simp add: validate_binding_iff)
  then have ins: "insert_bound_port n pol b p d = Inr (om_insert p b d)"
    using new by (simp add: insert_bound_port_def)
  have eta: "\<lparr>b_slot = b_slot b, b_tenant = b_tenant b, b_site = b_site b, b_cert = b_cert b,
      b_policy = b_policy b\<rparr> = b" by simp
  show ?thesis
    unfolding load_desired_line_def render_binding_tokens cut tr Let_def if_not_P [OF ne] ws
    by (simp add: parse_opt_tokens ok(3) parse_port_list_flexible_show ok(5) eta ins)
qed


definition storable :: "port \<times> port_binding \<Rightarrow> bool" where
  "storable e \<longleftrightarrow> hash_free (snd e) \<and> slot_ok (snd e)"

lemma load_rendered_lines:
  assumes "\<forall>(p, b) \<in> set d2. binding_ok b \<and> port_allowed pol p" "\<forall>e \<in> set d2. storable e"
    and "policy_wf pol" "om_wf (d1 @ d2)"
  shows "load_desired_lines i pol (map render_binding d2) d1 = Inr (d1 @ d2)"
  using assms
proof (induction d2 arbitrary: d1 i)
  case (Cons e d2)
  obtain p b where e: "e = (p, b)" by force
  have less: "\<forall>k \<in> set (map fst d1). k < p"
    using Cons.prems(4) by (simp add: e om_wf_append)
  then have "om_get d1 p = None" by (auto simp: om_get_None_iff)
  moreover have "p \<noteq> 0" "binding_ok b" "port_allowed pol p" "hash_free b" "slot_ok b"
    using Cons.prems(1,2) port_allowed_nonzero [OF Cons.prems(3)] by (auto simp: e storable_def)
  ultimately have "load_desired_line (Suc i) pol (render_binding e) d1 = Inr (d1 @ [e])"
    using load_rendered_line [of b pol p d1 "Suc i"] om_insert_snoc [OF less, of b] by (simp add: e)
  moreover have "load_desired_lines (Suc i) pol (map render_binding d2) (d1 @ [e]) = Inr ((d1 @ [e]) @ d2)"
    using Cons.prems by (intro Cons.IH) simp_all
  ultimately show ?case by simp
qed simp

lemma load_comment_line: "load_desired_line n pol (CHR ''#'' # s) d = Inr d"
  by (simp add: load_desired_line_def trim_def trim_start_def trim_end_matches_def)

lemma rendered_line_ok:
  assumes "binding_ok b" "hash_free b"
  shows "CHR 0x0A \<notin> set (render_binding (p, b)) \<and> last (render_binding (p, b)) \<noteq> CHR 0x0D"
proof -
  let ?ts = "b_tenant b # b_site b # opt_tokens b"
  note tok = identity_ok_tokens [OF assms, where p = p]
  have ws: "is_whitespace CHR 0x0A" "is_whitespace CHR 0x0D" by (simp_all add: is_whitespace_def)
  have "\<forall>t \<in> set (show_port p # ?ts). t \<noteq> [] \<and> (\<forall>c \<in> set t. \<not> is_whitespace c)"
    using tok by blast
  from tokens_line_last [OF this] have "\<not> is_whitespace (last (render_binding (p, b)))"
    unfolding render_binding_tokens .
  moreover have "CHR 0x0A \<notin> set (render_binding (p, b))"
  proof
    assume "CHR 0x0A \<in> set (render_binding (p, b))"
    then have "CHR 0x0A = CHR '' '' \<or> (\<exists>t \<in> set (show_port p # ?ts). CHR 0x0A \<in> set t)"
      using tokens_line_chars [of "CHR 0x0A" ?ts] unfolding render_binding_tokens by auto
    then show False using tok ws by auto
  qed
  ultimately show ?thesis using ws by metis
qed

lemma lines_desired_text:
  assumes "\<forall>(p, b) \<in> set d. binding_ok b" "\<forall>e \<in> set d. storable e"
  shows "lines (desired_text d) = desired_header @ map render_binding d"
  unfolding desired_text_def
proof (rule lines_unlines)
  show "\<forall>l \<in> set (desired_header @ map render_binding d).
      CHR 0x0A \<notin> set l \<and> (l = [] \<or> last l \<noteq> CHR 0x0D)"
    using assms rendered_line_ok by (fastforce simp: desired_header_def storable_def)
qed

lemma load_desired_text:
  assumes "om_wf d" "admissible pol d" "policy_wf pol" "\<forall>e \<in> set d. storable e"
  shows "load_from_reader_with_policy (desired_text d) pol = Inr d"
proof -
  have ok: "\<forall>(p, b) \<in> set d. binding_ok b \<and> port_allowed pol p"
    using assms(2) by (simp add: admissible_def)
  then have "lines (desired_text d) = desired_header @ map render_binding d"
    using assms(4) by (intro lines_desired_text) auto
  moreover have "load_desired_lines (Suc (Suc 0)) pol (map render_binding d) om_empty = Inr d"
    using load_rendered_lines [OF ok assms(4,3), of om_empty "Suc (Suc 0)"] assms(1)
    by (simp add: om_empty_def)
  moreover have "length d \<le> open_ports_max_entries" using assms(2) by (simp add: admissible_def)
  ultimately show ?thesis
    using assms(2) validate_iff [of d pol]
    by (simp add: load_from_reader_with_policy_def desired_header_def load_comment_line)
qed

subsection \<open>What a reader returns\<close>

lemma parse_binding_tokens_keeps:
  assumes "parse_binding_tokens n ts (slot, cert, pol) = Inr (slot', cert', pol')"
    and "\<forall>t \<in> set ts. CHR ''#'' \<notin> set t" "slot = redir_primary \<or> slot = redir_tls"
    and "\<forall>s \<in> set_option cert. CHR ''#'' \<notin> set s" "\<forall>s \<in> set_option pol. CHR ''#'' \<notin> set s"
  shows "(slot' = redir_primary \<or> slot' = redir_tls) \<and>
    (\<forall>s \<in> set_option cert'. CHR ''#'' \<notin> set s) \<and> (\<forall>s \<in> set_option pol'. CHR ''#'' \<notin> set s)"
  using assms
proof (induction n ts "(slot, cert, pol)" arbitrary: slot cert pol rule: parse_binding_tokens.induct)
  case (2 n t ts slot cert pol)
  have "CHR ''#'' \<notin> set (drop k t)" for k using "2.prems"(2) by (auto dest: in_set_dropD)
  then show ?case using "2.prems" "2.hyps" by (auto split: if_splits)
qed simp

lemma insert_bound_port_Inr:
  "insert_bound_port n pol b p d = Inr d' \<Longrightarrow>
     d' = om_insert p b d \<and> binding_ok b \<and> port_allowed pol p"
  using validate_binding_iff [of p b pol]
  by (auto simp: insert_bound_port_def split: option.splits if_splits)

lemma load_desired_line_keeps:
  assumes "load_desired_line n pol raw d = Inr d'" "om_wf d" "\<forall>e \<in> set d. storable e"
  shows "om_wf d' \<and> (\<forall>e \<in> set d'. storable e)"
proof -
  define line where "line = trim (takeWhile (\<lambda>c. c \<noteq> CHR ''#'') raw)"
  have nohash: "t \<in> set (split_whitespace line) \<Longrightarrow> CHR ''#'' \<notin> set t" for t
    using split_whitespace_subset [of t line] trim_subset [of "takeWhile (\<lambda>c. c \<noteq> CHR ''#'') raw"]
    by (auto simp: line_def dest: set_takeWhileD)
  show ?thesis
  proof (cases "line = []")
    case True
    then show ?thesis using assms by (simp add: load_desired_line_def line_def)
  next
    case False
    then obtain spec tenant site opts where ws: "split_whitespace line = spec # tenant # site # opts"
      using assms(1) by (auto simp: load_desired_line_def line_def Let_def split: list.splits)
    then obtain sl c po ports where opts: "parse_binding_tokens n opts (redir_primary, None, None) = Inr (sl, c, po)"
      and run: "rfold (insert_bound_port n pol \<lparr>b_slot = sl, b_tenant = tenant, b_site = site, b_cert = c,
          b_policy = po\<rparr>) ports d = Inr d'" (is "rfold (insert_bound_port n pol ?b) _ _ = _")
      using assms(1) False by (auto simp: load_desired_line_def line_def [symmetric] Let_def)
    have "storable (p, ?b)" for p
      using parse_binding_tokens_keeps [OF opts] nohash ws
      by (auto simp: storable_def hash_free_def slot_ok_def)
    then have step: "insert_bound_port n pol ?b p s = Inr t \<Longrightarrow> om_wf s \<and> (\<forall>e \<in> set s. storable e) \<Longrightarrow>
        om_wf t \<and> (\<forall>e \<in> set t. storable e)" for p s t
      by (auto dest!: insert_bound_port_Inr subsetD [OF set_om_insert])
    show ?thesis
      using rfold_invariant [OF run, where I = "\<lambda>s. om_wf s \<and> (\<forall>e \<in> set s. storable e)"] assms(2,3) step
      by blast
  qed
qed

lemma load_desired_lines_keeps:
  "load_desired_lines i pol ls d = Inr d' \<Longrightarrow> om_wf d \<Longrightarrow> \<forall>e \<in> set d. storable e \<Longrightarrow>
     om_wf d' \<and> (\<forall>e \<in> set d'. storable e)"
proof (induction ls arbitrary: i d)
  case (Cons l ls)
  then obtain d1 where d1: "load_desired_line (Suc i) pol l d = Inr d1"
    "load_desired_lines (Suc i) pol ls d1 = Inr d'" by auto
  then show ?case using load_desired_line_keeps [OF d1(1) Cons.prems(2,3)] Cons.IH by blast
qed simp

text \<open>A desired state as it is loaded, kept and written back.\<close>

definition desired_inv :: "policy \<Rightarrow> desired_ports \<Rightarrow> bool" where
  "desired_inv pol d \<longleftrightarrow> om_wf d \<and> admissible pol d \<and> (\<forall>e \<in> set d. storable e)"

lemma loaded_desired_inv: "load_from_reader_with_policy body pol = Inr d \<Longrightarrow> desired_inv pol d"
  using load_desired_lines_keeps [of 0 pol "lines body" om_empty d] validate_iff [of d pol]
  by (auto simp: load_from_reader_with_policy_def desired_inv_def om_empty_def om_wf_def split: if_splits)

lemma load_with_policy_inv:
  "load_with_policy path pp fs = Inr d \<Longrightarrow>
     \<exists>pol. policy_load pp fs = Inr pol \<and> desired_inv pol d"
  by (auto simp: load_with_policy_def dest: loaded_desired_inv)

lemma desired_round_trip:
  assumes "policy_wf pol" "om_wf d" "admissible pol d" "\<forall>e \<in> set d. slot_ok (snd e)"
  shows "load_from_reader_with_policy (desired_text d) pol = Inr d \<longleftrightarrow> (\<forall>e \<in> set d. hash_free (snd e))"
proof
  assume "load_from_reader_with_policy (desired_text d) pol = Inr d"
  then show "\<forall>e \<in> set d. hash_free (snd e)"
    using loaded_desired_inv by (auto simp: desired_inv_def storable_def)
next
  assume "\<forall>e \<in> set d. hash_free (snd e)"
  with assms show "load_from_reader_with_policy (desired_text d) pol = Inr d"
    by (intro load_desired_text) (auto simp: storable_def)
qed

subsection \<open>The plan\<close>

definition plan_apply :: "reconcile_plan \<Rightarrow> (port, slot) omap \<Rightarrow> (port, slot) omap" where
  "plan_apply pl m =
     om_remove_all (plan_delete pl)
       (om_insert_all (put_tls pl) redir_tls (om_insert_all (put_primary pl) redir_primary m))"

definition slot_map :: "desired_ports \<Rightarrow> port \<Rightarrow> slot option" where
  "slot_map d p = map_option b_slot (om_get d p)"

lemma set_put_primary: "om_wf d \<Longrightarrow> p \<in> set (put_primary (plan d cur)) \<longleftrightarrow>
    (\<exists>b. om_get d p = Some b \<and> b_slot b \<noteq> redir_tls \<and> om_get cur p \<noteq> Some (b_slot b))"
  by (auto simp: plan_def needs_put_def om_get_Some_iff image_iff)

lemma set_put_tls: "om_wf d \<Longrightarrow> p \<in> set (put_tls (plan d cur)) \<longleftrightarrow>
    (\<exists>b. om_get d p = Some b \<and> b_slot b = redir_tls \<and> om_get cur p \<noteq> Some redir_tls)"
  by (fastforce simp: plan_def needs_put_def om_get_Some_iff image_iff)

lemma set_plan_delete: "p \<in> set (plan_delete (plan d cur)) \<longleftrightarrow> om_get cur p \<noteq> None \<and> om_get d p = None"
  using set_om_keys [of cur] by (auto simp: plan_def)

lemma plan_apply_get:
  assumes "om_wf d" "om_wf cur" "\<forall>e \<in> set d. slot_ok (snd e)"
  shows "om_get (plan_apply (plan d cur) cur) = slot_map d"
proof
  fix p
  have slot: "om_get d p = Some b \<Longrightarrow> b_slot b = redir_primary \<or> b_slot b = redir_tls" for b
    using assms(3) by (auto simp: om_get_Some_iff [OF assms(1)] slot_ok_def)
  show "om_get (plan_apply (plan d cur) cur) p = slot_map d p"
    using assms(2) slot
    by (cases "om_get d p")
      (auto simp: plan_apply_def slot_map_def set_plan_delete set_put_tls [OF assms(1)]
        set_put_primary [OF assms(1)])
qed

lemma plan_idempotent:
  assumes "om_wf d" "\<forall>e \<in> set d. slot_ok (snd e)" "om_get cur = slot_map d"
  shows "plan d cur = \<lparr>put_primary = [], put_tls = [], plan_delete = []\<rparr>"
proof -
  have "\<not> needs_put cur e" if "e \<in> set d" for e
    using that om_get_Some_iff [OF assms(1), of "fst e" "snd e"] assms(3)
    by (simp add: needs_put_def slot_map_def)
  moreover have "om_get d p \<noteq> None" if "p \<in> set (om_keys cur)" for p
    using that set_om_keys [of cur] assms(3) by (auto simp: slot_map_def)
  ultimately show ?thesis by (simp add: plan_def)
qed

lemma plan_lists:
  assumes "om_wf d" "om_wf cur"
  shows "sorted_wrt (<) (put_primary (plan d cur))" "sorted_wrt (<) (put_tls (plan d cur))"
    "sorted_wrt (<) (plan_delete (plan d cur))"
proof -
  have f: "sorted_wrt (<) (map fst (filter P d))" for P
    using assms(1) by (auto simp: om_wf_def sorted_wrt_map intro: sorted_wrt_filter)
  show "sorted_wrt (<) (put_primary (plan d cur))" "sorted_wrt (<) (put_tls (plan d cur))"
    using f by (simp_all add: plan_def)
  have "distinct (om_keys cur)" using assms(2) by (rule om.distinct_keys)
  then show "sorted_wrt (<) (plan_delete (plan d cur))"
    by (simp add: plan_def strict_sorted_iff)
qed

text \<open>Every entry of the plan is a change: no put of the live slot, no delete of a port not steered.\<close>

lemma plan_minimal:
  assumes "om_wf d" "om_wf cur" "\<forall>e \<in> set d. slot_ok (snd e)"
  shows "set (put_primary (plan d cur)) \<union> set (put_tls (plan d cur)) \<union> set (plan_delete (plan d cur))
    = {p. om_get cur p \<noteq> slot_map d p}"
proof (rule set_eqI)
  fix p
  have slot: "om_get d p = Some b \<Longrightarrow> b_slot b = redir_primary \<or> b_slot b = redir_tls" for b
    using assms(3) by (auto simp: om_get_Some_iff [OF assms(1)] slot_ok_def)
  show "p \<in> set (put_primary (plan d cur)) \<union> set (put_tls (plan d cur)) \<union> set (plan_delete (plan d cur))
      \<longleftrightarrow> p \<in> {p. om_get cur p \<noteq> slot_map d p}"
    using slot by (cases "om_get d p")
      (auto simp: slot_map_def set_plan_delete set_put_tls [OF assms(1)] set_put_primary [OF assms(1)])
qed

subsection \<open>Seeding from lists\<close>

lemma insert_fresh_Inr: "insert_fresh b p d = Inr d' \<longleftrightarrow> om_get d p = None \<and> d' = om_insert p b d"
  by (auto simp: insert_fresh_def split: option.splits)

lemma rfold_insert_fresh:
  "om_wf d \<Longrightarrow> rfold (insert_fresh b) ps d = Inr d' \<longleftrightarrow>
     distinct ps \<and> (\<forall>p \<in> set ps. om_get d p = None) \<and> d' = om_insert_all ps b d"
proof (induction ps arbitrary: d)
  case (Cons p ps)
  then show ?case by (auto simp: insert_fresh_Inr fun_upd_def split: if_splits)
qed auto

lemma from_lists_Inr:
  "from_lists pr tls te si = Inr d \<longleftrightarrow>
     distinct (pr @ tls) \<and>
     d = om_insert_all tls (seed_binding te si redir_tls)
           (om_insert_all pr (seed_binding te si redir_primary) om_empty)"
  by (auto simp: from_lists_def rfold_insert_fresh om_get_empty)

lemma from_lists_get:
  "from_lists pr tls te si = Inr d \<Longrightarrow>
     om_wf d \<and> om_get d = (\<lambda>p. if p \<in> set tls then Some (seed_binding te si redir_tls)
                else if p \<in> set pr then Some (seed_binding te si redir_primary) else None)"
  by (auto simp: from_lists_Inr om_get_empty fun_eq_iff)

lemma desired_write_total: "fs_fault fs = (\<lambda>_. False) \<Longrightarrow> \<exists>fs'. desired_write pid path d fs = (Inr (), fs')"
  unfolding desired_write_def by (rule replace_file_total)

end
