(* ===== verification/Kernel_Map.thy ===== *)
theory Kernel_Map
  imports Desired
begin

text \<open>
  BPF maps as user space sees them through \<open>libbpf_rs\<close>. The crate and the kernel are not part
  of the program, so their operations are a record of functions \<open>kops\<close> that the definitions take
  as an argument, and what the documentation promises of them is the locale \<open>kernel_map\<close>:
  entries are byte strings, a failed single operation changes nothing, a batch operation is
  not atomic and may have handled any prefix of its keys when it fails. What a lookup and the
  enumeration of keys answer is promised of a map of ports only, whose keys have two bytes: a socket
  map answers with cookies and enumerates empty slots too; its view is the descriptors put into it. \<open>healthy_map\<close> adds what
  a map with free room promises. The \<open>BPF_MAP_TYPE_HASH\<close> map of the documentation is an
  interpretation of both, with and without kernel support for batches. The file also holds the
  map constants and the pin paths of \<open>rust/loader/src/pin.rs\<close>.
\<close>

unbundle bit_operations_syntax

subsection \<open>The byte layout of keys\<close>

text \<open>\<open>u16::to_ne_bytes\<close> and back, on a little-endian or a big-endian machine.\<close>

definition port_bytes :: "bool \<Rightarrow> port \<Rightarrow> bytes" where
  "port_bytes le p =
     (let lo = ucast p; hi = ucast (drop_bit 8 p) in if le then [lo, hi] else [hi, lo])"

definition port_of_bytes :: "bool \<Rightarrow> u8 \<Rightarrow> u8 \<Rightarrow> port" where
  "port_of_bytes le a b =
     (let lo = (if le then a else b); hi = (if le then b else a)
      in push_bit 8 (ucast hi) OR ucast lo)"

lemma join_bytes: "push_bit 8 (ucast (ucast (drop_bit 8 p) :: u8)) OR ucast (ucast p :: u8) = (p :: u16)"
  by (rule bit_word_eqI) (auto simp: bit_simps)

lemma split_bytes:
  "ucast (push_bit 8 (ucast (hi :: u8)) OR ucast (lo :: u8) :: u16) = lo"
  "ucast (drop_bit 8 (push_bit 8 (ucast (hi :: u8)) OR ucast (lo :: u8) :: u16)) = hi"
  by (rule bit_word_eqI; auto simp: bit_simps dest: bit_imp_le_length)+

lemma length_port_bytes [simp]: "length (port_bytes le p) = 2"
  by (simp add: port_bytes_def Let_def)

lemma port_bytes_nonempty [simp]: "port_bytes le p \<noteq> []"
  by (simp add: port_bytes_def Let_def)

text \<open>Reading the two bytes of a port gives the port, and every two bytes are a port's.\<close>

lemma port_of_port_bytes: "port_bytes le p = [a, b] \<Longrightarrow> port_of_bytes le a b = p"
  by (auto simp: port_bytes_def port_of_bytes_def Let_def join_bytes split: if_splits)

lemma port_bytes_of_bytes [simp]: "port_bytes le (port_of_bytes le a b) = [a, b]"
  unfolding port_bytes_def port_of_bytes_def Let_def
  by (cases le) (simp_all only: if_True if_False split_bytes)

lemma port_bytes_inj [simp]: "port_bytes le p = port_bytes le q \<longleftrightarrow> p = q"
proof
  assume eq: "port_bytes le p = port_bytes le q"
  obtain a b where p: "port_bytes le p = [a, b]" by (simp add: port_bytes_def Let_def) (cases le; simp)
  with eq have "port_bytes le q = [a, b]" by simp
  with p show "p = q" by (metis port_of_port_bytes)
qed simp

lemma length_2_port_bytes: "length k = 2 \<Longrightarrow> \<exists>p. k = port_bytes le p"
  by (metis (no_types, opaque_lifting) length_0_conv length_Suc_conv numeral_2_eq_2 port_bytes_of_bytes)

subsection \<open>Map operations\<close>

record 'm kops =
  k_le :: bool
  k_key_size :: "'m \<Rightarrow> nat"
  k_value_size :: "'m \<Rightarrow> nat"
  k_max_entries :: "'m \<Rightarrow> nat"
  k_keys :: "'m \<Rightarrow> bytes list"
  k_lookup :: "'m \<Rightarrow> bytes \<Rightarrow> kern + bytes option"
  k_update :: "bytes \<Rightarrow> bytes \<Rightarrow> 'm \<Rightarrow> (kern + unit) \<times> 'm"
  k_delete :: "bytes \<Rightarrow> 'm \<Rightarrow> (kern + unit) \<times> 'm"
  k_update_batch :: "bytes \<Rightarrow> bytes \<Rightarrow> nat \<Rightarrow> 'm \<Rightarrow> (kern + unit) \<times> 'm"
  k_delete_batch :: "bytes \<Rightarrow> nat \<Rightarrow> 'm \<Rightarrow> (kern + unit) \<times> 'm"

type_synonym bmap = "bytes \<Rightarrow> bytes option"

text \<open>The \<open>i\<close>-th fixed-size element of a packed buffer.\<close>

definition seg :: "nat \<Rightarrow> bytes \<Rightarrow> nat \<Rightarrow> bytes" where
  "seg sz buf i = take sz (drop (i * sz) buf)"

definition put_segs :: "nat \<Rightarrow> nat \<Rightarrow> bytes \<Rightarrow> bytes \<Rightarrow> nat \<Rightarrow> bmap \<Rightarrow> bmap" where
  "put_segs ksz vsz ks vs j m = fold (\<lambda>i m. m(seg ksz ks i := Some (seg vsz vs i))) [0..<j] m"

definition del_segs :: "nat \<Rightarrow> bytes \<Rightarrow> nat \<Rightarrow> bmap \<Rightarrow> bmap" where
  "del_segs ksz ks j m = fold (\<lambda>i m. m(seg ksz ks i := None)) [0..<j] m"

locale kernel_map =
  fixes ops :: "'m kops"
    and view :: "'m \<Rightarrow> bmap"
    and same :: "'m \<Rightarrow> 'm \<Rightarrow> bool"
  assumes same_refl: "same m m"
    and same_trans: "same m n \<Longrightarrow> same n l \<Longrightarrow> same m l"
    and same_sizes: "same m n \<Longrightarrow> k_key_size ops n = k_key_size ops m \<and>
      k_value_size ops n = k_value_size ops m \<and> k_max_entries ops n = k_max_entries ops m"
    and entry_sizes: "view m k = Some v \<Longrightarrow> length k = k_key_size ops m \<and> length v = k_value_size ops m"
    and keys: "k_key_size ops m = 2 \<Longrightarrow> distinct (k_keys ops m) \<and> set (k_keys ops m) = dom (view m)"
    and lookup: "k_key_size ops m = 2 \<Longrightarrow> k_lookup ops m k = Inr found \<Longrightarrow> found = view m k"
    and update_ok: "k_update ops k v m = (Inr (), n) \<Longrightarrow> same m n \<and> view n = (view m)(k := Some v)"
    and update_err: "k_update ops k v m = (Inl e, n) \<Longrightarrow> same m n \<and> view n = view m"
    and delete_ok: "k_delete ops k m = (Inr (), n) \<Longrightarrow> same m n \<and> view n = (view m)(k := None)"
    and delete_err: "k_delete ops k m = (Inl e, n) \<Longrightarrow>
      same m n \<and> view n = view m \<and> (e = KNotFound \<longrightarrow> view m k = None)"
    and update_batch: "k_update_batch ops ks vs c m = (r, n) \<Longrightarrow> same m n \<and>
      (\<exists>j \<le> c. view n = put_segs (k_key_size ops m) (k_value_size ops m) ks vs j (view m) \<and>
         (is_ok r \<longrightarrow> j = c))"
    and delete_batch: "k_delete_batch ops ks c m = (r, n) \<Longrightarrow> same m n \<and>
      (\<exists>j \<le> c. view n = del_segs (k_key_size ops m) ks j (view m) \<and> (is_ok r \<longrightarrow> j = c))"

text \<open>A map whose single operations fail only for lack of room or of the key.\<close>

locale healthy_map = kernel_map +
  fixes batch :: "'a \<Rightarrow> bool"
  assumes batch_same: "same m n \<Longrightarrow> batch n = batch m"
    and lookup_total: "is_ok (k_lookup ops m k)"
    and update_total: "length k = k_key_size ops m \<Longrightarrow> length v = k_value_size ops m \<Longrightarrow>
      card (dom (view m) \<union> {k}) \<le> k_max_entries ops m \<Longrightarrow> is_ok (fst (k_update ops k v m))"
    and delete_total: "length k = k_key_size ops m \<Longrightarrow>
      is_ok (fst (k_delete ops k m)) \<or> fst (k_delete ops k m) = Inl KNotFound"
    and update_batch_total: "batch m \<Longrightarrow>
      length ks = c * k_key_size ops m \<Longrightarrow> length vs = c * k_value_size ops m \<Longrightarrow>
      card (dom (view m) \<union> seg (k_key_size ops m) ks ` {..<c}) \<le> k_max_entries ops m \<Longrightarrow>
      is_ok (fst (k_update_batch ops ks vs c m))"
    and update_batch_none: "\<not> batch m \<Longrightarrow> 0 < c \<Longrightarrow> \<not> is_ok (fst (k_update_batch ops ks vs c m))"
    and delete_present: "view m k \<noteq> None \<Longrightarrow> is_ok (fst (k_delete ops k m))"

subsection \<open>The documented hash map\<close>

text \<open>
  A hash map with \<open>kh_max\<close> preallocated entries. A new key in a full map is refused, a missing
  key cannot be deleted, batch operations work key by key and stop at the first refusal; an
  old kernel (\<open>kh_batch\<close> is false) refuses them at once. Entries whose sizes do not fit are
  never seen.
\<close>

record khash =
  kh_key :: nat
  kh_value :: nat
  kh_max :: nat
  kh_batch :: bool
  kh_data :: "(bytes \<times> bytes) list"

definition kh_entries :: "khash \<Rightarrow> (bytes \<times> bytes) list" where
  "kh_entries m = filter (\<lambda>(k, v). length k = kh_key m \<and> length v = kh_value m) (kh_data m)"

definition kh_view :: "khash \<Rightarrow> bmap" where
  "kh_view m = map_of (kh_entries m)"

definition kh_keys :: "khash \<Rightarrow> bytes list" where
  "kh_keys m = remdups (map fst (kh_entries m))"

definition kh_update :: "bytes \<Rightarrow> bytes \<Rightarrow> khash \<Rightarrow> (kern + unit) \<times> khash" where
  "kh_update k v m =
     (if length k \<noteq> kh_key m \<or> length v \<noteq> kh_value m then (Inl KOther, m)
      else if k \<notin> set (kh_keys m) \<and> length (kh_keys m) \<ge> kh_max m then (Inl KOther, m)
      else (Inr (), m\<lparr>kh_data := (k, v) # kh_data m\<rparr>))"

definition kh_delete :: "bytes \<Rightarrow> khash \<Rightarrow> (kern + unit) \<times> khash" where
  "kh_delete k m =
     (if length k \<noteq> kh_key m then (Inl KOther, m)
      else if k \<notin> set (kh_keys m) then (Inl KNotFound, m)
      else (Inr (), m\<lparr>kh_data := filter (\<lambda>e. fst e \<noteq> k) (kh_data m)\<rparr>))"

fun kh_update_segs :: "bytes \<Rightarrow> bytes \<Rightarrow> nat list \<Rightarrow> khash \<Rightarrow> (kern + unit) \<times> khash" where
  "kh_update_segs ks vs [] m = (Inr (), m)"
| "kh_update_segs ks vs (i # is) m =
     (case kh_update (seg (kh_key m) ks i) (seg (kh_value m) vs i) m of
        (Inl e, n) \<Rightarrow> (Inl e, n)
      | (Inr _, n) \<Rightarrow> kh_update_segs ks vs is n)"

fun kh_delete_segs :: "bytes \<Rightarrow> nat list \<Rightarrow> khash \<Rightarrow> (kern + unit) \<times> khash" where
  "kh_delete_segs ks [] m = (Inr (), m)"
| "kh_delete_segs ks (i # is) m =
     (case kh_delete (seg (kh_key m) ks i) m of
        (Inl e, n) \<Rightarrow> (Inl e, n)
      | (Inr _, n) \<Rightarrow> kh_delete_segs ks is n)"

definition kh_update_batch :: "bytes \<Rightarrow> bytes \<Rightarrow> nat \<Rightarrow> khash \<Rightarrow> (kern + unit) \<times> khash" where
  "kh_update_batch ks vs c m =
     (if kh_batch m then kh_update_segs ks vs [0..<c] m else (Inl KOther, m))"

definition kh_delete_batch :: "bytes \<Rightarrow> nat \<Rightarrow> khash \<Rightarrow> (kern + unit) \<times> khash" where
  "kh_delete_batch ks c m = (if kh_batch m then kh_delete_segs ks [0..<c] m else (Inl KOther, m))"

definition khash_ops :: "bool \<Rightarrow> khash kops" where
  "khash_ops le =
     \<lparr>k_le = le, k_key_size = kh_key, k_value_size = kh_value, k_max_entries = kh_max,
      k_keys = kh_keys, k_lookup = (\<lambda>m k. Inr (kh_view m k)), k_update = kh_update,
      k_delete = kh_delete, k_update_batch = kh_update_batch, k_delete_batch = kh_delete_batch\<rparr>"

definition kh_same :: "khash \<Rightarrow> khash \<Rightarrow> bool" where
  "kh_same m n \<longleftrightarrow> kh_key n = kh_key m \<and> kh_value n = kh_value m \<and> kh_max n = kh_max m \<and>
     kh_batch n = kh_batch m"

lemma kh_update_cases:
  "kh_update k v m = (r, n) \<Longrightarrow> kh_same m n \<and>
     (case r of Inr _ \<Rightarrow> kh_view n = (kh_view m)(k := Some v) | Inl _ \<Rightarrow> n = m)"
  by (auto simp: kh_update_def kh_same_def kh_view_def kh_entries_def split: if_splits)

lemma map_of_filter_neq: "map_of (filter (\<lambda>e. fst e \<noteq> k) xs) = (map_of xs)(k := None)"
  by (induction xs) (auto simp: fun_eq_iff)

lemma kh_delete_cases:
  "kh_delete k m = (r, n) \<Longrightarrow> kh_same m n \<and>
     (case r of Inr _ \<Rightarrow> kh_view n = (kh_view m)(k := None)
      | Inl e \<Rightarrow> n = m \<and> (e = KNotFound \<longrightarrow> kh_view m k = None))"
  by (auto simp: kh_delete_def kh_same_def kh_view_def kh_entries_def kh_keys_def map_of_eq_None_iff
      filter_filter conj_commute simp flip: map_of_filter_neq split: if_splits)

lemma kh_same_trans: "kh_same m n \<Longrightarrow> kh_same n l \<Longrightarrow> kh_same m l"
  by (simp add: kh_same_def)

lemma kh_update_segs_spec:
  "kh_update_segs ks vs is m = (r, n) \<Longrightarrow> kh_same m n \<and>
     (\<exists>j \<le> length is. kh_view n = fold (\<lambda>i f. f(seg (kh_key m) ks i := Some (seg (kh_value m) vs i)))
        (take j is) (kh_view m) \<and> (is_ok r \<longrightarrow> j = length is))"
proof (induction "is" arbitrary: m)
  case (Cons i "is")
  obtain q l where l: "kh_update (seg (kh_key m) ks i) (seg (kh_value m) vs i) m = (q, l)"
    by (cases "kh_update (seg (kh_key m) ks i) (seg (kh_value m) vs i) m")
  note cs = kh_update_cases [OF l]
  show ?case
  proof (cases q)
    case (Inl e)
    with Cons.prems l cs show ?thesis by auto
  next
    case (Inr u)
    then have run: "kh_update_segs ks vs is l = (r, n)" using Cons.prems l by simp
    from Cons.IH [OF this] obtain j where "kh_same l n" "j \<le> length is" "is_ok r \<longrightarrow> j = length is"
      "kh_view n = fold (\<lambda>i f. f(seg (kh_key l) ks i := Some (seg (kh_value l) vs i))) (take j is) (kh_view l)"
      by blast
    moreover have "kh_key l = kh_key m" "kh_value l = kh_value m" using cs by (simp_all add: kh_same_def)
    ultimately show ?thesis
      using cs Inr by (intro conjI exI [of _ "Suc j"]) (auto simp del: fun_upd_apply intro: kh_same_trans)
  qed
qed (simp add: kh_same_def)

lemma kh_delete_segs_spec:
  "kh_delete_segs ks is m = (r, n) \<Longrightarrow> kh_same m n \<and>
     (\<exists>j \<le> length is. kh_view n = fold (\<lambda>i f. f(seg (kh_key m) ks i := None)) (take j is) (kh_view m) \<and>
        (is_ok r \<longrightarrow> j = length is))"
proof (induction "is" arbitrary: m)
  case (Cons i "is")
  obtain q l where l: "kh_delete (seg (kh_key m) ks i) m = (q, l)"
    by (cases "kh_delete (seg (kh_key m) ks i) m")
  note cs = kh_delete_cases [OF l]
  show ?case
  proof (cases q)
    case (Inl e)
    with Cons.prems l cs show ?thesis by auto
  next
    case (Inr u)
    then have run: "kh_delete_segs ks is l = (r, n)" using Cons.prems l by simp
    from Cons.IH [OF this] obtain j where "kh_same l n" "j \<le> length is" "is_ok r \<longrightarrow> j = length is"
      "kh_view n = fold (\<lambda>i f. f(seg (kh_key l) ks i := None)) (take j is) (kh_view l)"
      by blast
    moreover have "kh_key l = kh_key m" using cs by (simp add: kh_same_def)
    ultimately show ?thesis
      using cs Inr by (intro conjI exI [of _ "Suc j"]) (auto simp del: fun_upd_apply intro: kh_same_trans)
  qed
qed (simp add: kh_same_def)

lemma set_kh_keys: "set (kh_keys m) = dom (kh_view m)"
  by (simp add: kh_keys_def kh_view_def dom_map_of_conv_image_fst)

lemma length_kh_keys: "length (kh_keys m) = card (dom (kh_view m))"
  unfolding set_kh_keys [symmetric] by (simp add: kh_keys_def distinct_card [symmetric])

lemma take_upt_le: "j \<le> c \<Longrightarrow> take j [0..<c] = [0..<j]"
  by (simp add: take_upt)

lemma kh_update_batch_spec:
  assumes "kh_update_batch ks vs c m = (r, n)"
  shows "kh_same m n \<and> (\<exists>j \<le> c. kh_view n = put_segs (kh_key m) (kh_value m) ks vs j (kh_view m) \<and>
    (is_ok r \<longrightarrow> j = c))"
proof (cases "kh_batch m")
  case True
  then have "kh_update_segs ks vs [0..<c] m = (r, n)" using assms by (simp add: kh_update_batch_def)
  from kh_update_segs_spec [OF this] show ?thesis by (auto simp: put_segs_def take_upt_le)
next
  case False
  then show ?thesis using assms by (auto simp: kh_update_batch_def kh_same_def put_segs_def intro: exI [of _ 0])
qed

lemma kh_delete_batch_spec:
  assumes "kh_delete_batch ks c m = (r, n)"
  shows "kh_same m n \<and> (\<exists>j \<le> c. kh_view n = del_segs (kh_key m) ks j (kh_view m) \<and>
    (is_ok r \<longrightarrow> j = c))"
proof (cases "kh_batch m")
  case True
  then have "kh_delete_segs ks [0..<c] m = (r, n)" using assms by (simp add: kh_delete_batch_def)
  from kh_delete_segs_spec [OF this] show ?thesis by (auto simp: del_segs_def take_upt_le)
next
  case False
  then show ?thesis using assms by (auto simp: kh_delete_batch_def kh_same_def del_segs_def intro: exI [of _ 0])
qed

lemma kernel_map_khash: "kernel_map (khash_ops le) kh_view kh_same"
proof
  fix m k v
  assume "kh_view m k = Some v"
  then show "length k = k_key_size (khash_ops le) m \<and> length v = k_value_size (khash_ops le) m"
    by (auto simp: khash_ops_def kh_view_def kh_entries_def dest!: map_of_SomeD)
next
  fix ks vs c m r n
  assume "k_update_batch (khash_ops le) ks vs c m = (r, n)"
  then show "kh_same m n \<and> (\<exists>j\<le>c. kh_view n = put_segs (k_key_size (khash_ops le) m)
      (k_value_size (khash_ops le) m) ks vs j (kh_view m) \<and> (is_ok r \<longrightarrow> j = c))"
    by (simp add: khash_ops_def kh_update_batch_spec)
next
  fix ks c m r n
  assume "k_delete_batch (khash_ops le) ks c m = (r, n)"
  then show "kh_same m n \<and> (\<exists>j\<le>c. kh_view n = del_segs (k_key_size (khash_ops le) m) ks j (kh_view m) \<and>
      (is_ok r \<longrightarrow> j = c))"
    by (simp add: khash_ops_def kh_delete_batch_spec)
qed (auto simp: khash_ops_def kh_same_def kh_keys_def kh_view_def dom_map_of_conv_image_fst
    dest: kh_update_cases kh_delete_cases)

interpretation kh: kernel_map "khash_ops le" kh_view kh_same for le
  by (rule kernel_map_khash)

lemma finite_kh_view: "finite (dom (kh_view m))"
  by (simp flip: set_kh_keys)

lemma kh_update_ok:
  assumes "length k = kh_key m" "length v = kh_value m" "card (dom (kh_view m) \<union> {k}) \<le> kh_max m"
  shows "is_ok (fst (kh_update k v m))"
proof -
  have "k \<notin> set (kh_keys m) \<Longrightarrow> length (kh_keys m) < kh_max m"
    using assms(3) finite_kh_view [of m] by (simp add: set_kh_keys length_kh_keys)
  then show ?thesis using assms by (auto simp: kh_update_def)
qed

lemma kh_update_segs_ok:
  "\<forall>i \<in> set is. length (seg (kh_key m) ks i) = kh_key m \<and> length (seg (kh_value m) vs i) = kh_value m \<Longrightarrow>
   card (dom (kh_view m) \<union> seg (kh_key m) ks ` set is) \<le> kh_max m \<Longrightarrow>
   is_ok (fst (kh_update_segs ks vs is m))"
proof (induction "is" arbitrary: m)
  case (Cons i "is")
  let ?k = "seg (kh_key m) ks i" and ?v = "seg (kh_value m) vs i"
  have "card (dom (kh_view m) \<union> {?k}) \<le> card (dom (kh_view m) \<union> seg (kh_key m) ks ` set (i # is))"
    using finite_kh_view [of m] by (intro card_mono) auto
  then have "is_ok (fst (kh_update ?k ?v m))"
    using Cons.prems by (intro kh_update_ok) auto
  then obtain n where n: "kh_update ?k ?v m = (Inr (), n)"
    by (cases "kh_update ?k ?v m") (auto simp: is_ok_iff)
  then have view: "kh_view n = (kh_view m)(?k := Some ?v)" and same: "kh_same m n"
    using kh_update_cases [OF n] by simp_all
  have "dom (kh_view n) \<union> seg (kh_key m) ks ` set is = dom (kh_view m) \<union> seg (kh_key m) ks ` set (i # is)"
    unfolding view by auto
  then have "is_ok (fst (kh_update_segs ks vs is n))"
    using Cons.prems same by (intro Cons.IH) (auto simp: kh_same_def)
  then show ?case using n by simp
qed simp

lemma length_seg: "length buf = c * sz \<Longrightarrow> i < c \<Longrightarrow> length (seg sz buf i) = sz"
proof -
  assume buf: "length buf = c * sz" and i: "i < c"
  have "i * sz + sz \<le> c * sz" using i by (metis Suc_leI add.commute mult_Suc mult_le_mono1)
  then show ?thesis using buf by (simp add: seg_def)
qed

lemma healthy_map_khash: "healthy_map (khash_ops le) kh_view kh_same kh_batch"
proof
  fix m k and v :: bytes
  assume len: "length k = k_key_size (khash_ops le) m" "length v = k_value_size (khash_ops le) m"
    and room: "card (dom (kh_view m) \<union> {k}) \<le> k_max_entries (khash_ops le) m"
  then show "is_ok (fst (k_update (khash_ops le) k v m))"
    by (simp add: khash_ops_def kh_update_ok)
next
  fix m c and ks vs :: bytes
  assume "kh_batch m" "length ks = c * k_key_size (khash_ops le) m"
    "length vs = c * k_value_size (khash_ops le) m"
    "card (dom (kh_view m) \<union> seg (k_key_size (khash_ops le) m) ks ` {..<c}) \<le> k_max_entries (khash_ops le) m"
  then show "is_ok (fst (k_update_batch (khash_ops le) ks vs c m))"
    by (auto simp: khash_ops_def kh_update_batch_def lessThan_atLeast0 intro!: kh_update_segs_ok
        intro: length_seg)
qed (auto simp: khash_ops_def kh_delete_def kh_update_batch_def kh_same_def set_kh_keys dest: kh.entry_sizes)

interpretation khh: healthy_map "khash_ops le" kh_view kh_same kh_batch for le
  by (rule healthy_map_khash)

subsection \<open>Constants and pin paths of \<open>pin.rs\<close>\<close>

definition open_ports_key_size :: nat where "open_ports_key_size = 2"
definition open_ports_value_size :: nat where "open_ports_value_size = 1"
definition redir_socket_max_entries :: nat where "redir_socket_max_entries = 2"
definition redir_socket_key_size :: nat where "redir_socket_key_size = 4"
definition redir_socket_value_size :: nat where "redir_socket_value_size = 8"
definition default_bulk_batch :: nat where "default_bulk_batch = 4096"

definition default_pin_dir :: path where
  "default_pin_dir = [''/'', ''sys'', ''fs'', ''bpf'', ''waf-sklookup'']"

definition open_ports_path :: "path \<Rightarrow> path" where "open_ports_path dir = dir @ [''open_ports'']"
definition redir_socket_path :: "path \<Rightarrow> path" where "redir_socket_path dir = dir @ [''redir_socket'']"
definition sk_lookup_link_path :: "path \<Rightarrow> path" where "sk_lookup_link_path dir = dir @ [''sk_lookup'']"
definition sk_lookup_backup_link_path :: "path \<Rightarrow> path" where
  "sk_lookup_backup_link_path dir = dir @ [''sk_lookup_backup'']"
definition prog_path :: "path \<Rightarrow> path" where "prog_path dir = dir @ [''prog'']"
definition prog_previous_path :: "path \<Rightarrow> path" where "prog_previous_path dir = dir @ [''prog_previous'']"
definition prog_candidate_path :: "path \<Rightarrow> path" where "prog_candidate_path dir = dir @ [''prog_candidate'']"

text \<open>The layout checks that run before a map is used.\<close>

definition assert_open_ports_max_entries :: "'m kops \<Rightarrow> 'm \<Rightarrow> err + unit" where
  "assert_open_ports_max_entries ops m =
     (let got = k_max_entries ops m
      in if got \<noteq> open_ports_max_entries then Inl (PinE (OpenPortsMaxEntries got)) else Inr ())"

definition assert_open_ports_layout :: "'m kops \<Rightarrow> 'm \<Rightarrow> err + unit" where
  "assert_open_ports_layout ops m =
     rbind (assert_open_ports_max_entries ops m) (\<lambda>_.
       let key = k_key_size ops m; val = k_value_size ops m
       in if key \<noteq> open_ports_key_size \<or> val \<noteq> open_ports_value_size
          then Inl (PinE (OpenPortsLayout key val)) else Inr ())"

definition assert_redir_socket_layout :: "'m kops \<Rightarrow> 'm \<Rightarrow> err + unit" where
  "assert_redir_socket_layout ops m =
     (let mx = k_max_entries ops m; key = k_key_size ops m; val = k_value_size ops m
      in if mx \<noteq> redir_socket_max_entries \<or> key \<noteq> redir_socket_key_size
            \<or> val \<noteq> redir_socket_value_size
         then Inl (PinE (RedirSocketLayout key val mx)) else Inr ())"

text \<open>The main ABI: keys of two bytes, values of one, and the room of the checks above.\<close>

definition port_layout :: "'m kops \<Rightarrow> 'm \<Rightarrow> bool" where
  "port_layout ops m \<longleftrightarrow> k_key_size ops m = 2 \<and> k_value_size ops m = 1"

lemma assert_open_ports_layout_iff:
  "assert_open_ports_layout ops m = Inr () \<longleftrightarrow>
     port_layout ops m \<and> k_max_entries ops m = open_ports_max_entries"
  by (auto simp: assert_open_ports_layout_def assert_open_ports_max_entries_def port_layout_def
      open_ports_key_size_def open_ports_value_size_def Let_def)

end
