(* ===== verification/Bulk.thy ===== *)
theory Bulk
  imports Kernel_Map
begin

text \<open>
  \<open>rust/loader/src/bulk.rs\<close> and the map side of \<open>desired.rs\<close> and \<open>ctl.rs\<close>: packing keys and
  values, batched put and delete with their per-key fallback, reading the map, the reconcile
  loop, and listing. The lemmas say which ports each operation steers afterwards, on every path.
\<close>

subsection \<open>Keys and values\<close>

definition port_key_bytes :: "'m kops \<Rightarrow> 'm \<Rightarrow> port \<Rightarrow> bytes" where
  "port_key_bytes ops m port =
     (let sz = k_key_size ops m; b = port_bytes (k_le ops) port; n = min sz (length b)
      in take n b @ replicate (sz - n) 0)"

definition slot_value_bytes :: "'m kops \<Rightarrow> 'm \<Rightarrow> slot \<Rightarrow> bytes" where
  "slot_value_bytes ops m slot =
     (let val = replicate (k_value_size ops m) 0 in if val \<noteq> [] then val[0 := slot] else val)"

text \<open>\<open>buf[off..off + src.len()].copy_from_slice(src)\<close>.\<close>

definition blit :: "bytes \<Rightarrow> nat \<Rightarrow> bytes \<Rightarrow> bytes" where
  "blit buf off src = take off buf @ src @ drop (off + length src) buf"

fun pack_keys_loop :: "bool \<Rightarrow> nat \<Rightarrow> nat \<Rightarrow> port list \<Rightarrow> bytes \<Rightarrow> bytes" where
  "pack_keys_loop le sz i [] out = out"
| "pack_keys_loop le sz i (p # ps) out =
     (let b = port_bytes le p; n = min sz (length b)
      in pack_keys_loop le sz (Suc i) ps (blit out (i * sz) (take n b)))"

definition pack_keys :: "'m kops \<Rightarrow> 'm \<Rightarrow> port list \<Rightarrow> bytes" where
  "pack_keys ops m ports =
     (let sz = k_key_size ops m
      in pack_keys_loop (k_le ops) sz 0 ports (replicate (sz * length ports) 0))"

fun pack_slot_loop :: "nat \<Rightarrow> slot \<Rightarrow> nat list \<Rightarrow> bytes \<Rightarrow> bytes" where
  "pack_slot_loop sz slot [] out = out"
| "pack_slot_loop sz slot (i # is) out = pack_slot_loop sz slot is (out[i * sz := slot])"

definition pack_slot_values :: "'m kops \<Rightarrow> 'm \<Rightarrow> nat \<Rightarrow> slot \<Rightarrow> bytes" where
  "pack_slot_values ops m n slot =
     (let sz = k_value_size ops m; out = replicate (sz * n) 0
      in if sz = 0 then out else pack_slot_loop sz slot [0..<n] out)"

definition as_u32 :: "nat \<Rightarrow> nat" where
  "as_u32 n = n mod 2 ^ 32"

definition is_missing_key :: "kern \<Rightarrow> bool" where
  "is_missing_key e \<longleftrightarrow> e = KNotFound"

subsection \<open>Bulk put and delete\<close>

text \<open>
  The elapsed time of a result is left out. \<open>progress_log\<close> lists the values of \<open>done\<close> for which
  \<open>report_bulk_progress\<close> writes a line, when the caller passes a writer. The writer of the callers is the
  standard error, and it is taken not to fail: in the code a failing one ends the loop with its error.
\<close>

record bulk_result =
  bulk_n :: nat
  used_batch :: bool
  bulk_missing :: nat
  progress_log :: "nat list"

definition bulk_default :: bulk_result where
  "bulk_default = \<lparr>bulk_n = 0, used_batch = False, bulk_missing = 0, progress_log = []\<rparr>"

definition report_bulk_progress :: "bool \<Rightarrow> nat \<Rightarrow> bulk_result \<Rightarrow> bulk_result" where
  "report_bulk_progress progress count res =
     (if \<not> progress \<or> count = 0 \<or> (count < 256 \<and> bulk_n res < count) then res
      else res\<lparr>progress_log := progress_log res @ [bulk_n res]\<rparr>)"

definition effective_batch :: "nat \<Rightarrow> nat" where
  "effective_batch batch_size = (if batch_size = 0 then default_bulk_batch else batch_size)"

lemma effective_batch_pos [simp]: "0 < effective_batch b"
  by (simp add: effective_batch_def default_bulk_batch_def)

fun put_each :: "'m kops \<Rightarrow> slot \<Rightarrow> port list \<Rightarrow> ('m, unit) act" where
  "put_each ops slot [] m = (Inr (), m)"
| "put_each ops slot (p # ps) m =
     (case k_update ops (port_key_bytes ops m p) (slot_value_bytes ops m slot) m of
        (Inl e, n) \<Rightarrow> (Inl (Ctx (InPut p) (KernE e)), n)
      | (Inr _, n) \<Rightarrow> put_each ops slot ps n)"

text \<open>The \<open>while\<close> loop of \<open>bulk_put_ports\<close> from offset \<open>i\<close>; \<open>bulk_n res\<close> is its \<open>done\<close>.\<close>

function bulk_put_loop ::
    "'m kops \<Rightarrow> port list \<Rightarrow> slot \<Rightarrow> nat \<Rightarrow> bool \<Rightarrow> bool \<Rightarrow> nat \<Rightarrow> bulk_result \<Rightarrow> ('m, bulk_result) act" where
  "bulk_put_loop ops ports slot batch_size progress use_batch i res m =
     (if i < length ports then
        let stop = min (i + effective_batch batch_size) (length ports);
            chunk = take (stop - i) (drop i ports);
            finish = (\<lambda>res. report_bulk_progress progress (length ports) res)
        in if use_batch then
             (case k_update_batch ops (pack_keys ops m chunk) (pack_slot_values ops m (length chunk) slot)
                     (as_u32 (length chunk)) m of
                (Inr _, n) \<Rightarrow>
                  bulk_put_loop ops ports slot batch_size progress True stop
                    (finish (res\<lparr>bulk_n := bulk_n res + length chunk, used_batch := True\<rparr>)) n
              | (Inl e, n) \<Rightarrow>
                  if bulk_n res = 0
                  then bulk_put_loop ops ports slot batch_size progress False i res n
                  else (Inl (Ctx (InBatchUpdate i) (KernE e)), n))
           else
             (case put_each ops slot chunk m of
                (Inl e, n) \<Rightarrow> (Inl e, n)
              | (Inr _, n) \<Rightarrow>
                  bulk_put_loop ops ports slot batch_size progress False stop
                    (finish (res\<lparr>bulk_n := bulk_n res + length chunk\<rparr>)) n)
      else (Inr res, m))"
  by pat_completeness auto
termination
proof (relation "measure (\<lambda>(ops, ports, slot, b, pr, use_batch, i, res, m).
    2 * (length ports - i) + of_bool use_batch)", goal_cases)
  case 1
  then show ?case by simp
qed (use effective_batch_pos in \<open>auto simp: min_def not_le intro!: diff_less_mono2\<close>)

declare bulk_put_loop.simps [simp del]

definition bulk_put_ports ::
    "'m kops \<Rightarrow> port list \<Rightarrow> slot \<Rightarrow> nat \<Rightarrow> bool \<Rightarrow> ('m, bulk_result) act" where
  "bulk_put_ports ops ports slot batch_size progress m =
     (if ports = [] then (Inr bulk_default, m)
      else bulk_put_loop ops ports slot batch_size progress True 0 bulk_default m)"

fun delete_each :: "'m kops \<Rightarrow> port list \<Rightarrow> bulk_result \<Rightarrow> ('m, bulk_result) act" where
  "delete_each ops [] res m = (Inr res, m)"
| "delete_each ops (p # ps) res m =
     (case k_delete ops (port_key_bytes ops m p) m of
        (Inr _, n) \<Rightarrow> delete_each ops ps (res\<lparr>bulk_n := bulk_n res + 1\<rparr>) n
      | (Inl e, n) \<Rightarrow>
          if is_missing_key e
          then delete_each ops ps (res\<lparr>bulk_n := bulk_n res + 1, bulk_missing := bulk_missing res + 1\<rparr>) n
          else (Inl (Ctx (InDelete p) (KernE e)), n))"

function bulk_delete_loop ::
    "'m kops \<Rightarrow> port list \<Rightarrow> nat \<Rightarrow> bool \<Rightarrow> nat \<Rightarrow> bulk_result \<Rightarrow> ('m, bulk_result) act" where
  "bulk_delete_loop ops ports batch_size progress i res m =
     (if i < length ports then
        let stop = min (i + effective_batch batch_size) (length ports);
            chunk = take (stop - i) (drop i ports);
            next = (\<lambda>res. bulk_delete_loop ops ports batch_size progress stop
                      (report_bulk_progress progress (length ports) res))
        in (case k_delete_batch ops (pack_keys ops m chunk) (as_u32 (length chunk)) m of
              (Inr _, n) \<Rightarrow> next (res\<lparr>bulk_n := bulk_n res + length chunk, used_batch := True\<rparr>) n
            | (Inl _, n) \<Rightarrow>
                (case delete_each ops chunk res n of
                   (Inl e, l) \<Rightarrow> (Inl e, l)
                 | (Inr res, l) \<Rightarrow> next res l))
      else (Inr res, m))"
  by pat_completeness auto
termination
  by (relation "measure (\<lambda>(ops, ports, b, pr, i, res, m). length ports - i)")
    (use effective_batch_pos in \<open>auto simp: min_def not_le intro!: diff_less_mono2\<close>)

declare bulk_delete_loop.simps [simp del]

definition bulk_delete_ports ::
    "'m kops \<Rightarrow> port list \<Rightarrow> nat \<Rightarrow> bool \<Rightarrow> ('m, bulk_result) act" where
  "bulk_delete_ports ops ports batch_size progress m =
     (if ports = [] then (Inr bulk_default, m)
      else bulk_delete_loop ops ports batch_size progress 0 bulk_default m)"

subsection \<open>Reading the map, reconciling it, listing it\<close>

definition port_from_key :: "'m kops \<Rightarrow> bytes \<Rightarrow> port" where
  "port_from_key ops key =
     (case key of a # b # _ \<Rightarrow> port_of_bytes (k_le ops) a b | [a] \<Rightarrow> ucast a | [] \<Rightarrow> 0)"

definition first_byte :: "bytes \<Rightarrow> slot" where
  "first_byte v = (case v of [] \<Rightarrow> 0 | b # _ \<Rightarrow> b)"

fun read_map_loop :: "'m kops \<Rightarrow> 'm \<Rightarrow> bytes list \<Rightarrow> (port, slot) omap \<Rightarrow> err + (port, slot) omap" where
  "read_map_loop ops m [] current = Inr current"
| "read_map_loop ops m (key # rest) current =
     (if key = [] then read_map_loop ops m rest current
      else (case k_lookup ops m key of
          Inl e \<Rightarrow> Inl (KernE e)
        | Inr found \<Rightarrow>
            let val = (case found of None \<Rightarrow> [] | Some v \<Rightarrow> v)
            in read_map_loop ops m rest (om_insert (port_from_key ops key) (first_byte val) current)))"

definition read_map :: "'m kops \<Rightarrow> 'm \<Rightarrow> err + (port, slot) omap" where
  "read_map ops m = read_map_loop ops m (k_keys ops m) om_empty"

fun remove_each :: "'m kops \<Rightarrow> port list \<Rightarrow> ('m, unit) act" where
  "remove_each ops [] m = (Inr (), m)"
| "remove_each ops (p # ps) m =
     (case k_delete ops (port_key_bytes ops m p) m of
        (Inl e, n) \<Rightarrow> (Inl (Ctx (InDelete p) (KernE e)), n)
      | (Inr _, n) \<Rightarrow> remove_each ops ps n)"

definition reconcile_map :: "'m kops \<Rightarrow> desired_ports \<Rightarrow> ('m, reconcile_plan) act" where
  "reconcile_map ops d =
     sbind (getr (read_map ops)) (\<lambda>current.
       let pl = plan d current in
       sbind (put_each ops redir_primary (put_primary pl)) (\<lambda>_.
       sbind (put_each ops redir_tls (put_tls pl)) (\<lambda>_.
       sbind (remove_each ops (plan_delete pl)) (\<lambda>_. ret pl))))"

fun list_rows :: "'m kops \<Rightarrow> 'm \<Rightarrow> bytes list \<Rightarrow> err + (port \<times> slot) list" where
  "list_rows ops m [] = Inr []"
| "list_rows ops m (key # rest) =
     (case k_lookup ops m key of
        Inl e \<Rightarrow> Inl (KernE e)
      | Inr found \<Rightarrow>
          let val = (case found of None \<Rightarrow> [0] | Some v \<Rightarrow> v)
          in rbind (list_rows ops m rest) (\<lambda>rows. Inr ((port_from_key ops key, first_byte val) # rows)))"

subsection \<open>Summaries\<close>

definition format_bulk_summary :: "string \<Rightarrow> nat \<Rightarrow> slot \<Rightarrow> string \<Rightarrow> bulk_result \<Rightarrow> string" where
  "format_bulk_summary op n slot elapsed res =
     (let label = (if slot = redir_tls then ''tls-fallback'' else ''primary'');
          extra = (if bulk_missing res > 0 then '' missing='' @ show_nat (bulk_missing res) else []);
          method = (if used_batch res then ''batch'' else ''per-key'')
      in op @ '' n='' @ show_nat n @ '' slot='' @ show_nat (unat slot) @ '' ('' @ label @ '') elapsed=''
           @ elapsed @ '' method='' @ method @ extra)"

definition format_remove_summary :: "string \<Rightarrow> bulk_result \<Rightarrow> string" where
  "format_remove_summary elapsed res =
     (let extra = (if bulk_missing res > 0 then '' missing='' @ show_nat (bulk_missing res) else []);
          method = (if used_batch res then ''batch'' else ''per-key'')
      in ''removed n='' @ show_nat (bulk_n res) @ '' elapsed='' @ elapsed @ '' method='' @ method @ extra)"

subsection \<open>Packing\<close>

lemma port_key_bytes_layout [simp]: "port_layout ops m \<Longrightarrow> port_key_bytes ops m p = port_bytes (k_le ops) p"
  by (simp add: port_key_bytes_def port_layout_def)

lemma slot_value_bytes_layout [simp]: "port_layout ops m \<Longrightarrow> slot_value_bytes ops m s = [s]"
  by (simp add: slot_value_bytes_def port_layout_def)

definition fit_key :: "bool \<Rightarrow> nat \<Rightarrow> port \<Rightarrow> bytes" where
  "fit_key le sz p = take sz (port_bytes le p) @ replicate (sz - 2) 0"

lemma blit_key:
  "length pre = i * sz \<Longrightarrow>
   blit (pre @ replicate (sz * Suc k) 0) (i * sz) (take (min sz 2) (port_bytes le p)) =
     (pre @ fit_key le sz p) @ replicate (sz * k) 0"
  by (simp add: blit_def fit_key_def min_def replicate_add [symmetric] drop_replicate)

lemma pack_keys_loop_eq:
  "length pre = i * sz \<Longrightarrow>
   pack_keys_loop le sz i ps (pre @ replicate (sz * length ps) 0) = pre @ concat (map (fit_key le sz) ps)"
proof (induction ps arbitrary: i pre)
  case (Cons p ps)
  have "pack_keys_loop le sz i (p # ps) (pre @ replicate (sz * length (p # ps)) 0)
      = pack_keys_loop le sz (Suc i) ps ((pre @ fit_key le sz p) @ replicate (sz * length ps) 0)"
    using blit_key [OF Cons.prems, of "length ps" le p] by simp
  also have "\<dots> = (pre @ fit_key le sz p) @ concat (map (fit_key le sz) ps)"
    using Cons.prems by (intro Cons.IH) (auto simp: fit_key_def min_def)
  finally show ?case by simp
qed simp

lemma port_key_bytes_fit: "port_key_bytes ops m p = fit_key (k_le ops) (k_key_size ops m) p"
  by (simp add: port_key_bytes_def fit_key_def min_def Let_def)

lemma pack_keys_eq: "pack_keys ops m ports = concat (map (port_key_bytes ops m) ports)"
  using pack_keys_loop_eq [of "[]" 0 "k_key_size ops m" "k_le ops" ports]
  by (simp add: pack_keys_def port_key_bytes_fit [abs_def])

lemma length_pack_keys: "length (pack_keys ops m ports) = length ports * k_key_size ops m"
proof -
  have "length (port_key_bytes ops m p) = k_key_size ops m" for p
    by (simp add: port_key_bytes_def Let_def)
  then show ?thesis by (induction ports) (simp_all add: pack_keys_eq)
qed

lemma seg_concat:
  "\<forall>x \<in> set xs. length (f x) = sz \<Longrightarrow> i < length xs \<Longrightarrow> seg sz (concat (map f xs)) i = f (xs ! i)"
proof (induction xs arbitrary: i)
  case (Cons x xs)
  then show ?case by (cases i) (auto simp: seg_def)
qed simp

lemma seg_pack_keys:
  "i < length ports \<Longrightarrow> seg (k_key_size ops m) (pack_keys ops m ports) i = port_key_bytes ops m (ports ! i)"
  unfolding pack_keys_eq by (rule seg_concat) (simp_all add: port_key_bytes_def Let_def)

lemma pack_slot_loop_ones:
  "pack_slot_loop (Suc 0) slot [i..<i + k] (replicate i slot @ replicate k 0) = replicate (i + k) slot"
proof (induction k arbitrary: i)
  case (Suc k)
  have "[i..<i + Suc k] = i # [Suc i..<Suc i + k]" by (simp add: upt_conv_Cons)
  moreover have "(replicate i slot @ replicate (Suc k) 0)[i := slot]
      = replicate (Suc i) slot @ replicate k 0"
    by (simp add: list_update_append replicate_app_Cons_same)
  ultimately show ?case using Suc.IH [of "Suc i"] by simp
qed simp

lemma pack_slot_values_layout:
  "port_layout ops m \<Longrightarrow> pack_slot_values ops m n slot = replicate n slot"
  using pack_slot_loop_ones [of slot 0 n] by (simp add: pack_slot_values_def port_layout_def)

lemma seg_replicate: "i < n \<Longrightarrow> seg 1 (replicate n x) i = [x]"
  by (simp add: seg_def drop_replicate take_Cons' split: nat_diff_split)

subsection \<open>The map of ports\<close>

text \<open>What \<open>open_ports\<close> steers: the slot of each port.\<close>

definition port_view :: "'m kops \<Rightarrow> ('m \<Rightarrow> bmap) \<Rightarrow> 'm \<Rightarrow> port \<Rightarrow> slot option" where
  "port_view ops view m p = map_option first_byte (view m (port_bytes (k_le ops) p))"

definition steer :: "port list \<Rightarrow> slot \<Rightarrow> (port \<Rightarrow> slot option) \<Rightarrow> port \<Rightarrow> slot option" where
  "steer ps slot f p = (if p \<in> set ps then Some slot else f p)"

definition unsteer :: "port list \<Rightarrow> (port \<Rightarrow> slot option) \<Rightarrow> port \<Rightarrow> slot option" where
  "unsteer ps f p = (if p \<in> set ps then None else f p)"

lemma steer_simps [simp]:
  "steer [] s f = f" "steer ps s (steer qs s f) = steer (qs @ ps) s f"
  "unsteer [] f = f" "unsteer ps (unsteer qs f) = unsteer (qs @ ps) f"
  by (auto simp: steer_def unsteer_def fun_eq_iff)

lemma put_segs_ports:
  assumes "\<forall>i < j. seg ksz ks i = port_bytes le (ports ! i)" "\<forall>i < j. seg vsz vs i = [slot]"
    and "j \<le> length ports"
  shows "map_option first_byte (put_segs ksz vsz ks vs j f (port_bytes le p)) =
    steer (take j ports) slot (\<lambda>p. map_option first_byte (f (port_bytes le p))) p"
  using assms
proof (induction j)
  case (Suc j)
  then show ?case
    by (auto simp: put_segs_def steer_def first_byte_def take_Suc_conv_app_nth)
qed (simp add: put_segs_def)

lemma del_segs_ports:
  assumes "\<forall>i < j. seg ksz ks i = port_bytes le (ports ! i)" and "j \<le> length ports"
  shows "map_option first_byte (del_segs ksz ks j f (port_bytes le p)) =
    unsteer (take j ports) (\<lambda>p. map_option first_byte (f (port_bytes le p))) p"
  using assms
proof (induction j)
  case (Suc j)
  then show ?case
    by (auto simp: del_segs_def unsteer_def take_Suc_conv_app_nth)
qed (simp add: del_segs_def)

subsection \<open>Bulk operations on any kernel map\<close>

context kernel_map
begin

lemma same_layout: "same m n \<Longrightarrow> port_layout ops m \<Longrightarrow> port_layout ops n"
  using same_sizes [of m n] by (simp add: port_layout_def)

abbreviation ports_of :: "'m \<Rightarrow> port \<Rightarrow> slot option" where
  "ports_of \<equiv> port_view ops view"

lemma put_step:
  assumes "k_update ops (port_key_bytes ops m p) (slot_value_bytes ops m slot) m = (Inr (), n)"
    and "port_layout ops m"
  shows "same m n \<and> ports_of n = steer [p] slot (ports_of m)"
  using update_ok [OF assms(1)] assms(2)
  by (auto simp: port_view_def steer_def first_byte_def fun_eq_iff)

lemma delete_step:
  assumes "k_delete ops (port_key_bytes ops m p) m = (Inr (), n)" "port_layout ops m"
  shows "same m n \<and> ports_of n = unsteer [p] (ports_of m)"
  using delete_ok [OF assms(1)] assms(2) by (auto simp: port_view_def unsteer_def fun_eq_iff)

lemma delete_miss:
  assumes "k_delete ops (port_key_bytes ops m p) m = (Inl KNotFound, n)" "port_layout ops m"
  shows "same m n \<and> ports_of n = unsteer [p] (ports_of m)"
  using delete_err [OF assms(1)] assms(2) by (auto simp: port_view_def unsteer_def fun_eq_iff)

lemma put_each_spec:
  "put_each ops slot ps m = (r, n) \<Longrightarrow> port_layout ops m \<Longrightarrow> same m n \<and>
     (\<exists>j \<le> length ps. ports_of n = steer (take j ps) slot (ports_of m) \<and> (is_ok r \<longrightarrow> j = length ps))"
proof (induction ps arbitrary: m)
  case (Cons p ps)
  obtain q l where l: "k_update ops (port_key_bytes ops m p) (slot_value_bytes ops m slot) m = (q, l)"
    by (cases "k_update ops (port_key_bytes ops m p) (slot_value_bytes ops m slot) m")
  show ?case
  proof (cases q)
    case (Inl e)
    with Cons.prems l update_err [of _ _ m e l] show ?thesis
      by (auto simp: port_view_def [abs_def] intro!: exI [of _ 0])
  next
    case (Inr u)
    with l put_step [of m p slot l] Cons.prems(2)
    have s: "same m l" "ports_of l = steer [p] slot (ports_of m)" by auto
    have "put_each ops slot ps l = (r, n)" using Cons.prems(1) l Inr by simp
    from Cons.IH [OF this same_layout [OF s(1) Cons.prems(2)]] obtain j where
      "same l n" "j \<le> length ps" "ports_of n = steer (take j ps) slot (ports_of l)"
      "is_ok r \<longrightarrow> j = length ps" by blast
    with s show ?thesis by (intro conjI exI [of _ "Suc j"]) (auto intro: same_trans)
  qed
qed (simp add: same_refl)

lemma put_batch_spec:
  assumes run: "k_update_batch ops (pack_keys ops m ps) (pack_slot_values ops m (length ps) slot)
      (as_u32 (length ps)) m = (r, n)"
    and lay: "port_layout ops m" and len: "length ps < 2 ^ 32"
  shows "same m n \<and> (\<exists>j \<le> length ps. ports_of n = steer (take j ps) slot (ports_of m) \<and>
    (is_ok r \<longrightarrow> j = length ps))"
proof -
  have c: "as_u32 (length ps) = length ps" using len by (simp add: as_u32_def)
  from update_batch [OF run] obtain j where j: "same m n" "j \<le> length ps" "is_ok r \<longrightarrow> j = length ps"
    and view: "view n = put_segs (k_key_size ops m) (k_value_size ops m) (pack_keys ops m ps)
      (pack_slot_values ops m (length ps) slot) j (view m)"
    unfolding c by blast
  have "ports_of n p = steer (take j ps) slot (ports_of m) p" for p
    unfolding port_view_def view
    using lay j(2) seg_pack_keys [of _ ps ops m] seg_replicate [of _ "length ps" slot]
    by (intro put_segs_ports) (auto simp: pack_slot_values_layout port_layout_def)
  with j show ?thesis by blast
qed

lemma delete_batch_spec:
  assumes run: "k_delete_batch ops (pack_keys ops m ps) (as_u32 (length ps)) m = (r, n)"
    and lay: "port_layout ops m" and len: "length ps < 2 ^ 32"
  shows "same m n \<and> (\<exists>j \<le> length ps. ports_of n = unsteer (take j ps) (ports_of m) \<and>
    (is_ok r \<longrightarrow> j = length ps))"
proof -
  have c: "as_u32 (length ps) = length ps" using len by (simp add: as_u32_def)
  from delete_batch [OF run] obtain j where j: "same m n" "j \<le> length ps" "is_ok r \<longrightarrow> j = length ps"
    and view: "view n = del_segs (k_key_size ops m) (pack_keys ops m ps) j (view m)"
    unfolding c by blast
  have "ports_of n p = unsteer (take j ps) (ports_of m) p" for p
    unfolding port_view_def view
    using lay j(2) seg_pack_keys [of _ ps ops m] by (intro del_segs_ports) auto
  with j show ?thesis by blast
qed

end

subsection \<open>The loops\<close>

lemma report_bulk_n [simp]:
  "bulk_n (report_bulk_progress pr c res) = bulk_n res"
  "bulk_missing (report_bulk_progress pr c res) = bulk_missing res"
  "used_batch (report_bulk_progress pr c res) = used_batch res"
  by (simp_all add: report_bulk_progress_def)

lemma set_take_drop_max:
  assumes "i \<le> k"
  shows "set (take j (drop i xs)) \<union> set (take k xs) = set (take (max k (i + j)) xs)"
proof (cases "i + j \<le> k")
  case True
  have "take j (drop i xs) = drop i (take (i + j) xs)" by (simp add: drop_take)
  then have "set (take j (drop i xs)) \<subseteq> set (take k xs)"
    using set_drop_subset [of i "take (i + j) xs"] set_take_subset_set_take [OF True, of xs] by auto
  then show ?thesis using True by (auto simp: max_def)
next
  case False
  have "set (take (i + j) xs) = set (take i xs) \<union> set (take j (drop i xs))"
    by (simp add: take_add)
  moreover have "set (take i xs) \<subseteq> set (take k xs)" "set (take k xs) \<subseteq> set (take (i + j) xs)"
    using assms False by (auto intro!: set_take_subset_set_take)
  ultimately show ?thesis using False by (auto simp: max_def)
qed

lemma steer_chunk:
  "i \<le> k \<Longrightarrow> steer (take j (drop i ports)) slot (steer (take k ports) slot f) =
     steer (take (max k (i + j)) ports) slot f"
  by (simp add: steer_def fun_eq_iff set_take_drop_max [symmetric, of i k j ports] disj_commute)

lemma unsteer_chunk:
  "i \<le> k \<Longrightarrow> unsteer (take j (drop i ports)) (unsteer (take k ports) f) =
     unsteer (take (max k (i + j)) ports) f"
  by (simp add: unsteer_def fun_eq_iff set_take_drop_max [symmetric, of i k j ports] disj_commute)

text \<open>How far a loop at offset \<open>i\<close> has come: at least the ports before \<open>i\<close> are done.\<close>

definition put_upto :: "port list \<Rightarrow> slot \<Rightarrow> (port \<Rightarrow> slot option) \<Rightarrow> nat \<Rightarrow> (port \<Rightarrow> slot option) \<Rightarrow> bool" where
  "put_upto ports slot f i g \<longleftrightarrow>
     i \<le> length ports \<and> (\<exists>k \<ge> i. k \<le> length ports \<and> g = steer (take k ports) slot f)"

definition del_upto :: "port list \<Rightarrow> (port \<Rightarrow> slot option) \<Rightarrow> nat \<Rightarrow> (port \<Rightarrow> slot option) \<Rightarrow> bool" where
  "del_upto ports f i g \<longleftrightarrow>
     i \<le> length ports \<and> (\<exists>k \<ge> i. k \<le> length ports \<and> g = unsteer (take k ports) f)"

lemma put_upto_step:
  assumes "put_upto ports slot f i g" "j \<le> length (take c (drop i ports))"
    and "h = steer (take j (take c (drop i ports))) slot g"
  shows "put_upto ports slot f i h \<and> (j = length (take c (drop i ports)) \<longrightarrow> put_upto ports slot f (i + j) h)"
proof -
  obtain k where k: "i \<le> k" "k \<le> length ports" "g = steer (take k ports) slot f" "i \<le> length ports"
    using assms(1) by (auto simp: put_upto_def)
  have j: "i + j \<le> length ports" "j \<le> c" using assms(2) k(4) by auto
  then have "h = steer (take (max k (i + j)) ports) slot f"
    using assms(3) k steer_chunk [OF k(1), of j ports slot f] by (simp add: min_def)
  moreover have "i \<le> max k (i + j)" "i + j \<le> max k (i + j)" "max k (i + j) \<le> length ports"
    using k(1,2) j(1) by auto
  ultimately show ?thesis using k(4) j(1) unfolding put_upto_def by blast
qed

lemma del_upto_step:
  assumes "del_upto ports f i g" "j \<le> length (take c (drop i ports))"
    and "h = unsteer (take j (take c (drop i ports))) g"
  shows "del_upto ports f i h \<and> (j = length (take c (drop i ports)) \<longrightarrow> del_upto ports f (i + j) h)"
proof -
  obtain k where k: "i \<le> k" "k \<le> length ports" "g = unsteer (take k ports) f" "i \<le> length ports"
    using assms(1) by (auto simp: del_upto_def)
  have j: "i + j \<le> length ports" "j \<le> c" using assms(2) k(4) by auto
  then have "h = unsteer (take (max k (i + j)) ports) f"
    using assms(3) k unsteer_chunk [OF k(1), of j ports f] by (simp add: min_def)
  moreover have "i \<le> max k (i + j)" "i + j \<le> max k (i + j)" "max k (i + j) \<le> length ports"
    using k(1,2) j(1) by auto
  ultimately show ?thesis using k(4) j(1) unfolding del_upto_def by blast
qed

context kernel_map
begin

lemma bulk_put_loop_spec:
  assumes "bulk_put_loop ops ports slot b pr use_batch i res m = (r, n)"
    and "put_upto ports slot f i (ports_of m)" "bulk_n res = i" "port_layout ops m"
    and "length ports < 2 ^ 32"
  shows "same m n \<and> put_upto ports slot f 0 (ports_of n) \<and>
    (\<forall>res'. r = Inr res' \<longrightarrow> put_upto ports slot f (length ports) (ports_of n) \<and> bulk_n res' = length ports)"
    (is "?goal m n r")
  using assms
proof (induction "2 * (length ports - i) + of_bool use_batch" arbitrary: use_batch i res m rule: less_induct)
  case less
  define stop where "stop = min (i + effective_batch b) (length ports)"
  define chunk where "chunk = take (stop - i) (drop i ports)"
  have upto0: "put_upto ports slot f 0 h" if "put_upto ports slot f j h" for j h
    using that by (auto simp: put_upto_def)
  show ?case
  proof (cases "i < length ports")
    case False
    then have "r = Inr res" "n = m" "i = length ports"
      using less.prems(1,2) by (subst (asm) bulk_put_loop.simps, simp add: put_upto_def)+
    then show ?thesis using less.prems upto0 by (auto simp: same_refl)
  next
    case i: True
    have len: "i + length chunk = stop" "i < stop" "stop \<le> length ports"
      using i effective_batch_pos [of b] by (auto simp: min_def chunk_def stop_def)
    have short: "length chunk < 2 ^ 32" using less.prems(5) len by linarith
    have dec: "2 * (length ports - stop) + of_bool ub < 2 * (length ports - i) + of_bool ub'" for ub ub'
      using len(2) i by (cases ub; cases ub'; simp)
    note unf = less.prems(1) [unfolded bulk_put_loop.simps [of ops ports slot b pr use_batch i res m],
        folded stop_def, unfolded Let_def, folded chunk_def, unfolded if_P [OF i]]
    have rec: "?goal l n r" if "bulk_put_loop ops ports slot b pr ub stop res' l = (r, n)"
      "put_upto ports slot f stop (ports_of l)" "bulk_n res' = stop" "same m l" for ub res' l
      using less.hyps [OF dec that(1-3) same_layout [OF that(4) less.prems(4)] less.prems(5)] .
    have tr: "?goal l n r \<Longrightarrow> same m l \<Longrightarrow> ?goal m n r" for l
      using same_trans by blast
    show ?thesis
    proof (cases use_batch)
      case True
      obtain q l where l: "k_update_batch ops (pack_keys ops m chunk)
          (pack_slot_values ops m (length chunk) slot) (as_u32 (length chunk)) m = (q, l)" by fastforce
      from put_batch_spec [OF l less.prems(4) short] obtain j where j: "same m l" "j \<le> length chunk"
        "ports_of l = steer (take j chunk) slot (ports_of m)" "is_ok q \<longrightarrow> j = length chunk" by blast
      note up = put_upto_step [OF less.prems(2), of j "stop - i", folded chunk_def, OF j(2,3)]
      show ?thesis
      proof (cases q)
        case (Inr u)
        then have done_l: "put_upto ports slot f stop (ports_of l)" using up j(4) len(1) by simp
        have run: "bulk_put_loop ops ports slot b pr True stop (report_bulk_progress pr (length ports)
            (res\<lparr>bulk_n := bulk_n res + length chunk, used_batch := True\<rparr>)) l = (r, n)" using unf True l Inr by simp
        show ?thesis
          by (rule tr [OF rec [OF run done_l _ j(1)] j(1)]) (use len(1) less.prems(3) in simp)
      next
        case (Inl e)
        show ?thesis
        proof (cases "bulk_n res = 0")
          case fb: True
          have drop: "2 * (length ports - i) + of_bool False < 2 * (length ports - i) + of_bool use_batch"
            using True by simp
          have run: "bulk_put_loop ops ports slot b pr False i res l = (r, n)" using unf True l Inl fb by simp
          show ?thesis
            by (rule tr [OF less.hyps [OF drop run conjunct1 [OF up] less.prems(3)
                  same_layout [OF j(1) less.prems(4)] less.prems(5)] j(1)])
        next
          case False
          then have "r = Inl (Ctx (InBatchUpdate i) (KernE e))" "n = l" using unf True l Inl by simp_all
          then show ?thesis using up j(1) upto0 by auto
        qed
      qed
    next
      case False
      obtain q l where l: "put_each ops slot chunk m = (q, l)" by fastforce
      from put_each_spec [OF l less.prems(4)] obtain j where j: "same m l" "j \<le> length chunk"
        "ports_of l = steer (take j chunk) slot (ports_of m)" "is_ok q \<longrightarrow> j = length chunk" by blast
      note up = put_upto_step [OF less.prems(2), of j "stop - i", folded chunk_def, OF j(2,3)]
      show ?thesis
      proof (cases q)
        case (Inr u)
        then have done_l: "put_upto ports slot f stop (ports_of l)" using up j(4) len(1) by simp
        have run: "bulk_put_loop ops ports slot b pr False stop (report_bulk_progress pr (length ports)
            (res\<lparr>bulk_n := bulk_n res + length chunk\<rparr>)) l = (r, n)" using unf False l Inr by simp
        show ?thesis
          by (rule tr [OF rec [OF run done_l _ j(1)] j(1)]) (use len(1) less.prems(3) in simp)
      next
        case (Inl e)
        then have "r = Inl e" "n = l" using unf False l by simp_all
        then show ?thesis using up j(1) upto0 by auto
      qed
    qed
  qed
qed

lemma bulk_put_ports_spec:
  assumes "bulk_put_ports ops ports slot b pr m = (r, n)" "port_layout ops m" "length ports < 2 ^ 32"
  shows "same m n \<and> (\<exists>k \<le> length ports. ports_of n = steer (take k ports) slot (ports_of m)) \<and>
    (\<forall>res. r = Inr res \<longrightarrow> ports_of n = steer ports slot (ports_of m) \<and> bulk_n res = length ports)"
proof (cases "ports = []")
  case True
  then show ?thesis using assms by (auto simp: bulk_put_ports_def bulk_default_def same_refl)
next
  case False
  then have "bulk_put_loop ops ports slot b pr True 0 bulk_default m = (r, n)"
    using assms(1) by (simp add: bulk_put_ports_def)
  moreover have "put_upto ports slot (ports_of m) 0 (ports_of m)"
    by (auto simp: put_upto_def intro!: exI [of _ 0])
  ultimately show ?thesis
    using bulk_put_loop_spec [of ports slot b pr True 0 bulk_default m r n "ports_of m"] assms(2,3)
    by (fastforce simp: put_upto_def bulk_default_def)
qed

lemma delete_each_spec:
  "delete_each ops ps res m = (r, n) \<Longrightarrow> port_layout ops m \<Longrightarrow> same m n \<and>
     (\<exists>j \<le> length ps. ports_of n = unsteer (take j ps) (ports_of m) \<and> (is_ok r \<longrightarrow> j = length ps)) \<and>
     (\<forall>res'. r = Inr res' \<longrightarrow> bulk_n res' = bulk_n res + length ps)"
proof (induction ps arbitrary: m res)
  case (Cons p ps)
  obtain q l where l: "k_delete ops (port_key_bytes ops m p) m = (q, l)" by fastforce
  have go: ?case if "same m l" "ports_of l = unsteer [p] (ports_of m)" "bulk_n res2 = bulk_n res + 1"
    "delete_each ops ps res2 l = (r, n)" for res2
  proof -
    from Cons.IH [OF that(4) same_layout [OF that(1) Cons.prems(2)]] obtain j where
      "same l n" "j \<le> length ps" "ports_of n = unsteer (take j ps) (ports_of l)"
      "is_ok r \<longrightarrow> j = length ps" "\<forall>res'. r = Inr res' \<longrightarrow> bulk_n res' = bulk_n res2 + length ps" by blast
    note f = this
    have "same m n" using that(1) f(1) by (rule same_trans)
    moreover have "ports_of n = unsteer (take (Suc j) (p # ps)) (ports_of m)" using f(3) that(2) by simp
    moreover have "Suc j \<le> length (p # ps)" "is_ok r \<longrightarrow> Suc j = length (p # ps)" using f(2,4) by simp_all
    moreover have "\<forall>res'. r = Inr res' \<longrightarrow> bulk_n res' = bulk_n res + length (p # ps)"
    proof (intro allI impI)
      fix res' assume "r = Inr res'"
      with f(5) have "bulk_n res' = bulk_n res2 + length ps" by blast
      then show "bulk_n res' = bulk_n res + length (p # ps)" unfolding that(3) by simp
    qed
    ultimately show ?thesis by blast
  qed
  show ?case
  proof (cases q)
    case (Inr u)
    then show ?thesis
      using Cons.prems l delete_step [of m p l]
      by (intro go [of "res\<lparr>bulk_n := bulk_n res + 1\<rparr>"]) auto
  next
    case (Inl e)
    show ?thesis
    proof (cases e)
      case KNotFound
      then show ?thesis
        using Inl Cons.prems l delete_miss [of m p l]
        by (intro go [of "res\<lparr>bulk_n := bulk_n res + 1, bulk_missing := bulk_missing res + 1\<rparr>"])
          (auto simp: is_missing_key_def)
    next
      case KOther
      then have "r = Inl (Ctx (InDelete p) (KernE e))" "n = l"
        using Inl Cons.prems l by (auto simp: is_missing_key_def)
      then show ?thesis
        using delete_err [of _ m e l] l Inl by (auto simp: port_view_def [abs_def] intro!: exI [of _ 0])
    qed
  qed
qed (auto simp: same_refl)

lemma bulk_delete_loop_spec:
  assumes "bulk_delete_loop ops ports b pr i res m = (r, n)"
    and "del_upto ports f i (ports_of m)" "bulk_n res = i" "port_layout ops m"
    and "length ports < 2 ^ 32"
  shows "same m n \<and> del_upto ports f 0 (ports_of n) \<and>
    (\<forall>res'. r = Inr res' \<longrightarrow> del_upto ports f (length ports) (ports_of n) \<and> bulk_n res' = length ports)"
    (is "?goal m n r")
  using assms
proof (induction "length ports - i" arbitrary: i res m rule: less_induct)
  case less
  define stop where "stop = min (i + effective_batch b) (length ports)"
  define chunk where "chunk = take (stop - i) (drop i ports)"
  have upto0: "del_upto ports f 0 h" if "del_upto ports f j h" for j h
    using that by (auto simp: del_upto_def)
  show ?case
  proof (cases "i < length ports")
    case False
    then have "r = Inr res" "n = m" "i = length ports"
      using less.prems(1,2) by (subst (asm) bulk_delete_loop.simps, simp add: del_upto_def)+
    then show ?thesis using less.prems upto0 by (auto simp: same_refl)
  next
    case i: True
    have len: "i + length chunk = stop" "i < stop" "stop \<le> length ports"
      using i effective_batch_pos [of b] by (auto simp: min_def chunk_def stop_def)
    have short: "length chunk < 2 ^ 32" using less.prems(5) len by linarith
    have dec: "length ports - stop < length ports - i" using len(2) i by simp
    note unf = less.prems(1) [unfolded bulk_delete_loop.simps [of ops ports b pr i res m],
        folded stop_def, unfolded Let_def, folded chunk_def, unfolded if_P [OF i]]
    have rec: "?goal m n r" if "bulk_delete_loop ops ports b pr stop res' l = (r, n)"
      "del_upto ports f stop (ports_of l)" "bulk_n res' = stop" "same m l" for res' l
      using less.hyps [OF dec that(1-3) same_layout [OF that(4) less.prems(4)] less.prems(5)] same_trans [OF that(4)]
      by blast
    obtain q l where l: "k_delete_batch ops (pack_keys ops m chunk) (as_u32 (length chunk)) m = (q, l)"
      by fastforce
    from delete_batch_spec [OF l less.prems(4) short] obtain j where j: "same m l" "j \<le> length chunk"
      "ports_of l = unsteer (take j chunk) (ports_of m)" "is_ok q \<longrightarrow> j = length chunk" by blast
    note up = del_upto_step [OF less.prems(2), of j "stop - i", folded chunk_def, OF j(2,3)]
    show ?thesis
    proof (cases q)
      case (Inr u)
      then have done_l: "del_upto ports f stop (ports_of l)" using up j(4) len(1) by simp
      have run: "bulk_delete_loop ops ports b pr stop (report_bulk_progress pr (length ports)
          (res\<lparr>bulk_n := bulk_n res + length chunk, used_batch := True\<rparr>)) l = (r, n)" using unf l Inr by simp
      show ?thesis by (rule rec [OF run done_l _ j(1)]) (use len(1) less.prems(3) in simp)
    next
      case (Inl e)
      obtain q2 k where k: "delete_each ops chunk res l = (q2, k)" by fastforce
      from delete_each_spec [OF k same_layout [OF j(1) less.prems(4)]] obtain j2 where j2: "same l k"
        "j2 \<le> length chunk" "ports_of k = unsteer (take j2 chunk) (ports_of l)"
        "is_ok q2 \<longrightarrow> j2 = length chunk" "\<forall>res'. q2 = Inr res' \<longrightarrow> bulk_n res' = bulk_n res + length chunk"
        by blast
      note up2 = del_upto_step [OF conjunct1 [OF up], of j2 "stop - i", folded chunk_def, OF j2(2,3)]
      note sk = same_trans [OF j(1) j2(1)]
      show ?thesis
      proof (cases q2)
        case (Inl e2)
        then have "r = Inl e2" "n = k" using unf l \<open>q = Inl e\<close> k by simp_all
        then show ?thesis using up2 sk upto0 by auto
      next
        case (Inr res2)
        then have done_k: "del_upto ports f stop (ports_of k)" using up2 j2(4) len(1) by simp
        have run: "bulk_delete_loop ops ports b pr stop (report_bulk_progress pr (length ports) res2) k = (r, n)"
          using unf l \<open>q = Inl e\<close> k Inr by simp
        have "bulk_n res2 = bulk_n res + length chunk" using j2(5) Inr by blast
        then have "bulk_n (report_bulk_progress pr (length ports) res2) = stop"
          using len(1) less.prems(3) by simp
        then show ?thesis by (rule rec [OF run done_k _ sk])
      qed
    qed
  qed
qed

lemma bulk_delete_ports_spec:
  assumes "bulk_delete_ports ops ports b pr m = (r, n)" "port_layout ops m" "length ports < 2 ^ 32"
  shows "same m n \<and> (\<exists>k \<le> length ports. ports_of n = unsteer (take k ports) (ports_of m)) \<and>
    (\<forall>res. r = Inr res \<longrightarrow> ports_of n = unsteer ports (ports_of m) \<and> bulk_n res = length ports)"
proof (cases "ports = []")
  case True
  then show ?thesis using assms by (auto simp: bulk_delete_ports_def bulk_default_def same_refl)
next
  case False
  then have "bulk_delete_loop ops ports b pr 0 bulk_default m = (r, n)"
    using assms(1) by (simp add: bulk_delete_ports_def)
  moreover have "del_upto ports (ports_of m) 0 (ports_of m)"
    by (auto simp: del_upto_def intro!: exI [of _ 0])
  ultimately show ?thesis
    using bulk_delete_loop_spec [of ports b pr 0 bulk_default m r n "ports_of m"] assms(2,3)
    by (fastforce simp: del_upto_def bulk_default_def)
qed

lemma port_from_port_bytes: "port_from_key ops (port_bytes (k_le ops) p) = p"
proof -
  obtain a b where ab: "port_bytes (k_le ops) p = [a, b]"
    by (cases "k_le ops") (simp_all add: port_bytes_def Let_def)
  then show ?thesis using port_of_port_bytes [OF ab] by (simp add: port_from_key_def)
qed

lemma read_map_loop_spec:
  "read_map_loop ops m ks cur = Inr cur' \<Longrightarrow> port_layout ops m \<Longrightarrow> om_wf cur \<Longrightarrow>
   set ks \<subseteq> dom (view m) \<Longrightarrow>
   om_wf cur' \<and> om_get cur' = (\<lambda>p. if port_bytes (k_le ops) p \<in> set ks then ports_of m p else om_get cur p)"
proof (induction ks arbitrary: cur)
  case (Cons k ks)
  obtain v where v: "view m k = Some v" using Cons.prems(4) by auto
  then have "length k = 2" using entry_sizes [OF v] Cons.prems(2) by (simp add: port_layout_def)
  then obtain p where k: "k = port_bytes (k_le ops) p" using length_2_port_bytes by blast
  obtain found where found: "k_lookup ops m k = Inr found"
    using Cons.prems(1) by (auto simp: k split: sum.splits)
  then have "found = Some v" using lookup [OF _ found] Cons.prems(2) v by (simp add: port_layout_def)
  then have "read_map_loop ops m ks (om_insert p (first_byte v) cur) = Inr cur'"
    using Cons.prems(1) found by (simp add: k port_from_port_bytes)
  from Cons.IH [OF this Cons.prems(2)] Cons.prems(3,4)
  have "om_wf cur'" "om_get cur' = (\<lambda>q. if port_bytes (k_le ops) q \<in> set ks then ports_of m q
      else om_get (om_insert p (first_byte v) cur) q)" by simp_all
  then show ?case using v Cons.prems(3) by (auto simp: k port_view_def fun_eq_iff)
qed auto

lemma read_map_spec:
  assumes "read_map ops m = Inr cur" "port_layout ops m"
  shows "om_wf cur \<and> om_get cur = ports_of m"
proof -
  have "om_wf cur \<and> om_get cur =
      (\<lambda>p. if port_bytes (k_le ops) p \<in> set (k_keys ops m) then ports_of m p else om_get om_empty p)"
    using assms keys [of m] by (intro read_map_loop_spec) (simp_all add: read_map_def port_layout_def)
  then show ?thesis using keys [of m] assms(2) by (auto simp: om_get_empty port_view_def fun_eq_iff port_layout_def)
qed

lemma remove_each_spec:
  "remove_each ops ps m = (r, n) \<Longrightarrow> port_layout ops m \<Longrightarrow> same m n \<and>
     (\<exists>j \<le> length ps. ports_of n = unsteer (take j ps) (ports_of m) \<and> (is_ok r \<longrightarrow> j = length ps))"
proof (induction ps arbitrary: m)
  case (Cons p ps)
  obtain q l where l: "k_delete ops (port_key_bytes ops m p) m = (q, l)" by fastforce
  show ?case
  proof (cases q)
    case (Inl e)
    with Cons.prems l delete_err [of _ m e l] show ?thesis
      by (auto simp: port_view_def [abs_def] intro!: exI [of _ 0])
  next
    case (Inr u)
    with l delete_step [of m p l] Cons.prems(2)
    have s: "same m l" "ports_of l = unsteer [p] (ports_of m)" by auto
    have "remove_each ops ps l = (r, n)" using Cons.prems(1) l Inr by simp
    from Cons.IH [OF this same_layout [OF s(1) Cons.prems(2)]] obtain j where
      "same l n" "j \<le> length ps" "ports_of n = unsteer (take j ps) (ports_of l)"
      "is_ok r \<longrightarrow> j = length ps" by blast
    with s show ?thesis by (intro conjI exI [of _ "Suc j"]) (auto intro: same_trans [OF s(1)])
  qed
qed (auto simp: same_refl)

end

subsection \<open>The effect of a plan\<close>

text \<open>A plan carried out up to any point: some puts, then some deletes.\<close>

definition plan_progress :: "reconcile_plan \<Rightarrow> nat \<Rightarrow> nat \<Rightarrow> nat \<Rightarrow> (port \<Rightarrow> slot option) \<Rightarrow> port \<Rightarrow> slot option" where
  "plan_progress pl i j k f =
     unsteer (take k (plan_delete pl))
       (steer (take j (put_tls pl)) redir_tls (steer (take i (put_primary pl)) redir_primary f))"

lemma slots_of: "om_wf d \<Longrightarrow> \<forall>e \<in> set d. slot_ok (snd e) \<Longrightarrow> om_get d p = Some b \<Longrightarrow>
    b_slot b = redir_primary \<or> b_slot b = redir_tls"
  by (auto simp: om_get_Some_iff slot_ok_def)

lemma plan_progress_safe:
  assumes "om_wf d" "\<forall>e \<in> set d. slot_ok (snd e)" "om_get cur = f"
  shows "plan_progress (plan d cur) i j k f p \<in> {f p, slot_map d p}"
proof -
  have tk: "x \<in> set (take n xs) \<Longrightarrow> x \<in> set xs" for x n and xs :: "port list" by (rule in_set_takeD)
  have del: "p \<in> set (take k (plan_delete (plan d cur))) \<Longrightarrow> slot_map d p = None"
    by (drule tk) (simp add: set_plan_delete slot_map_def)
  have tls: "p \<in> set (take j (put_tls (plan d cur))) \<Longrightarrow> slot_map d p = Some redir_tls"
    by (drule tk) (auto simp: set_put_tls [OF assms(1)] slot_map_def)
  have pri: "p \<in> set (take i (put_primary (plan d cur))) \<Longrightarrow> slot_map d p = Some redir_primary"
    by (drule tk) (auto simp: set_put_primary [OF assms(1)] slot_map_def dest: slots_of [OF assms(1,2)])
  show ?thesis using del tls pri by (auto simp: plan_progress_def steer_def unsteer_def)
qed

lemma plan_progress_complete:
  assumes "om_wf d" "\<forall>e \<in> set d. slot_ok (snd e)" "om_get cur = f"
    and "i = length (put_primary (plan d cur))" "j = length (put_tls (plan d cur))"
    "k = length (plan_delete (plan d cur))"
  shows "plan_progress (plan d cur) i j k f = slot_map d"
proof
  fix p
  show "plan_progress (plan d cur) i j k f p = slot_map d p"
    using assms(3) slots_of [OF assms(1,2), of p]
    by (cases "om_get d p")
      (auto simp: plan_progress_def steer_def unsteer_def set_plan_delete set_put_tls [OF assms(1)]
        set_put_primary [OF assms(1)] slot_map_def assms(4-6))
qed

context kernel_map
begin

lemma reconcile_map_spec:
  assumes run: "reconcile_map ops d m = (r, n)" and lay: "port_layout ops m"
    and d: "om_wf d" "\<forall>e \<in> set d. slot_ok (snd e)"
  shows "same m n \<and> (\<forall>p. ports_of n p \<in> {ports_of m p, slot_map d p}) \<and>
    (is_ok r \<longrightarrow> ports_of n = slot_map d)"
proof (cases "read_map ops m")
  case (Inl e)
  then show ?thesis using run by (auto simp: reconcile_map_def sbind_def act_simps same_refl)
next
  case (Inr cur)
  let ?pl = "plan d cur"
  have cur: "om_wf cur" "om_get cur = ports_of m" using read_map_spec [OF Inr lay] by simp_all
  note safe = plan_progress_safe [OF d cur(2)] and complete = plan_progress_complete [OF d cur(2)]
  obtain r1 n1 where 1: "put_each ops redir_primary (put_primary ?pl) m = (r1, n1)" by fastforce
  obtain r2 n2 where 2: "put_each ops redir_tls (put_tls ?pl) n1 = (r2, n2)" by fastforce
  obtain r3 n3 where 3: "remove_each ops (plan_delete ?pl) n2 = (r3, n3)" by fastforce
  from put_each_spec [OF 1 lay] obtain i where i: "same m n1"
    "ports_of n1 = steer (take i (put_primary ?pl)) redir_primary (ports_of m)"
    "is_ok r1 \<longrightarrow> i = length (put_primary ?pl)" by blast
  from put_each_spec [OF 2 same_layout [OF i(1) lay]] obtain j where j: "same n1 n2"
    "ports_of n2 = steer (take j (put_tls ?pl)) redir_tls (ports_of n1)"
    "is_ok r2 \<longrightarrow> j = length (put_tls ?pl)" by blast
  note s2 = same_trans [OF i(1) j(1)]
  from remove_each_spec [OF 3 same_layout [OF s2 lay]] obtain k where k: "same n2 n3"
    "ports_of n3 = unsteer (take k (plan_delete ?pl)) (ports_of n2)"
    "is_ok r3 \<longrightarrow> k = length (plan_delete ?pl)" by blast
  note s3 = same_trans [OF s2 k(1)]
  have p1: "ports_of n1 = plan_progress ?pl i 0 0 (ports_of m)"
    and p2: "ports_of n2 = plan_progress ?pl i j 0 (ports_of m)"
    and p3: "ports_of n3 = plan_progress ?pl i j k (ports_of m)"
    using i(2) j(2) k(2) by (simp_all add: plan_progress_def)
  have s1: "\<forall>p. ports_of n1 p \<in> {ports_of m p, slot_map d p}"
    and sa2: "\<forall>p. ports_of n2 p \<in> {ports_of m p, slot_map d p}"
    and sa3: "\<forall>p. ports_of n3 p \<in> {ports_of m p, slot_map d p}"
    unfolding p1 p2 p3 using safe by blast+
  note unf = run [unfolded reconcile_map_def getr_def sbind_def Inr Let_def, simplified, unfolded 1, simplified]
  show ?thesis
  proof (cases r1)
    case (Inl e)
    then have "n = n1" "\<not> is_ok r" using unf by auto
    then show ?thesis using i(1) s1 by simp
  next
    case r1: (Inr u)
    show ?thesis
    proof (cases r2)
      case (Inl e)
      then have "n = n2" "\<not> is_ok r" using unf r1 2 by auto
      then show ?thesis using s2 sa2 by simp
    next
      case r2: (Inr u)
      then have n: "n = n3" "is_ok r = is_ok r3"
        using unf r1 2 3 by (auto simp: act_simps split: sum.splits)
      have "ports_of n3 = slot_map d" if "is_ok r3"
        unfolding p3 using that i(3) j(3) k(3) r1 r2 by (intro complete) auto
      then show ?thesis using n s3 sa3 by simp
    qed
  qed
qed

end

subsection \<open>On a healthy map nothing fails\<close>

lemma port_keys_bound:
  fixes K :: "bytes set"
  assumes "\<forall>k \<in> K. length k = 2"
  shows "card K \<le> 65536"
proof -
  have "K \<subseteq> range (port_bytes True)" using assms length_2_port_bytes by blast
  then have "card K \<le> card (range (port_bytes True))" by (intro card_mono) simp_all
  also have "\<dots> \<le> card (UNIV :: port set)" by (rule card_image_le) simp
  finally show ?thesis by (simp add: card_word)
qed

definition roomy :: "'m kops \<Rightarrow> 'm \<Rightarrow> bool" where
  "roomy ops m \<longleftrightarrow> port_layout ops m \<and> k_max_entries ops m = open_ports_max_entries"

context healthy_map
begin

lemma roomy_same: "same m n \<Longrightarrow> roomy ops m \<Longrightarrow> roomy ops n"
  using same_sizes [of m n] by (simp add: roomy_def port_layout_def)

lemma roomy_layout: "roomy ops m \<Longrightarrow> port_layout ops m"
  by (simp add: roomy_def)

lemma room:
  assumes "roomy ops m" "\<forall>k \<in> K. length k = 2"
  shows "card (dom (view m) \<union> K) \<le> k_max_entries ops m"
proof -
  have "card (dom (view m) \<union> K) \<le> 65536"
    using assms entry_sizes by (intro port_keys_bound) (auto simp: roomy_def port_layout_def)
  then show ?thesis using assms(1) by (simp add: roomy_def open_ports_max_entries_def)
qed

lemma put_total:
  assumes "roomy ops m"
  shows "\<exists>n. k_update ops (port_key_bytes ops m p) (slot_value_bytes ops m slot) m = (Inr (), n) \<and> same m n"
proof -
  have "is_ok (fst (k_update ops (port_key_bytes ops m p) (slot_value_bytes ops m slot) m))"
    using assms roomy_layout [OF assms] room [OF assms, of "{port_bytes (k_le ops) p}"]
    by (intro update_total) (simp_all add: port_layout_def)
  then show ?thesis
    using update_ok by (cases "k_update ops (port_key_bytes ops m p) (slot_value_bytes ops m slot) m")
      (auto simp: is_ok_iff)
qed

lemma put_each_total: "roomy ops m \<Longrightarrow> \<exists>n. put_each ops slot ps m = (Inr (), n) \<and> same m n"
proof (induction ps arbitrary: m)
  case (Cons p ps)
  obtain l where l: "k_update ops (port_key_bytes ops m p) (slot_value_bytes ops m slot) m = (Inr (), l)"
    "same m l" using put_total [OF Cons.prems] by blast
  obtain n where "put_each ops slot ps l = (Inr (), n)" "same l n"
    using Cons.IH [OF roomy_same [OF l(2) Cons.prems]] by blast
  then show ?case using l same_trans [OF l(2)] by auto
qed (simp add: same_refl)

lemma put_batch_total:
  assumes "roomy ops m" "length ps < 2 ^ 32" "batch m"
  shows "is_ok (fst (k_update_batch ops (pack_keys ops m ps) (pack_slot_values ops m (length ps) slot)
    (as_u32 (length ps)) m))"
proof -
  have c: "as_u32 (length ps) = length ps" using assms(2) by (simp add: as_u32_def)
  have lay: "port_layout ops m" by (rule roomy_layout [OF assms(1)])
  have "\<forall>k \<in> seg (k_key_size ops m) (pack_keys ops m ps) ` {..<length ps}. length k = 2"
    using seg_pack_keys [of _ ps ops m] lay by auto
  then show ?thesis unfolding c
    using assms(3) lay room [OF assms(1)]
    by (intro update_batch_total)
      (simp_all add: length_pack_keys pack_slot_values_layout port_layout_def)
qed

lemma bulk_put_loop_total:
  assumes "roomy ops m" "length ports < 2 ^ 32" "use_batch \<Longrightarrow> batch m \<or> bulk_n res = 0"
  shows "is_ok (fst (bulk_put_loop ops ports slot b pr use_batch i res m))"
  using assms
proof (induction "2 * (length ports - i) + of_bool use_batch" arbitrary: use_batch i res m rule: less_induct)
  case less
  define stop where "stop = min (i + effective_batch b) (length ports)"
  define chunk where "chunk = take (stop - i) (drop i ports)"
  show ?case
  proof (cases "i < length ports")
    case False
    then show ?thesis by (subst bulk_put_loop.simps) simp
  next
    case i: True
    have len: "i + length chunk = stop" "i < stop" "stop \<le> length ports"
      using i effective_batch_pos [of b] by (auto simp: min_def chunk_def stop_def)
    have short: "length chunk < 2 ^ 32" "0 < as_u32 (length chunk)"
      using less.prems(2) len by (simp_all add: as_u32_def) auto
    have dec: "2 * (length ports - stop) + of_bool ub < 2 * (length ports - i) + of_bool ub'" for ub ub'
      using len(2) i by (cases ub; cases ub'; simp)
    note unf = bulk_put_loop.simps [of ops ports slot b pr use_batch i res m, folded stop_def,
        unfolded Let_def, folded chunk_def, unfolded if_P [OF i]]
    show ?thesis
    proof (cases use_batch)
      case True
      obtain q l where l: "k_update_batch ops (pack_keys ops m chunk)
          (pack_slot_values ops m (length chunk) slot) (as_u32 (length chunk)) m = (q, l)" by fastforce
      then have sm: "same m l" using update_batch by blast
      note rl = roomy_same [OF sm less.prems(1)]
      show ?thesis
      proof (cases q)
        case (Inr u)
        then have "batch m" using update_batch_none [OF _ short(2)] l by (metis fst_conv is_ok.simps(2))
        then have bl: "batch l" using batch_same [OF sm] by simp
        show ?thesis unfolding unf using True l Inr bl
          by (simp add: less.hyps [OF dec rl less.prems(2)])
      next
        case (Inl e)
        then have "\<not> batch m" using put_batch_total [OF less.prems(1) short(1)] l by (metis fst_conv is_ok.simps(1))
        then have z: "bulk_n res = 0" using less.prems(3) True by blast
        have drop: "2 * (length ports - i) + of_bool False < 2 * (length ports - i) + of_bool use_batch"
          using True by simp
        have "is_ok (fst (bulk_put_loop ops ports slot b pr False i res l))"
          by (rule less.hyps [OF drop rl less.prems(2)]) simp
        then show ?thesis unfolding unf using True l Inl z by simp
      qed
    next
      case False
      obtain l where l: "put_each ops slot chunk m = (Inr (), l)" "same m l"
        using put_each_total [OF less.prems(1)] by blast
      have "is_ok (fst (bulk_put_loop ops ports slot b pr False stop res' l))" for res'
        by (rule less.hyps [OF dec roomy_same [OF l(2) less.prems(1)] less.prems(2)]) simp
      then show ?thesis unfolding unf using False l by simp
    qed
  qed
qed

lemma bulk_put_ports_total:
  "roomy ops m \<Longrightarrow> length ports < 2 ^ 32 \<Longrightarrow> is_ok (fst (bulk_put_ports ops ports slot b pr m))"
  by (simp add: bulk_put_ports_def bulk_put_loop_total bulk_default_def)

lemma delete_each_total: "port_layout ops m \<Longrightarrow> \<exists>res' n. delete_each ops ps res m = (Inr res', n) \<and> same m n"
proof (induction ps arbitrary: m res)
  case (Cons p ps)
  obtain q l where l: "k_delete ops (port_key_bytes ops m p) m = (q, l)" by fastforce
  then have sm: "same m l" using delete_ok [of _ m l] delete_err [of _ m _ l] by (cases q) auto
  have q: "is_ok q \<or> q = Inl KNotFound"
    using delete_total [of "port_key_bytes ops m p" m] l Cons.prems by (simp add: port_layout_def)
  have "\<exists>res' n. delete_each ops ps res2 l = (Inr res', n) \<and> same m n" for res2
    using Cons.IH [OF same_layout [OF sm Cons.prems], of res2] same_trans [OF sm] by blast
  then show ?case using l q by (auto simp: is_ok_iff is_missing_key_def)
qed (auto simp: same_refl)

lemma bulk_delete_loop_total:
  assumes "port_layout ops m"
  shows "is_ok (fst (bulk_delete_loop ops ports b pr i res m))"
  using assms
proof (induction "length ports - i" arbitrary: i res m rule: less_induct)
  case less
  define stop where "stop = min (i + effective_batch b) (length ports)"
  define chunk where "chunk = take (stop - i) (drop i ports)"
  show ?case
  proof (cases "i < length ports")
    case False
    then show ?thesis by (subst bulk_delete_loop.simps) simp
  next
    case i: True
    have "i < stop" using i effective_batch_pos [of b] by (simp add: stop_def)
    then have dec: "length ports - stop < length ports - i" using i by simp
    note unf = bulk_delete_loop.simps [of ops ports b pr i res m, folded stop_def, unfolded Let_def,
        folded chunk_def, unfolded if_P [OF i]]
    obtain q l where l: "k_delete_batch ops (pack_keys ops m chunk) (as_u32 (length chunk)) m = (q, l)"
      by fastforce
    then have sm: "same m l" using delete_batch by blast
    note lay = same_layout [OF sm less.prems]
    obtain res2 k where k: "delete_each ops chunk res l = (Inr res2, k)" "same l k"
      using delete_each_total [OF lay] by blast
    show ?thesis unfolding unf using l k less.hyps [OF dec] lay same_layout [OF k(2) lay]
      by (cases q) simp_all
  qed
qed

lemma bulk_delete_ports_total: "port_layout ops m \<Longrightarrow> is_ok (fst (bulk_delete_ports ops ports b pr m))"
  by (simp add: bulk_delete_ports_def bulk_delete_loop_total)

lemma read_map_total: "port_layout ops m \<Longrightarrow> is_ok (read_map ops m)"
proof -
  have "is_ok (read_map_loop ops m ks cur)" for ks cur
  proof (induction ks arbitrary: cur)
    case (Cons k ks)
    obtain found where "k_lookup ops m k = Inr found" using lookup_total by (auto simp: is_ok_iff)
    then show ?case using Cons.IH by simp
  qed simp
  then show ?thesis by (simp add: read_map_def)
qed

end

end
