(* ===== verification/State_Files.thy ===== *)
theory State_Files
  imports Complex_Main Bulk
begin

text \<open>
  The small state files of \<open>rust/loader/src/freeze.rs\<close> and \<open>metrics.rs\<close>: the freeze gate, the
  failure counter and the apply stamp, and the capacity snapshot computed from the map's size.
\<close>

subsection \<open>The freeze gate\<close>

definition default_freeze_file :: path where
  "default_freeze_file = [''/'', ''run'', ''waf-sklookup'', ''frozen'']"

definition is_frozen :: "path \<Rightarrow> fsys \<Rightarrow> bool" where
  "is_frozen path fs \<longleftrightarrow> fs_exists path fs"

definition set_frozen :: "path \<Rightarrow> (fsys, unit) act" where
  "set_frozen path = fs_run [Mkdir (parent_or_dot path), Create path]"

definition clear_frozen :: "path \<Rightarrow> (fsys, unit) act" where
  "clear_frozen path fs =
     (case fs_do (Remove path) fs of
        (Inr _, fs1) \<Rightarrow> (Inr (), fs1)
      | (Inl e, fs1) \<Rightarrow>
          (case e of IoE (NotFound _) \<Rightarrow> (Inr (), fs1) | _ \<Rightarrow> (Inl e, fs1)))"

fun join :: "string \<Rightarrow> string list \<Rightarrow> string" where
  "join sep [] = []"
| "join sep [s] = s"
| "join sep (s # t # ts) = s @ sep @ join sep (t # ts)"

definition ports_text :: "port list \<Rightarrow> string" where
  "ports_text ports =
     (case ports of
        [] \<Rightarrow> ''none''
      | [p] \<Rightarrow> show_port p
      | ps \<Rightarrow> if length ps \<le> 16 then join '','' (map show_port ps)
              else ''count='' @ show_nat (length ps))"

definition reject_if_frozen :: "path \<Rightarrow> string \<Rightarrow> string \<Rightarrow> string \<Rightarrow> port list \<Rightarrow> fsys \<Rightarrow> err + unit" where
  "reject_if_frozen path op tenant site ports fs =
     (if is_frozen path fs then Inl (CtlE (Frozen op tenant site (ports_text ports))) else Inr ())"

lemma set_frozen_frozen: "set_frozen path fs = (Inr (), fs') \<Longrightarrow> is_frozen path fs'"
  by (auto simp: set_frozen_def act_simps fs_do_Inr_iff is_frozen_def fs_exists_def)

lemma clear_frozen_clears: "clear_frozen path fs = (Inr (), fs') \<Longrightarrow> \<not> is_frozen path fs'"
  by (auto simp: clear_frozen_def fs_do_def is_frozen_def fs_exists_def
      split: if_splits option.splits err.splits io_err.splits)

lemma reject_if_frozen_iff: "reject_if_frozen path op te si ps fs = Inr () \<longleftrightarrow> \<not> is_frozen path fs"
  by (simp add: reject_if_frozen_def)

subsection \<open>Metrics\<close>

definition metrics_read :: "path \<Rightarrow> fsys \<Rightarrow> nat" where
  "metrics_read path fs =
     (case fs_read path fs of
        Inl _ \<Rightarrow> 0
      | Inr s \<Rightarrow> (case parse_uint u64_max (trim s) of None \<Rightarrow> 0 | Some n \<Rightarrow> n))"

definition metrics_increment :: "path \<Rightarrow> fsys \<Rightarrow> fsys" where
  "metrics_increment path fs =
     (let next = min (metrics_read path fs + 1) u64_max;
          fs1 = (case path_parent path of Some parent \<Rightarrow> fs_try (Mkdir parent) fs | None \<Rightarrow> fs)
      in snd (fs_run (fs_write_steps path (show_nat next @ [CHR 0x0A])) fs1))"

text \<open>The time of day is read from the system; \<open>now\<close> is its RFC 3339 text.\<close>

definition write_apply_stamp :: "string \<Rightarrow> path \<Rightarrow> (fsys, unit) act" where
  "write_apply_stamp now path =
     fs_run ((case path_parent path of Some parent \<Rightarrow> [Mkdir parent] | None \<Rightarrow> [])
       @ fs_write_steps path (now @ [CHR 0x0A]))"

definition read_apply_stamp :: "path \<Rightarrow> fsys \<Rightarrow> string option" where
  "read_apply_stamp path fs =
     (case fs_read path fs of
        Inl _ \<Rightarrow> None
      | Inr s \<Rightarrow> let t = trim s in if t = [] then None else Some t)"

subsection \<open>Capacity\<close>

text \<open>
  The ratio is an IEEE double in the source. The capacity is \<open>2 ^ 17\<close> and the count at most that,
  so the double is the quotient itself.
\<close>

record capacity =
  cap_entries :: nat
  cap_max_entries :: nat
  cap_headroom :: nat
  cap_pressure :: rat

definition u32_max :: nat where "u32_max = 4294967295"

definition capacity_snapshot :: "nat \<Rightarrow> capacity" where
  "capacity_snapshot n =
     (let mx = open_ports_max_entries;
          entries = min (if n \<le> u32_max then n else u32_max) mx
      in \<lparr>cap_entries = entries, cap_max_entries = mx, cap_headroom = mx - entries,
          cap_pressure = of_nat entries / of_nat mx\<rparr>)"

lemma capacity_snapshot_sound:
  "cap_entries (capacity_snapshot n) = min n open_ports_max_entries"
  "cap_entries (capacity_snapshot n) + cap_headroom (capacity_snapshot n) = open_ports_max_entries"
  "0 \<le> cap_pressure (capacity_snapshot n) \<and> cap_pressure (capacity_snapshot n) \<le> 1"
  by (auto simp: capacity_snapshot_def Let_def open_ports_max_entries_def u32_max_def min_def)

subsection \<open>The counter counts\<close>

lemma trim_show_nat_nl: "trim (show_nat n @ [CHR 0x0A]) = show_nat n"
proof -
  have ws: "is_whitespace CHR 0x0A" by (simp add: is_whitespace_def)
  have dig: "c \<in> set (show_nat n) \<Longrightarrow> \<not> is_whitespace c" for c
    using show_nat_digits is_ascii_digit_not(1) by blast
  have "hd (show_nat n) \<in> set (show_nat n)" by simp
  then have "dropWhile is_whitespace (show_nat n @ [CHR 0x0A]) = show_nat n @ [CHR 0x0A]"
    using dig by (cases "show_nat n") auto
  moreover have "dropWhile is_whitespace (rev (show_nat n)) = rev (show_nat n)"
    using dig by (simp add: dropWhile_eq_self_iff hd_rev)
  ultimately show ?thesis using ws by (simp add: trim_def trim_start_def trim_end_matches_def)
qed

lemma fs_run_write:
  assumes "\<forall>st \<in> set (fs_write_steps p ys). \<not> fs_fault fs st"
  shows "fs_run (fs_write_steps p ys) fs = (Inr (), fs\<lparr>fs_files := (fs_files fs)(resolve p := Some ys)\<rparr>)"
proof -
  have app: "fs_run (map (\<lambda>c. Append p [c]) zs) g =
      (Inr (), g\<lparr>fs_files := (fs_files g)(resolve p := Some (t @ zs))\<rparr>)"
    if "\<forall>c \<in> set zs. \<not> fs_fault g (Append p [c])" "fs_files g (resolve p) = Some t" for zs t g
    using that
  proof (induction zs arbitrary: g t)
    case Nil
    then show ?case by (simp add: act_simps fun_upd_idem)
  next
    case (Cons c zs)
    let ?g = "g\<lparr>fs_files := (fs_files g)(resolve p := Some (t @ [c]))\<rparr>"
    have "fs_do (Append p [c]) g = (Inr (), ?g)" using Cons.prems by (simp add: fs_do_def)
    moreover have "fs_run (map (\<lambda>c. Append p [c]) zs) ?g =
        (Inr (), ?g\<lparr>fs_files := (fs_files ?g)(resolve p := Some ((t @ [c]) @ zs))\<rparr>)"
      using Cons.prems by (intro Cons.IH) simp_all
    ultimately show ?case by (simp add: sbind_step del: fun_upd_apply)
  qed
  let ?g = "fs\<lparr>fs_files := (fs_files fs)(resolve p := Some [])\<rparr>"
  have "fs_do (Create p) fs = (Inr (), ?g)" using assms by (simp add: fs_do_def fs_write_steps_def)
  moreover have "fs_run (map (\<lambda>c. Append p [c]) ys) ?g =
      (Inr (), ?g\<lparr>fs_files := (fs_files ?g)(resolve p := Some ([] @ ys))\<rparr>)"
    using assms by (intro app) (auto simp: fs_write_steps_def)
  ultimately show ?thesis by (simp add: fs_write_steps_def sbind_step del: fun_upd_apply)
qed

lemma metrics_increment_read:
  assumes "\<And>st. \<not> fs_fault fs st" "\<not> fs_unreadable fs (resolve path)"
  shows "metrics_read path (metrics_increment path fs) = min (metrics_read path fs + 1) u64_max"
proof -
  define n where "n = min (metrics_read path fs + 1) u64_max"
  have mk: "fs_try (Mkdir d) fs = fs" for d using assms(1) by (simp add: fs_try_def fs_do_def)
  have "metrics_increment path fs =
      fs\<lparr>fs_files := (fs_files fs)(resolve path := Some (show_nat n @ [CHR 0x0A]))\<rparr>"
    using assms(1) fs_run_write [of path "show_nat n @ [CHR 0x0A]" fs]
    by (simp add: metrics_increment_def mk n_def Let_def split: option.splits)
  then have "fs_read path (metrics_increment path fs) = Inr (show_nat n @ [CHR 0x0A])"
    using assms(2) by (simp add: fs_read_def)
  moreover have "n \<le> u64_max" by (simp add: n_def)
  ultimately have "metrics_read path (metrics_increment path fs) = n"
    by (simp add: metrics_read_def trim_show_nat_nl)
  then show ?thesis by (simp add: n_def)
qed

end
