(* ===== verification/Central.thy ===== *)
theory Central
  imports State_Files
begin

text \<open>
  \<open>rust/loader/src/central.rs\<close>: the central desired state, its checks, and the local cache that
  is written from it. The JSON text is read and printed by \<open>serde_json\<close>, which is not part of
  the program: its two functions are arguments. What the program relies on is that reading what
  was printed gives the value back.
\<close>

record central_port =
  c_tenant :: string
  c_site :: string
  c_port :: port
  c_cert :: "string option"
  c_policy :: "string option"
  c_tls :: bool

record central_state =
  c_version :: u32
  c_ports :: "central_port list"

definition central_binding :: "central_port \<Rightarrow> port_binding" where
  "central_binding e =
     \<lparr>b_slot = (if c_tls e then redir_tls else redir_primary), b_tenant = c_tenant e,
      b_site = c_site e, b_cert = c_cert e, b_policy = c_policy e\<rparr>"

definition insert_central :: "central_port \<Rightarrow> desired_ports \<Rightarrow> err + desired_ports" where
  "insert_central e d =
     (if c_port e = 0 then Inl (CentralE CentralPortZero)
      else let b = central_binding e; d2 = om_insert (c_port e) b d
           in case om_get d (c_port e) of
                Some old \<Rightarrow> if old \<noteq> b then Inl (CentralE (CentralConflict (c_port e))) else Inr d2
              | None \<Rightarrow> Inr d2)"

definition central_load_from_str :: "(string \<Rightarrow> central_state option) \<Rightarrow> string \<Rightarrow> err + desired_ports" where
  "central_load_from_str parse_json raw =
     (case parse_json raw of
        None \<Rightarrow> Inl (CentralE CentralParse)
      | Some state \<Rightarrow>
          if c_version state \<noteq> 1 then Inl (CentralE (CentralVersion (unat (c_version state))))
          else rbind (rfold insert_central (c_ports state) om_empty) (\<lambda>d.
            if length d > open_ports_max_entries then Inl (CentralE (CentralTooMany (length d)))
            else Inr d))"

definition central_load :: "(string \<Rightarrow> central_state option) \<Rightarrow> path \<Rightarrow> fsys \<Rightarrow> err + desired_ports" where
  "central_load parse_json path fs =
     rbind (with_context (InFile path) (fs_read path fs)) (\<lambda>raw.
       with_context (InFile path) (central_load_from_str parse_json raw))"

definition apply_cache ::
    "(string \<Rightarrow> central_state option) \<Rightarrow> nat \<Rightarrow> path \<Rightarrow> path \<Rightarrow> path \<Rightarrow> (fsys, desired_ports) act" where
  "apply_cache parse_json pid central_path ports_file policy_file =
     sbind (getr (central_load parse_json central_path)) (\<lambda>d.
     sbind (getr (policy_load policy_file)) (\<lambda>pol.
     sbind (lift_res (validate d pol)) (\<lambda>_.
     sbind (desired_write pid ports_file d) (\<lambda>_. ret d))))"

definition central_entry :: "port \<times> port_binding \<Rightarrow> central_port" where
  "central_entry e =
     (let (port, b) = e in
      \<lparr>c_tenant = b_tenant b, c_site = b_site b, c_port = port, c_cert = b_cert b,
       c_policy = b_policy b, c_tls = (b_slot b = redir_tls)\<rparr>)"

definition central_write :: "(central_state \<Rightarrow> string) \<Rightarrow> path \<Rightarrow> desired_ports \<Rightarrow> (fsys, unit) act" where
  "central_write print_json path d =
     (let state = \<lparr>c_version = 1, c_ports = map central_entry d\<rparr>
      in fs_run ((case path_parent path of
                    Some parent \<Rightarrow> if parent = [] then [] else [Mkdir parent] | None \<Rightarrow> [])
                 @ fs_write_steps path (print_json state)))"

subsection \<open>What is loaded\<close>

lemma insert_central_Inr:
  "insert_central e d = Inr d' \<longleftrightarrow> c_port e \<noteq> 0 \<and>
     (om_get d (c_port e) = None \<or> om_get d (c_port e) = Some (central_binding e)) \<and>
     d' = om_insert (c_port e) (central_binding e) d"
  by (auto simp: insert_central_def Let_def split: option.splits)

lemma central_binding_slot [simp]: "slot_ok (central_binding e)"
  by (simp add: slot_ok_def central_binding_def)

definition central_inv :: "desired_ports \<Rightarrow> bool" where
  "central_inv d \<longleftrightarrow> om_wf d \<and> (\<forall>e \<in> set d. fst e \<noteq> 0 \<and> slot_ok (snd e))"

lemma rfold_insert_central_inv:
  assumes "rfold insert_central es d = Inr d'" "central_inv d"
  shows "central_inv d'"
  using assms
proof (rule rfold_invariant)
  fix e s t
  assume "insert_central e s = Inr t" "central_inv s"
  then show "central_inv t"
    using set_om_insert [of "c_port e" "central_binding e" s]
    by (auto simp: insert_central_Inr central_inv_def)
qed

lemma central_load_from_str_inv: "central_load_from_str pj raw = Inr d \<Longrightarrow> central_inv d"
  using rfold_insert_central_inv [where d = om_empty]
  by (auto simp: central_load_from_str_def central_inv_def om_empty_def om_wf_def
      split: option.splits if_splits)

text \<open>Every entry of an accepted state is in the result, and nothing else is.\<close>

lemma rfold_insert_central_get:
  "rfold insert_central es d = Inr d' \<Longrightarrow> om_wf d \<Longrightarrow>
     om_get d' p = Some b \<longleftrightarrow>
       om_get d p = Some b \<or> (\<exists>e \<in> set es. c_port e = p \<and> central_binding e = b)"
proof (induction es arbitrary: d)
  case (Cons e es)
  from Cons.prems(1) obtain d1 where d1: "insert_central e d = Inr d1" "rfold insert_central es d1 = Inr d'"
    by auto
  then have "om_get d1 = (om_get d)(c_port e := Some (central_binding e))" "om_wf d1"
    and "om_get d (c_port e) = None \<or> om_get d (c_port e) = Some (central_binding e)"
    using Cons.prems(2) by (auto simp: insert_central_Inr)
  then show ?case using Cons.IH [OF d1(2)] by auto
qed simp

lemma central_load_from_str_get:
  assumes "central_load_from_str pj raw = Inr d"
  shows "\<exists>st. pj raw = Some st \<and> c_version st = 1 \<and>
    (\<forall>p b. om_get d p = Some b \<longleftrightarrow> (\<exists>e \<in> set (c_ports st). c_port e = p \<and> central_binding e = b))"
  using assms rfold_insert_central_get [where d = om_empty]
  by (auto simp: central_load_from_str_def om_get_empty split: option.splits if_splits)

subsection \<open>Printing and reading back\<close>

lemma central_binding_entry: "slot_ok b \<Longrightarrow> central_binding (central_entry (p, b)) = b"
  by (cases b) (auto simp: central_binding_def central_entry_def slot_ok_def)

lemma rfold_insert_central_entries:
  "om_wf (d1 @ d2) \<Longrightarrow> \<forall>e \<in> set d2. fst e \<noteq> 0 \<and> slot_ok (snd e) \<Longrightarrow>
     rfold insert_central (map central_entry d2) d1 = Inr (d1 @ d2)"
proof (induction d2 arbitrary: d1)
  case (Cons e d2)
  obtain p b where e: "e = (p, b)" by force
  have less: "\<forall>k \<in> set (map fst d1). k < p" using Cons.prems(1) by (simp add: e om_wf_append)
  then have "om_get d1 p = None" by (auto simp: om_get_None_iff)
  then have "insert_central (central_entry e) d1 = Inr (d1 @ [e])"
    using Cons.prems(2) om_insert_snoc [OF less, of b]
    by (simp add: insert_central_Inr e central_binding_entry) (simp add: central_entry_def)
  moreover have "rfold insert_central (map central_entry d2) (d1 @ [e]) = Inr ((d1 @ [e]) @ d2)"
    using Cons.prems by (intro Cons.IH) simp_all
  ultimately show ?case by simp
qed simp

lemma central_round_trip:
  assumes "parse_json (print_json \<lparr>c_version = 1, c_ports = map central_entry d\<rparr>) =
      Some \<lparr>c_version = 1, c_ports = map central_entry d\<rparr>"
    and "central_inv d" "length d \<le> open_ports_max_entries"
  shows "central_load_from_str parse_json (print_json \<lparr>c_version = 1, c_ports = map central_entry d\<rparr>) = Inr d"
  using assms rfold_insert_central_entries [of "[]" d]
  by (simp add: central_load_from_str_def central_inv_def om_empty_def)

subsection \<open>The cache is written only from a valid state\<close>

lemma apply_cache_Inr:
  assumes "apply_cache pj pid cp pf polf fs = (Inr d, fs')"
  shows "\<exists>pol. central_load pj cp fs = Inr d \<and> policy_load polf fs = Inr pol \<and> admissible pol d \<and>
    fs_files fs' = (fs_files fs)(resolve (tmp_path pid pf) := None, resolve pf := Some (desired_text d))"
  using assms validate_iff
  by (auto simp: apply_cache_def act_simps desired_write_def dest!: replace_file_Inr)

lemma apply_cache_Inl:
  assumes "apply_cache pj pid cp pf polf fs = (Inl e, fs')" "q \<noteq> resolve (tmp_path pid pf)"
  shows "fs_files fs' q = fs_files fs q"
  using assms
  by (auto simp: apply_cache_def act_simps sbind_fail desired_write_def dest!: replace_file_Inl)

lemma central_write_success:
  assumes "central_write print_json path d fs = (Inr (), fs')"
  shows "fs_files fs' (resolve path) = Some (print_json \<lparr>c_version = 1, c_ports = map central_entry d\<rparr>) \<and>
    fs_unreadable fs' = fs_unreadable fs"
proof -
  have "\<exists>g. fs_unreadable g = fs_unreadable fs \<and>
      fs_run (fs_write_steps path (print_json \<lparr>c_version = 1, c_ports = map central_entry d\<rparr>)) g = (Inr (), fs')"
    using assms
    by (auto simp: central_write_def Let_def act_simps fs_do_Inr_iff split: option.splits if_splits)
  then show ?thesis by (auto dest!: fs_write_success)
qed

end
