(* ===== verification/Nginx_Listen.thy ===== *)
theory Nginx_Listen
  imports State_Files "HOL-Library.List_Lexorder" "HOL-Library.Char_ord" "HOL-Library.Sublist"
begin

text \<open>
  \<open>rust/loader/src/nginx_listen.rs\<close>: the ports an nginx configuration listens on, found by
  walking its includes, and their comparison with the steered ports. The configuration files
  are only read by the program, so they are a snapshot beside the file system it writes:
  the contents by canonical path, the canonical path of a path, and the names in a directory.
  The walk is by fuel; one more than the number of files is enough, which is proved.
\<close>

subsection \<open>Listen directives\<close>

definition inner_real_ports :: "port set" where
  "inner_real_ports = {80, 443, 8080, 8443}"

definition strip_comment :: "string \<Rightarrow> string" where
  "strip_comment line = trim (hd (split_on CHR ''#'' line))"

definition starts_with_space :: "string \<Rightarrow> bool" where
  "starts_with_space s \<longleftrightarrow> s \<noteq> [] \<and> is_whitespace (hd s)"

definition listen_port_of_line :: "string \<Rightarrow> port option" where
  "listen_port_of_line original =
     (case strip_prefix ''listen'' (strip_comment original) of
        None \<Rightarrow> None
      | Some rest \<Rightarrow>
          if \<not> starts_with_space rest then None
          else
            let semicolon = (\<lambda>c. c = CHR '';'');
                address = trim_end_matches semicolon
                  (case split_whitespace (trim_start rest) of [] \<Rightarrow> [] | t # _ \<Rightarrow> t);
                raw = (if list_all is_ascii_digit address then Some address
                       else (case rsplit_once CHR '':'' address of
                           Some (_, port) \<Rightarrow> Some (trim_end_matches semicolon port)
                         | None \<Rightarrow> None))
            in case raw of None \<Rightarrow> None
               | Some r \<Rightarrow>
                   (case parse_uint u16_max r of
                      None \<Rightarrow> None
                    | Some n \<Rightarrow> if n = 0 then None else Some (of_nat n)))"

fun listen_loop :: "string list \<Rightarrow> port set \<Rightarrow> port list" where
  "listen_loop [] seen = []"
| "listen_loop (original # rest) seen =
     (case listen_port_of_line original of
        Some port \<Rightarrow>
          if port \<in> seen then listen_loop rest seen else port # listen_loop rest (insert port seen)
      | None \<Rightarrow> listen_loop rest seen)"

definition parse_listen_ports :: "string \<Rightarrow> port list" where
  "parse_listen_ports text = listen_loop (lines text) {}"

definition importable_listen_ports :: "string \<Rightarrow> port list" where
  "importable_listen_ports text = filter (\<lambda>p. p \<notin> inner_real_ports) (parse_listen_ports text)"

definition real_listen_ports :: "string \<Rightarrow> port set" where
  "real_listen_ports text = inner_real_ports \<union> set (parse_listen_ports text)"

subsection \<open>Includes\<close>

definition parse_include_specs :: "string \<Rightarrow> string list option" where
  "parse_include_specs line =
     (case strip_prefix ''include'' (strip_comment line) of
        None \<Rightarrow> None
      | Some rest \<Rightarrow>
          if \<not> starts_with_space rest then None
          else let spec = trim (trim_end_matches (\<lambda>c. c = CHR '';'') (trim rest))
               in if spec = [] then None else Some (split_whitespace spec))"

text \<open>\<open>Path::new\<close>: the components of a text, without the empty and inner \<open>.\<close> ones.\<close>

definition path_of :: "string \<Rightarrow> path" where
  "path_of s =
     (let parts = filter (\<lambda>c. c \<noteq> []) (split_on CHR ''/'' s);
          comps = (case parts of [] \<Rightarrow> []
                   | c # cs \<Rightarrow> (if c = ''.'' \<and> starts_with ''/'' s then [] else [c]) @ filter (\<lambda>c. c \<noteq> ''.'') cs)
      in if starts_with ''/'' s then ''/'' # comps else comps)"

definition resolve_include :: "path \<Rightarrow> string \<Rightarrow> path" where
  "resolve_include base spec =
     (if starts_with ''/'' spec then path_of spec else base @ path_of spec)"

text \<open>
  The loop of \<open>glob_matches\<close> on what is left of the pattern and of the name. At a star it
  compares the rest of the pattern with the non-empty suffixes of the whole name.
\<close>

function glob_loop :: "string \<Rightarrow> string \<Rightarrow> string \<Rightarrow> bool" where
  "glob_loop [] n name = (n = [])"
| "glob_loop (pc # p) n name =
     (if pc = CHR ''*'' then
        p = [] \<or> list_ex (\<lambda>i. glob_loop p (drop i name) (drop i name)) (rev [0..<length name])
      else case n of
          [] \<Rightarrow> False
        | nc # n' \<Rightarrow>
            if pc = CHR ''?'' then nc \<noteq> CHR ''/'' \<and> glob_loop p n' name
            else pc = nc \<and> glob_loop p n' name)"
  by pat_completeness auto
termination by (relation "measure (\<lambda>(p, n, name). length p)") auto

definition glob_matches :: "string \<Rightarrow> string \<Rightarrow> bool" where
  "glob_matches pattern name = glob_loop pattern name name"

record nginx_fs =
  ng_files :: "(path \<times> string) list"
  ng_canon :: "path \<Rightarrow> path option"
  ng_dir :: "path \<Rightarrow> (err + string list) option"

definition ng_read :: "nginx_fs \<Rightarrow> path \<Rightarrow> err + string" where
  "ng_read ng path =
     (case ng_canon ng path of
        None \<Rightarrow> Inl (IoE (NotFound path))
      | Some c \<Rightarrow> (case map_of (ng_files ng) c of
            None \<Rightarrow> Inl (IoE (IoFault path)) | Some text \<Rightarrow> Inr text))"

definition expand_glob :: "nginx_fs \<Rightarrow> path \<Rightarrow> err + path list" where
  "expand_glob ng path =
     (if \<not> list_ex (\<lambda>c. CHR ''*'' \<in> set c \<or> CHR ''?'' \<in> set c) path then Inr [path]
      else (case path_parent path of
          None \<Rightarrow> Inl (NginxE (GlobNoParent path))
        | Some parent \<Rightarrow>
            (case path_file_name path of
               None \<Rightarrow> Inl (NginxE (GlobNoName path))
             | Some pattern \<Rightarrow>
                 (case ng_dir ng parent of
                    None \<Rightarrow> Inr []
                  | Some entries \<Rightarrow>
                      rbind (with_context (InFile parent) entries) (\<lambda>names.
                        Inr (map (\<lambda>n. parent @ [n]) (sort (filter (glob_matches pattern) names))))))))"

definition visit_key :: "nginx_fs \<Rightarrow> path \<Rightarrow> path" where
  "visit_key ng path = (case ng_canon ng path of Some c \<Rightarrow> c | None \<Rightarrow> path)"

text \<open>What a file includes, in order: the expansions of its include directives.\<close>

type_synonym walk_state = "path set \<times> (path \<times> string) list"

definition include_specs :: "string \<Rightarrow> string list" where
  "include_specs text =
     concat (map (\<lambda>line. case parse_include_specs line of None \<Rightarrow> [] | Some specs \<Rightarrow> specs) (lines text))"

primrec walk_includes :: "nat \<Rightarrow> nginx_fs \<Rightarrow> path \<Rightarrow> walk_state \<Rightarrow> err + walk_state" where
  "walk_includes 0 ng path st = Inl (NginxE IncludesTooDeep)"
| "walk_includes (Suc fuel) ng path st =
     (let key = visit_key ng path in
      if key \<in> fst st then Inr st
      else rbind (with_context (InFile path) (ng_read ng path)) (\<lambda>text.
        let base = (case path_parent path of Some b \<Rightarrow> b | None \<Rightarrow> [''.'']) in
        rfold (\<lambda>spec st.
            rbind (expand_glob ng (resolve_include base spec)) (\<lambda>incs.
              rfold (\<lambda>inc st. walk_includes fuel ng inc st) incs st))
          (include_specs text) (insert key (fst st), snd st @ [(path, text)])))"

definition read_expanded_files :: "nginx_fs \<Rightarrow> path \<Rightarrow> err + (path \<times> string) list" where
  "read_expanded_files ng conf =
     rbind (walk_includes (Suc (length (ng_files ng))) ng conf ({}, [])) (\<lambda>st. Inr (snd st))"

fun first_seen :: "port list \<Rightarrow> port set \<Rightarrow> port list" where
  "first_seen [] seen = []"
| "first_seen (p # ps) seen =
     (if p \<in> seen then first_seen ps seen else p # first_seen ps (insert p seen))"

definition parse_listen_ports_from_conf :: "nginx_fs \<Rightarrow> path \<Rightarrow> err + port list" where
  "parse_listen_ports_from_conf ng conf =
     rbind (read_expanded_files ng conf) (\<lambda>files.
       Inr (first_seen (concat (map (\<lambda>(_, text). parse_listen_ports text) files)) {}))"

definition importable_listen_ports_from_conf :: "nginx_fs \<Rightarrow> path \<Rightarrow> err + port list" where
  "importable_listen_ports_from_conf ng conf =
     rbind (parse_listen_ports_from_conf ng conf) (\<lambda>ports.
       Inr (filter (\<lambda>p. p \<notin> inner_real_ports) ports))"

definition real_listen_ports_from_conf :: "nginx_fs \<Rightarrow> path \<Rightarrow> err + port set" where
  "real_listen_ports_from_conf ng conf =
     rbind (parse_listen_ports_from_conf ng conf) (\<lambda>ports. Inr (inner_real_ports \<union> set ports))"

subsection \<open>Hits\<close>

record listen_hit =
  hit_path :: path
  hit_line_no :: nat
  hit_text :: string
  hit_ports :: "port list"

definition display_path :: "path \<Rightarrow> string" where
  "display_path p =
     (if p \<noteq> [] \<and> hd p = ''/'' then ''/'' @ join ''/'' (tl p) else join ''/'' p)"

definition conf_relative_path :: "nginx_fs \<Rightarrow> path \<Rightarrow> path \<Rightarrow> string" where
  "conf_relative_path ng conf file =
     (let base = (case path_parent conf of Some b \<Rightarrow> b | None \<Rightarrow> [''.'']);
          file_abs = visit_key ng file; base_abs = visit_key ng base
      in if prefix base_abs file_abs then display_path (drop (length base_abs) file_abs)
         else display_path file)"

definition display_line :: "nginx_fs \<Rightarrow> path \<Rightarrow> listen_hit \<Rightarrow> string" where
  "display_line ng conf hit =
     conf_relative_path ng conf (hit_path hit) @ '':'' @ show_nat (hit_line_no hit) @ '': '' @ hit_text hit"

definition hits_of_text :: "port set \<Rightarrow> path \<Rightarrow> string \<Rightarrow> listen_hit list" where
  "hits_of_text wanted path text =
     concat (map (\<lambda>(idx, line).
         let ports = filter (\<lambda>p. p \<in> wanted) (parse_listen_ports line)
         in if ports = [] then []
            else [\<lparr>hit_path = path, hit_line_no = idx + 1, hit_text = line, hit_ports = ports\<rparr>])
       (enumerate 0 (lines text)))"

definition find_listen_hits :: "nginx_fs \<Rightarrow> path \<Rightarrow> port set \<Rightarrow> err + listen_hit list" where
  "find_listen_hits ng conf wanted =
     rbind (read_expanded_files ng conf) (\<lambda>files.
       Inr (concat (map (\<lambda>(path, text). hits_of_text wanted path text) files)))"

subsection \<open>Importing, classifying, conflicts\<close>

datatype skip_why = ReservedRealBind | ReservedByPolicy | SkippedRealListen | DeniedByPolicy | Privileged

definition skip_reason :: "port \<Rightarrow> policy \<Rightarrow> port set \<Rightarrow> skip_why option" where
  "skip_reason port pol extra_skip =
     (if port = 80 \<or> port = 443 then Some ReservedRealBind
      else if port \<in> p_reserve pol then Some ReservedByPolicy
      else if port \<in> extra_skip then Some SkippedRealListen
      else if port \<in> p_deny pol then Some DeniedByPolicy
      else if port \<le> 1023 \<and> port \<notin> p_allow_privileged pol then Some Privileged
      else None)"

fun importable_ports :: "port list \<Rightarrow> policy \<Rightarrow> port set \<Rightarrow> port list \<times> (port \<times> skip_why) list" where
  "importable_ports [] pol extra_skip = ([], [])"
| "importable_ports (port # rest) pol extra_skip =
     (let (accepted, skipped) = importable_ports rest pol extra_skip
      in case skip_reason port pol extra_skip of
           Some reason \<Rightarrow> (accepted, (port, reason) # skipped)
         | None \<Rightarrow> (port # accepted, skipped))"

datatype listen_kind = Virtual | Real | Conflict

fun kind_str :: "listen_kind \<Rightarrow> string" where
  "kind_str Virtual = ''virtual''"
| "kind_str Real = ''real''"
| "kind_str Conflict = ''conflict''"

record listen_row =
  row_port :: port
  row_kind :: listen_kind
  row_slot :: "slot option"
  row_tenant :: "string option"
  row_site :: "string option"

definition classify_port ::
    "desired_ports \<Rightarrow> (port, slot) omap \<Rightarrow> port set \<Rightarrow> port \<Rightarrow> listen_row list" where
  "classify_port d mp reals port =
     (let in_virtual = om_get d port \<noteq> None \<or> om_get mp port \<noteq> None;
          in_real = port \<in> reals;
          binding = om_get d port;
          row = (\<lambda>kind. \<lparr>row_port = port, row_kind = kind,
                   row_slot = (case binding of Some b \<Rightarrow> Some (b_slot b) | None \<Rightarrow> om_get mp port),
                   row_tenant = map_option b_tenant binding, row_site = map_option b_site binding\<rparr>)
      in if in_virtual \<and> in_real then [row Conflict]
         else if in_virtual then [row Virtual]
         else if in_real then [row Real]
         else [])"

definition classify :: "desired_ports \<Rightarrow> (port, slot) omap \<Rightarrow> port set \<Rightarrow> listen_row list" where
  "classify d mp reals =
     concat (map (classify_port d mp reals)
       (sorted_list_of_set (set (om_keys d) \<union> set (om_keys mp) \<union> reals)))"

definition conflicts :: "port set \<Rightarrow> port list \<Rightarrow> port list" where
  "conflicts real_listens candidates =
     remdups_adj (sort (filter (\<lambda>p. p \<in> real_listens) candidates))"

subsection \<open>Facts: listens\<close>

lemma listen_port_nonzero: "listen_port_of_line l = Some p \<Longrightarrow> p \<noteq> 0"
proof -
  assume "listen_port_of_line l = Some p"
  then obtain n where "n \<noteq> 0" "n \<le> 65535" "p = of_nat n"
    using parse_uint_le by (fastforce simp: listen_port_of_line_def Let_def u16_max_def
        split: option.splits if_splits)
  then have "unat p = n" by (simp add: unat_of_nat_u16)
  with \<open>n \<noteq> 0\<close> show ?thesis by auto
qed

lemma listen_loop_spec:
  "distinct (listen_loop ls seen) \<and>
   set (listen_loop ls seen) = {p. \<exists>l \<in> set ls. listen_port_of_line l = Some p} - seen"
  by (induction ls seen rule: listen_loop.induct) (auto split: option.splits)

lemma set_parse_listen_ports:
  "set (parse_listen_ports text) = {p. \<exists>l \<in> set (lines text). listen_port_of_line l = Some p}"
  using listen_loop_spec [of "lines text" "{}"] by (simp add: parse_listen_ports_def)

lemma first_seen_spec: "distinct (first_seen ps seen) \<and> set (first_seen ps seen) = set ps - seen"
  by (induction ps seen rule: first_seen.induct) auto

subsection \<open>Facts: globs\<close>

definition literal :: "string \<Rightarrow> bool" where
  "literal s \<longleftrightarrow> CHR ''*'' \<notin> set s \<and> CHR ''?'' \<notin> set s"

lemma glob_loop_literal: "literal p \<Longrightarrow> glob_loop p n name \<longleftrightarrow> p = n"
proof (induction p arbitrary: n)
  case (Cons c p)
  then show ?case by (cases n) (auto simp: literal_def)
qed (auto simp: literal_def)

lemma glob_loop_prefix:
  "literal pre \<Longrightarrow> glob_loop (pre @ CHR ''*'' # p) n name \<longleftrightarrow>
     prefix pre n \<and> glob_loop (CHR ''*'' # p) [] name"
proof (induction pre arbitrary: n)
  case (Cons c pre)
  then show ?case by (cases n) (auto simp: literal_def)
qed simp

lemma glob_star_literal:
  "literal suf \<Longrightarrow> glob_loop (CHR ''*'' # suf) n name \<longleftrightarrow> suffix suf name"
proof -
  assume lit: "literal suf"
  show ?thesis
  proof (cases "suf = []")
    case False
    have "(\<exists>i < length name. suf = drop i name) \<longleftrightarrow> suffix suf name"
    proof
      assume "suffix suf name"
      then obtain zs where "name = zs @ suf" by (auto simp: suffix_def)
      then have "length zs < length name \<and> suf = drop (length zs) name" using False by simp
      then show "\<exists>i < length name. suf = drop i name" by blast
    qed (auto simp: suffix_drop)
    moreover have "list_ex (\<lambda>i. glob_loop suf (drop i name) (drop i name)) (rev [0..<length name]) \<longleftrightarrow>
        (\<exists>i < length name. suf = drop i name)"
      by (auto simp: list_ex_iff glob_loop_literal [OF lit])
    ultimately show ?thesis using False by simp
  qed simp
qed

lemma glob_one_star:
  "literal pre \<Longrightarrow> literal suf \<Longrightarrow>
   glob_matches (pre @ ''*'' @ suf) name \<longleftrightarrow> prefix pre name \<and> suffix suf name"
  by (simp add: glob_matches_def glob_loop_prefix glob_star_literal del: glob_loop.simps)

subsection \<open>Facts: import and classification\<close>

lemma skip_reason_None:
  "skip_reason p pol skip = None \<longleftrightarrow> port_allowed pol p \<and> p \<notin> skip \<and> p \<noteq> 80 \<and> p \<noteq> 443"
  by (auto simp: skip_reason_def port_allowed_def)

lemma importable_ports_eq:
  "importable_ports ps pol skip =
     (filter (\<lambda>p. skip_reason p pol skip = None) ps,
      map (\<lambda>p. (p, the (skip_reason p pol skip))) (filter (\<lambda>p. skip_reason p pol skip \<noteq> None) ps))"
  by (induction ps) (auto split: option.splits)

lemma classify_ports: "map row_port (classify d mp reals) = sorted_list_of_set (set (om_keys d) \<union> set (om_keys mp) \<union> reals)"
proof -
  have "map row_port (concat (map (classify_port d mp reals) ps)) = ps"
    if "set ps \<subseteq> set (om_keys d) \<union> set (om_keys mp) \<union> reals" for ps
    using that
    by (induction ps) (auto simp: classify_port_def Let_def set_om_keys)
  moreover have "finite (set (om_keys d) \<union> set (om_keys mp) \<union> reals)" by simp
  ultimately show ?thesis by (simp add: classify_def)
qed

lemma set_conflicts: "set (conflicts reals ps) = set ps \<inter> reals"
  by (auto simp: conflicts_def)

lemma sorted_remdups_adj_strict: "sorted xs \<Longrightarrow> sorted_wrt (<) (remdups_adj (xs :: port list))"
proof (induction xs rule: remdups_adj.induct)
  case (3 x y xs)
  then show ?case by (cases "x = y") (auto simp: order_less_le)
qed auto

lemma sorted_conflicts: "sorted_wrt (<) (conflicts reals ps)"
  unfolding conflicts_def by (rule sorted_remdups_adj_strict) simp

subsection \<open>Facts: the walk\<close>

definition walk_inv :: "nginx_fs \<Rightarrow> walk_state \<Rightarrow> bool" where
  "walk_inv ng st \<longleftrightarrow>
     distinct (map (\<lambda>e. visit_key ng (fst e)) (snd st)) \<and> (\<lambda>e. visit_key ng (fst e)) ` set (snd st) = fst st \<and>
     (\<forall>(path, text) \<in> set (snd st). ng_read ng path = Inr text)"

text \<open>A walk only adds to what it has, and reads no file twice.\<close>

definition walk_step_ok :: "nginx_fs \<Rightarrow> walk_state \<Rightarrow> err + walk_state \<Rightarrow> bool" where
  "walk_step_ok ng st r \<longleftrightarrow>
     (case r of Inl e \<Rightarrow> e \<noteq> NginxE IncludesTooDeep
      | Inr st' \<Rightarrow> fst st \<subseteq> fst st' \<and> prefix (snd st) (snd st') \<and> walk_inv ng st')"

lemma expand_glob_not_deep: "expand_glob ng p \<noteq> Inl (NginxE IncludesTooDeep)"
  by (auto simp: expand_glob_def rbind_Inl_iff with_context_Inl_iff split: option.splits)

lemma walk_includes_ok:
  assumes "card (fst ` set (ng_files ng) - fst st) < fuel" "walk_inv ng st"
  shows "walk_step_ok ng st (walk_includes fuel ng path st)"
  using assms
proof (induction fuel arbitrary: path st)
  case (Suc fuel)
  let ?K = "fst ` set (ng_files ng)" and ?key = "visit_key ng path"
  show ?case
  proof (cases "?key \<in> fst st")
    case True
    then show ?thesis using Suc.prems(2) by (simp add: walk_step_ok_def)
  next
    case new: False
    show ?thesis
    proof (cases "ng_read ng path")
      case (Inl e)
      then show ?thesis using new by (simp add: walk_step_ok_def Let_def)
    next
      case (Inr body)
      then have inK: "?key \<in> ?K"
        by (auto simp: ng_read_def visit_key_def image_iff split: option.splits dest!: map_of_SomeD)
          (metis fst_conv)
      define st1 where "st1 = (insert ?key (fst st), snd st @ [(path, body)])"
      define I where "I = (\<lambda>s. fst st1 \<subseteq> fst s \<and> prefix (snd st1) (snd s) \<and> walk_inv ng s)"
      have inv1: "walk_inv ng st1"
        using Suc.prems(2) new Inr by (auto simp: walk_inv_def st1_def)
      have "?K - fst st1 \<subset> ?K - fst st" using new inK by (auto simp: st1_def)
      then have "card (?K - fst st1) < card (?K - fst st)" by (intro psubset_card_mono) auto
      then have less1: "card (?K - fst st1) < fuel" using Suc.prems(1) by simp
      have sub: "case walk_includes fuel ng inc s of Inl e \<Rightarrow> e \<noteq> NginxE IncludesTooDeep | Inr t \<Rightarrow> I t"
        if "I s" for inc s
      proof -
        have "card (?K - fst s) \<le> card (?K - fst st1)" using that by (intro card_mono) (auto simp: I_def)
        then have "walk_step_ok ng s (walk_includes fuel ng inc s)"
          using that less1 by (intro Suc.IH) (auto simp: I_def)
        then show ?thesis using that
          by (auto simp: walk_step_ok_def I_def split: sum.splits intro: prefix_order.trans)
      qed
      let ?f = "\<lambda>spec st. rbind (expand_glob ng (resolve_include
          (case path_parent path of Some b \<Rightarrow> b | None \<Rightarrow> [''.'']) spec)) (\<lambda>incs.
          rfold (\<lambda>inc st. walk_includes fuel ng inc st) incs st)"
      have step: "case ?f spec s of Inl e \<Rightarrow> e \<noteq> NginxE IncludesTooDeep | Inr t \<Rightarrow> I t" if "I s" for spec s
      proof (cases "expand_glob ng (resolve_include (case path_parent path of Some b \<Rightarrow> b | None \<Rightarrow> [''.'']) spec)")
        case (Inl e)
        then have "e \<noteq> NginxE IncludesTooDeep" using expand_glob_not_deep by fastforce
        then show ?thesis unfolding Inl by simp
      next
        case (Inr incs)
        have "case rfold (\<lambda>inc st. walk_includes fuel ng inc st) incs s of
            Inl e \<Rightarrow> e \<noteq> NginxE IncludesTooDeep | Inr t \<Rightarrow> I t"
          by (rule rfold_cases [OF that sub])
        then show ?thesis unfolding Inr rbind.simps .
      qed
      have "case rfold ?f (include_specs body) st1 of Inl e \<Rightarrow> e \<noteq> NginxE IncludesTooDeep | Inr t \<Rightarrow> I t"
        by (rule rfold_cases [OF _ step]) (simp_all add: I_def inv1)
      moreover have "walk_includes (Suc fuel) ng path st = rfold ?f (include_specs body) st1"
        using new Inr by (simp add: Let_def st1_def)
      ultimately show ?thesis
        by (auto simp: walk_step_ok_def I_def st1_def split: sum.splits dest: append_prefixD)
    qed
  qed
qed simp

lemma read_expanded_files_spec:
  "case read_expanded_files ng conf of
     Inl e \<Rightarrow> e \<noteq> NginxE IncludesTooDeep
   | Inr files \<Rightarrow> distinct (map (\<lambda>e. visit_key ng (fst e)) files) \<and>
       (\<forall>(path, text) \<in> set files. ng_read ng path = Inr text)"
proof -
  have "card (fst ` set (ng_files ng) - {}) \<le> length (ng_files ng)"
    using card_image_le [of "set (ng_files ng)" fst] card_length [of "ng_files ng"] by simp
  then have "walk_step_ok ng ({}, []) (walk_includes (Suc (length (ng_files ng))) ng conf ({}, []))"
    by (intro walk_includes_ok) (simp_all add: walk_inv_def)
  then show ?thesis
    by (auto simp: read_expanded_files_def walk_step_ok_def walk_inv_def simp del: walk_includes.simps split: sum.splits)
qed

subsection \<open>Paths survive printing\<close>

definition path_canon :: "path \<Rightarrow> bool" where
  "path_canon p \<longleftrightarrow> (\<exists>cs. (\<forall>c \<in> set cs. c \<noteq> [] \<and> CHR ''/'' \<notin> set c) \<and>
     (p = cs \<and> (\<forall>c \<in> set (tl cs). c \<noteq> ''.'') \<or> p = ''/'' # cs \<and> (\<forall>c \<in> set cs. c \<noteq> ''.'')))"

lemma split_on_sep: "c \<notin> set s \<Longrightarrow> split_on c (s @ c # t) = s # split_on c t"
  unfolding split_on_def by (rule split_eq_cons)

lemma split_on_no: "c \<notin> set s \<Longrightarrow> split_on c s = [s]"
  unfolding split_on_def by (rule split_eq_none)

lemma split_on_join: "cs \<noteq> [] \<Longrightarrow> \<forall>s \<in> set cs. c \<notin> set s \<Longrightarrow> split_on c (join [c] cs) = cs"
proof (induction "[c]" cs rule: join.induct)
  case (3 s t ts)
  then show ?case by (simp add: split_on_sep)
qed (simp_all add: split_on_no)

lemma split_on_parts: "s \<in> set (split_on c t) \<Longrightarrow> c \<notin> set s"
  unfolding split_on_def by (induction t arbitrary: s) (auto split: list.splits if_splits)

lemma path_canon_rel: "\<forall>c \<in> set cs. c \<noteq> [] \<and> CHR ''/'' \<notin> set c \<Longrightarrow> \<forall>c \<in> set (tl cs). c \<noteq> ''.'' \<Longrightarrow> path_canon cs"
  unfolding path_canon_def by blast

lemma path_canon_abs: "\<forall>c \<in> set cs. c \<noteq> [] \<and> CHR ''/'' \<notin> set c \<Longrightarrow> \<forall>c \<in> set cs. c \<noteq> ''.'' \<Longrightarrow> path_canon (''/'' # cs)"
  unfolding path_canon_def by blast

lemma path_canon_path_of: "path_canon (path_of s)"
proof -
  define parts where "parts = filter (\<lambda>c. c \<noteq> []) (split_on CHR ''/'' s)"
  have ok: "\<forall>c \<in> set parts. c \<noteq> [] \<and> CHR ''/'' \<notin> set c"
    using split_on_parts by (auto simp: parts_def)
  note unf = path_of_def [of s, folded parts_def, unfolded Let_def]
  show ?thesis
  proof (cases "starts_with ''/'' s")
    case True
    have "path_canon (''/'' # filter (\<lambda>c. c \<noteq> ''.'') parts)"
      using ok by (intro path_canon_abs) auto
    moreover have "path_of s = ''/'' # filter (\<lambda>c. c \<noteq> ''.'') parts"
      using True by (cases parts) (simp_all add: unf)
    ultimately show ?thesis by simp
  next
    case False
    then have p: "path_of s = (case parts of [] \<Rightarrow> [] | c # cs \<Rightarrow> c # filter (\<lambda>c. c \<noteq> ''.'') cs)"
      by (cases parts) (simp_all add: unf)
    show ?thesis unfolding p using ok by (intro path_canon_rel) (cases parts; simp)+
  qed
qed

lemma path_of_display: "path_canon p \<Longrightarrow> path_of (display_path p) = p"
proof -
  assume "path_canon p"
  then obtain cs where cs: "\<forall>c \<in> set cs. c \<noteq> [] \<and> CHR ''/'' \<notin> set c"
    "p = cs \<and> (\<forall>c \<in> set (tl cs). c \<noteq> ''.'') \<or> p = ''/'' # cs \<and> (\<forall>c \<in> set cs. c \<noteq> ''.'')"
    by (auto simp: path_canon_def)
  have parts: "filter (\<lambda>c. c \<noteq> []) (split_on CHR ''/'' (join ''/'' cs)) = cs"
    using cs(1) split_on_join [of cs "CHR ''/''"] split_on_no [of "CHR ''/''" "[]"]
    by (cases "cs = []") (auto intro: filter_True)
  have head: "hd cs \<noteq> ''/''" "\<not> starts_with ''/'' (join ''/'' cs)" if ne: "cs \<noteq> []"
  proof -
    obtain e ds where e: "cs = e # ds" using ne by (cases cs) auto
    obtain x c where "e = x # c" using cs(1) e by (cases e) auto
    then have c: "cs = (x # c) # ds" "x \<noteq> CHR ''/''" using cs(1) e by auto
    then show "hd cs \<noteq> ''/''" by simp
    have "\<exists>t. join ''/'' cs = x # t" using c(1) by (cases ds) auto
    then show "\<not> starts_with ''/'' (join ''/'' cs)" using c(2) by (auto simp: starts_with_def)
  qed
  from cs(2) show ?thesis
  proof (elim disjE conjE)
    assume p: "p = cs" "\<forall>c \<in> set (tl cs). c \<noteq> ''.''"
    then show ?thesis
    proof (cases cs)
      case Nil
      then show ?thesis using p by (simp add: path_of_def display_path_def split_on_no starts_with_def)
    next
      case (Cons c ds)
      then have "filter (\<lambda>c. c \<noteq> ''.'') ds = ds" using p(2) by (auto intro: filter_True)
      moreover have "display_path p = join ''/'' cs" using p(1) Cons head(1) by (simp add: display_path_def)
      moreover have "c # ds \<noteq> []" by simp
      ultimately show ?thesis using parts head(2) Cons p(1) by (simp add: path_of_def Let_def)
    qed
  next
    assume p: "p = ''/'' # cs" "\<forall>c \<in> set cs. c \<noteq> ''.''"
    have "filter (\<lambda>c. c \<noteq> ''.'') cs = cs" using p(2) by (auto intro: filter_True)
    moreover have "split_on CHR ''/'' (''/'' @ join ''/'' cs) = [] # split_on CHR ''/'' (join ''/'' cs)"
      using split_on_sep [of "CHR ''/''" "[]"] by simp
    moreover have "display_path p = ''/'' @ join ''/'' cs" using p(1) by (simp add: display_path_def)
    ultimately have "path_of (display_path p) = ''/'' # (case cs of [] \<Rightarrow> [] | c # ds \<Rightarrow> cs)"
      using parts p(2) by (cases cs) (simp_all add: path_of_def Let_def starts_with_def)
    then show ?thesis using p(1) by (cases cs) simp_all
  qed
qed

lemma path_of_display_path_of [simp]: "path_of (display_path (path_of s)) = path_of s"
  by (simp add: path_of_display path_canon_path_of)

lemma path_canon_default: "path_canon p \<Longrightarrow> path_canon (default_path p)"
proof -
  assume "path_canon p"
  then obtain cs where cs: "\<forall>c \<in> set cs. c \<noteq> [] \<and> CHR ''/'' \<notin> set c"
    "p = cs \<and> (\<forall>c \<in> set (tl cs). c \<noteq> ''.'') \<or> p = ''/'' # cs \<and> (\<forall>c \<in> set cs. c \<noteq> ''.'')"
    by (auto simp: path_canon_def)
  have part: "c \<in> set cs" if "c \<in> set (butlast cs)" for c using that by (rule in_set_butlastD)
  from cs(2) show ?thesis
  proof (elim disjE conjE)
    assume p: "p = cs" "\<forall>c \<in> set (tl cs). c \<noteq> ''.''"
    have "\<forall>c \<in> set (tl (butlast cs @ [''policy.conf''])). c \<noteq> ''.''"
      using p(2) by (cases cs) (auto dest: in_set_butlastD split: if_splits)
    then have "path_canon (butlast cs @ [''policy.conf''])" using cs(1) part by (intro path_canon_rel) auto
    moreover have "path_canon ([''.''] @ [''policy.conf''])" by (rule path_canon_rel) simp_all
    ultimately show ?thesis using p(1) by (simp add: default_path_def parent_or_dot_def path_parent_def)
  next
    assume p: "p = ''/'' # cs" "\<forall>c \<in> set cs. c \<noteq> ''.''"
    have "path_canon (''/'' # butlast cs @ [''policy.conf''])" using cs(1) p(2) part by (intro path_canon_abs) auto
    moreover have "path_canon ([''.''] @ [''policy.conf''])" by (rule path_canon_rel) simp_all
    ultimately show ?thesis using p(1) by (simp add: default_path_def parent_or_dot_def path_parent_def)
  qed
qed

end
