(* ===== verification/Cli.thy ===== *)
theory Cli
  imports Kernel_Map
begin

text \<open>
  \<open>rust/loader/src/cli.rs\<close>: Go-style flags, durations and the arguments of the long-running
  process. The environment is a function from variable names. A duration is a number of
  nanoseconds; the floating-point step \<open>(num * mul) as u64\<close> is the argument \<open>scale\<close> of the
  parser, which is given the digits and the unit's factor.
\<close>

subsection \<open>Flags\<close>

record parsed_flags =
  pf_present :: "string list"
  pf_values :: "string \<Rightarrow> string option"
  pf_args :: "string list"

definition no_flags :: parsed_flags where
  "no_flags = \<lparr>pf_present = [], pf_values = (\<lambda>_. None), pf_args = []\<rparr>"

definition flag_set :: "parsed_flags \<Rightarrow> string \<Rightarrow> bool" where
  "flag_set f name \<longleftrightarrow> name \<in> set (pf_present f)"

definition flag_get :: "parsed_flags \<Rightarrow> string \<Rightarrow> string option" where
  "flag_get f name = pf_values f name"

definition bool_flag :: "parsed_flags \<Rightarrow> string \<Rightarrow> bool" where
  "bool_flag f name =
     (case flag_get f name of None \<Rightarrow> False | Some v \<Rightarrow> v \<noteq> ''false'' \<and> v \<noteq> ''0'')"

definition add_flag :: "string \<Rightarrow> string \<Rightarrow> parsed_flags \<Rightarrow> parsed_flags" where
  "add_flag name val f =
     f\<lparr>pf_present := List.insert name (pf_present f), pf_values := (pf_values f)(name := Some val)\<rparr>"

definition split_flag :: "string \<Rightarrow> err + string \<times> string option" where
  "split_flag a =
     (case (case strip_prefix ''--'' a of Some r \<Rightarrow> Some r | None \<Rightarrow> strip_prefix ''-'' a) of
        None \<Rightarrow> Inl (CliE (NotAFlag a))
      | Some rest \<Rightarrow>
          if rest = [] then Inl (CliE EmptyFlag)
          else (case split_once CHR ''='' rest of
              Some (n, v) \<Rightarrow> Inr (n, Some v)
            | None \<Rightarrow> Inr (rest, None)))"

fun flags_loop :: "string list \<Rightarrow> string list \<Rightarrow> string list \<Rightarrow> parsed_flags \<Rightarrow> err + parsed_flags" where
  "flags_loop bools vals [] out = Inr out"
| "flags_loop bools vals (a # rest) out =
     (if a = ''--'' then Inr (out\<lparr>pf_args := pf_args out @ rest\<rparr>)
      else if a = ''-'' \<or> \<not> starts_with ''-'' a then Inr (out\<lparr>pf_args := pf_args out @ a # rest\<rparr>)
      else (case split_flag a of
          Inl e \<Rightarrow> Inl e
        | Inr (name, inline) \<Rightarrow>
            if name = ''h'' \<or> name = ''help'' then flags_loop bools vals rest (add_flag ''help'' ''true'' out)
            else if name \<in> set bools then
              flags_loop bools vals rest
                (add_flag name (case inline of Some v \<Rightarrow> v | None \<Rightarrow> ''true'') out)
            else if name \<in> set vals then
              (case inline of
                 Some v \<Rightarrow> flags_loop bools vals rest (add_flag name v out)
               | None \<Rightarrow>
                   (case rest of
                      [] \<Rightarrow> Inl (CliE (FlagNeedsArgument name))
                    | v # rest' \<Rightarrow> flags_loop bools vals rest' (add_flag name v out)))
            else Inl (CliE (FlagNotDefined name))))"

definition parse_go_flags :: "string list \<Rightarrow> string list \<Rightarrow> string list \<Rightarrow> err + parsed_flags" where
  "parse_go_flags argv bools vals = flags_loop bools vals argv no_flags"

definition is_ctl_command :: "string \<Rightarrow> bool" where
  "is_ctl_command s \<longleftrightarrow> s \<in> set
     [''add'', ''open'', ''remove'', ''close'', ''list'', ''dump'', ''bulk'', ''fill'', ''load-ports'',
      ''close-ports'', ''reconcile'', ''apply'', ''apply-central'', ''freeze'', ''unfreeze'', ''close-all'',
      ''rescan-listen'', ''import-listens'', ''import-listen'', ''migrate'', ''check-overlap'',
      ''retire-conf-listen'', ''status'', ''metrics'', ''unpin'', ''teardown'', ''upgrade'',
      ''upgrade-status'', ''upgrade-rollback'', ''detach-primary'', ''help'']"

subsection \<open>Durations\<close>

definition unit_factor :: "string \<Rightarrow> nat option" where
  "unit_factor u =
     (if u = ''ns'' then Some 1
      else if u = ''us'' \<or> u = [CHR 0xB5, CHR ''s''] then Some 1000
      else if u = ''ms'' then Some 1000000
      else if u = ''s'' then Some 1000000000
      else if u = ''m'' then Some (60 * 1000000000)
      else if u = ''h'' then Some (3600 * 1000000000)
      else None)"

definition is_ascii_alphabetic :: "char \<Rightarrow> bool" where
  "is_ascii_alphabetic c \<longleftrightarrow>
     (let n = (of_char c :: nat) in (65 \<le> n \<and> n \<le> 90) \<or> (97 \<le> n \<and> n \<le> 122))"

definition num_char :: "char \<Rightarrow> bool" where
  "num_char c \<longleftrightarrow> c = CHR ''.'' \<or> is_ascii_digit c"

function duration_loop :: "(string \<Rightarrow> nat \<Rightarrow> nat option) \<Rightarrow> string \<Rightarrow> string \<Rightarrow> nat \<Rightarrow> err + nat" where
  "duration_loop scale raw s acc =
     (if s = [] then Inr acc
      else if \<not> num_char (hd s) then Inl (CliE (BadDuration raw))
      else
        let num = takeWhile num_char s; after = dropWhile num_char s;
            u = takeWhile is_ascii_alphabetic after; rest = dropWhile is_ascii_alphabetic after
        in (case scale num 1 of
              None \<Rightarrow> Inl (CliE (BadDuration raw))
            | Some _ \<Rightarrow>
                if u = [] then Inl (CliE (MissingUnit raw))
                else (case unit_factor u of
                    None \<Rightarrow> Inl (CliE (UnknownUnit u))
                  | Some mul \<Rightarrow>
                      duration_loop scale raw rest (acc + (case scale num mul of Some n \<Rightarrow> n | None \<Rightarrow> 0)))))"
  by pat_completeness auto
termination
proof (relation "measure (\<lambda>(scale, raw, s, acc). length s)", goal_cases)
  case (2 scale raw s acc)
  then have "length (dropWhile num_char s) < length s"
    by (cases s) (auto simp: le_imp_less_Suc length_dropWhile_le)
  then show ?case using 2 by (auto intro: le_less_trans [OF length_dropWhile_le])
qed simp

declare duration_loop.simps [simp del]

definition parse_duration :: "(string \<Rightarrow> nat \<Rightarrow> nat option) \<Rightarrow> string \<Rightarrow> err + nat" where
  "parse_duration scale raw =
     (let s = trim raw
      in if s = [] then Inl (CliE EmptyDuration)
         else if s = ''0'' \<or> s = ''0s'' then Inr 0
         else duration_loop scale raw s 0)"

subsection \<open>The long-running process\<close>

datatype bpf_impl = BpfC | BpfRust

definition bpf_impl_parse :: "string \<Rightarrow> err + bpf_impl" where
  "bpf_impl_parse s =
     (let t = to_ascii_lowercase s
      in if t = ''c'' then Inr BpfC else if t = ''rust'' then Inr BpfRust else Inl (CliE (BadBpf t)))"

datatype run_mode = Toy | OpenResty | ClosePort | OpenPort | DumpPorts

definition run_mode_parse :: "string \<Rightarrow> err + run_mode" where
  "run_mode_parse s =
     (let t = to_ascii_lowercase s
      in if t = ''toy'' then Inr Toy
         else if t = ''openresty'' then Inr OpenResty
         else if t = ''close-port'' then Inr ClosePort
         else if t = ''open-port'' then Inr OpenPort
         else if t = ''dump-ports'' then Inr DumpPorts
         else Inl (CliE (UnknownMode t)))"

record long_running_args =
  a_bpf_impl :: bpf_impl
  a_mode :: run_mode
  a_listen :: string
  a_target :: string
  a_ports_raw :: string
  a_ports_set :: bool
  a_tls_target :: string
  a_tls_ports_raw :: string
  a_tls_ports_set :: bool
  a_wait :: nat
  a_pin_dir :: string
  a_ports_file :: string
  a_policy_file :: "string option"
  a_tenant :: string
  a_site :: string
  a_cert :: "string option"
  a_policy :: "string option"
  a_ctl_sock :: "string option"
  a_ctl_group :: "nat option"
  a_rescan_interval :: nat

definition default_rescan_interval :: nat where "default_rescan_interval = 500000000"
definition min_rescan_interval :: nat where "min_rescan_interval = 100000000"

definition get_or :: "parsed_flags \<Rightarrow> string \<Rightarrow> string \<Rightarrow> string" where
  "get_or f name dflt = (case flag_get f name of Some v \<Rightarrow> v | None \<Rightarrow> dflt)"

definition parse_ctl_group :: "parsed_flags \<Rightarrow> err + nat option" where
  "parse_ctl_group f =
     (case flag_get f ''ctl-group'' of
        None \<Rightarrow> Inr None
      | Some v \<Rightarrow> (case parse_uint 4294967295 v of
            None \<Rightarrow> Inl (CliE BadCtlGroup) | Some n \<Rightarrow> Inr (Some n)))"

definition parse_rescan_interval :: "(string \<Rightarrow> nat \<Rightarrow> nat option) \<Rightarrow> parsed_flags \<Rightarrow> err + nat" where
  "parse_rescan_interval scale f =
     (case flag_get f ''rescan-interval'' of
        None \<Rightarrow> Inr default_rescan_interval
      | Some raw \<Rightarrow>
          rbind (with_context (InFlag ''rescan-interval'') (parse_duration scale raw)) (\<lambda>interval.
            if interval < min_rescan_interval then Inl (CliE (RescanTooShort raw)) else Inr interval))"

text \<open>\<open>None\<close> is the help flag, which prints the usage and ends the process.\<close>

definition parse_long_running ::
    "(string \<Rightarrow> nat \<Rightarrow> nat option) \<Rightarrow> (string \<Rightarrow> string option) \<Rightarrow> string list
      \<Rightarrow> err + long_running_args option" where
  "parse_long_running scale env argv =
     rbind (parse_go_flags argv [''help'', ''h'', ''no-ctl'']
       [''mode'', ''listen'', ''target'', ''ports'', ''tls-target'', ''tls-ports'', ''wait'', ''pin-dir'',
        ''ports-file'', ''policy-file'', ''tenant'', ''site'', ''cert'', ''policy'', ''ctl-sock'', ''ctl-group'',
        ''bpf'', ''rescan-interval'']) (\<lambda>f.
     if bool_flag f ''help'' then Inr None
     else
     rbind (run_mode_parse (get_or f ''mode'' ''toy'')) (\<lambda>mode.
     let bpf_raw = (case flag_get f ''bpf'' of Some v \<Rightarrow> v
                    | None \<Rightarrow> (case env ''BPF_IMPL'' of Some v \<Rightarrow> v | None \<Rightarrow> ''c''));
         ctl_raw = (case flag_get f ''ctl-sock'' of Some v \<Rightarrow> v
                    | None \<Rightarrow> (case env ''CTL_SOCK'' of Some v \<Rightarrow> v | None \<Rightarrow> ''/run/waf-sklookup/ctl.sock''))
     in
     rbind (parse_ctl_group f) (\<lambda>group.
     rbind (parse_rescan_interval scale f) (\<lambda>rescan.
     rbind (bpf_impl_parse bpf_raw) (\<lambda>impl.
     rbind (with_context (InFlag ''wait'') (parse_duration scale (get_or f ''wait'' ''60s''))) (\<lambda>wait.
       Inr (Some \<lparr>a_bpf_impl = impl, a_mode = mode,
         a_listen = get_or f ''listen'' ''127.0.0.1:18080'', a_target = get_or f ''target'' ''127.0.0.1:8080'',
         a_ports_raw = get_or f ''ports'' ''18081,18082,65500'', a_ports_set = flag_set f ''ports'',
         a_tls_target = get_or f ''tls-target'' ''127.0.0.1:8443'',
         a_tls_ports_raw = get_or f ''tls-ports'' [], a_tls_ports_set = flag_set f ''tls-ports'',
         a_wait = wait, a_pin_dir = get_or f ''pin-dir'' ''/sys/fs/bpf/waf-sklookup'',
         a_ports_file = get_or f ''ports-file'' ''ports.conf'', a_policy_file = flag_get f ''policy-file'',
         a_tenant = get_or f ''tenant'' [], a_site = get_or f ''site'' [],
         a_cert = flag_get f ''cert'', a_policy = flag_get f ''policy'',
         a_ctl_sock = (if \<not> bool_flag f ''no-ctl'' \<and> ctl_raw \<noteq> [] then Some ctl_raw else None),
         a_ctl_group = group, a_rescan_interval = rescan\<rparr>)))))))"

subsection \<open>Flags by name\<close>

definition plain_name :: "string \<Rightarrow> bool" where
  "plain_name n \<longleftrightarrow> n \<noteq> [] \<and> hd n \<noteq> CHR ''-'' \<and> CHR ''='' \<notin> set n \<and> n \<noteq> ''h'' \<and> n \<noteq> ''help''"

lemma split_once_none: "c \<notin> set s \<Longrightarrow> split_once c s = None"
  by (induction s) auto

lemma split_once_first: "c \<notin> set s \<Longrightarrow> split_once c (s @ c # t) = Some (s, t)"
  by (induction s) auto

lemma split_flag_plain: "plain_name n \<Longrightarrow> split_flag (CHR ''-'' # n) = Inr (n, None)"
  by (cases n) (auto simp: plain_name_def split_flag_def split_once_none)

lemma split_flag_inline: "plain_name n \<Longrightarrow> split_flag (CHR ''-'' # n @ CHR ''='' # v) = Inr (n, Some v)"
  by (cases n) (auto simp: plain_name_def split_flag_def split_once_first)

lemma flag_shape: "plain_name n \<Longrightarrow> CHR ''-'' # n @ v \<noteq> ''--'' \<and> CHR ''-'' # n @ v \<noteq> ''-'' \<and>
    starts_with ''-'' (CHR ''-'' # n @ v)"
  by (cases n) (auto simp: plain_name_def starts_with_def)

lemma flags_loop_val:
  "plain_name n \<Longrightarrow> n \<in> set vals \<Longrightarrow> n \<notin> set bools \<Longrightarrow>
   flags_loop bools vals ((CHR ''-'' # n) # v # rest) out = flags_loop bools vals rest (add_flag n v out)"
  using flag_shape [of n "[]"] split_flag_plain [of n] by (simp add: plain_name_def)

lemma flags_loop_bool:
  "plain_name n \<Longrightarrow> n \<in> set bools \<Longrightarrow>
   flags_loop bools vals ((CHR ''-'' # n) # rest) out = flags_loop bools vals rest (add_flag n ''true'' out)"
  using flag_shape [of n "[]"] split_flag_plain [of n] by (simp add: plain_name_def)

lemma flags_loop_inline:
  "plain_name n \<Longrightarrow> n \<in> set vals \<Longrightarrow> n \<notin> set bools \<Longrightarrow>
   flags_loop bools vals ((CHR ''-'' # n @ CHR ''='' # v) # rest) out = flags_loop bools vals rest (add_flag n v out)"
  using flag_shape [of n "CHR ''='' # v"] split_flag_inline [of n v] by (simp add: plain_name_def)

lemma flag_get_simps [simp]: "flag_get (add_flag n v f) m = (if m = n then Some v else flag_get f m)"
  "flag_get no_flags m = None" "pf_args (add_flag n v f) = pf_args f"
  by (simp_all add: flag_get_def add_flag_def no_flags_def)

end
