(* ===== verification/Ctl.thy ===== *)
theory Ctl
  imports Central Nginx_Listen Cli
begin

text \<open>
  \<open>rust/loader/src/ctl.rs\<close>: the commands that change the desired file and the live map together.
  The world of a command is the file system it writes, the nginx configuration it reads, the
  pinned maps and standard input; a command is an action on it. Every early return is an error
  outcome with the world as it was left. What a command prints is the value it returns.
\<close>

subsection \<open>The world\<close>

record 'm world =
  w_fs :: fsys
  w_nginx :: nginx_fs
  w_pins :: "path \<Rightarrow> 'm option"
  w_stdin :: string
  w_now :: string
  w_pid :: nat
  w_env :: "string \<Rightarrow> string option"

type_synonym ('m, 'a) cmd = "('m world, 'a) act"

definition on_fs :: "(fsys, 'a) act \<Rightarrow> ('m, 'a) cmd" where
  "on_fs f w = (let (r, fs) = f (w_fs w) in (r, w\<lparr>w_fs := fs\<rparr>))"

text \<open>\<open>MapHandle::from_pinned_path\<close> and an operation through the handle.\<close>

definition load_pinned_open_ports :: "path \<Rightarrow> 'm world \<Rightarrow> err + 'm" where
  "load_pinned_open_ports pin_dir w =
     (case w_pins w (open_ports_path pin_dir) of
        None \<Rightarrow> Inl (PinE (PinMissing (open_ports_path pin_dir))) | Some m \<Rightarrow> Inr m)"

definition on_map :: "path \<Rightarrow> ('m, 'a) act \<Rightarrow> ('m, 'a) cmd" where
  "on_map pin_dir f w =
     (case load_pinned_open_ports pin_dir w of
        Inl e \<Rightarrow> (Inl e, w)
      | Inr m \<Rightarrow> (let (r, n) = f m in (r, w\<lparr>w_pins := (w_pins w)(open_ports_path pin_dir := Some n)\<rparr>)))"

text \<open>A check that counts its failure in the metrics file before it returns it.\<close>

definition counted :: "path \<Rightarrow> ('m world \<Rightarrow> err + 'a) \<Rightarrow> ('m, 'a) cmd" where
  "counted metrics_file check w =
     (case check w of
        Inl e \<Rightarrow> (Inl e, w\<lparr>w_fs := metrics_increment metrics_file (w_fs w)\<rparr>)
      | Inr x \<Rightarrow> (Inr x, w))"

subsection \<open>Shared checks\<close>

definition real_ports :: "path \<Rightarrow> 'm world \<Rightarrow> err + port set" where
  "real_ports path w =
     (if ng_canon (w_nginx w) path = None then Inr inner_real_ports
      else real_listen_ports_from_conf (w_nginx w) path)"

definition overlap :: "port set \<Rightarrow> desired_ports \<Rightarrow> (port, slot) omap \<Rightarrow> port list \<Rightarrow> port list" where
  "overlap reals d mp adding =
     sorted_list_of_set (reals \<inter> (set (om_keys d) \<union> set (om_keys mp) \<union> set adding))"

definition fail_on_overlap :: "port set \<Rightarrow> desired_ports \<Rightarrow> (port, slot) omap \<Rightarrow> port list \<Rightarrow> err + unit" where
  "fail_on_overlap reals d mp adding =
     (let conflicts = overlap reals d mp adding
      in if conflicts \<noteq> [] then Inl (CtlE (ListenOverlap conflicts)) else Inr ())"

definition desired_or_empty :: "path \<Rightarrow> path \<Rightarrow> fsys \<Rightarrow> err + desired_ports" where
  "desired_or_empty path policy_file fs =
     (if fs_exists path fs then load_with_policy path policy_file fs else Inr om_empty)"

definition map_if_available :: "'m kops \<Rightarrow> path \<Rightarrow> 'm world \<Rightarrow> (port, slot) omap \<times> bool" where
  "map_if_available ops pin_dir w =
     (case rbind (load_pinned_open_ports pin_dir w) (read_map ops) of
        Inl _ \<Rightarrow> (om_empty, False) | Inr m \<Rightarrow> (m, True))"

definition enforce_ladder :: "port list \<Rightarrow> bool \<Rightarrow> 'm world \<Rightarrow> err + unit" where
  "enforce_ladder ports explicit w =
     (if length ports > 10000 \<and> \<not> explicit \<and> w_env w ''M3_FULL_LADDER'' \<noteq> Some ''1''
      then Inl (CtlE (LadderDisabled (length ports))) else Inr ())"

definition ctl_slot :: "bool \<Rightarrow> slot" where
  "ctl_slot tls = (if tls then redir_tls else redir_primary)"

definition default_metrics_file :: path where
  "default_metrics_file = [''/'', ''run'', ''waf-sklookup'', ''apply_fail_total'']"

definition default_apply_stamp :: path where
  "default_apply_stamp = [''/'', ''run'', ''waf-sklookup'', ''last-apply-central'']"

definition default_nginx_conf :: path where
  "default_nginx_conf = [''openresty'', ''nginx.conf'']"

subsection \<open>Adding and removing ports\<close>

datatype add_output = AddedSummary bulk_result | OpenedPorts "port list" slot

definition apply_add ::
    "'m kops \<Rightarrow> path \<Rightarrow> path \<Rightarrow> path \<Rightarrow> port list \<Rightarrow> port_binding \<Rightarrow> nat \<Rightarrow> bool \<Rightarrow> bool \<Rightarrow> bool \<Rightarrow> path \<Rightarrow> path
      \<Rightarrow> ('m, add_output) cmd" where
  "apply_add ops pin_dir ports_file policy_file ports binding batch progress summary sync_file
       nginx_conf metrics_file =
     sbind (getr (\<lambda>w. desired_or_empty ports_file policy_file (w_fs w))) (\<lambda>d0.
     sbind (getr (real_ports nginx_conf)) (\<lambda>reals.
     sbind (counted metrics_file (\<lambda>_. fail_on_overlap reals d0 om_empty ports)) (\<lambda>_.
     let d = om_insert_all ports binding d0 in
     sbind (getr (\<lambda>w. policy_load policy_file (w_fs w))) (\<lambda>pol.
     sbind (counted metrics_file (\<lambda>_. validate d pol)) (\<lambda>_.
     sbind (counted metrics_file (load_pinned_open_ports pin_dir)) (\<lambda>m.
     sbind (lift_res (read_map ops m)) (\<lambda>current.
     sbind (counted metrics_file (\<lambda>_. fail_on_overlap reals d current [])) (\<lambda>_.
     sbind (if sync_file then sbind (gets w_pid) (\<lambda>pid. on_fs (desired_write pid ports_file d))
            else ret ()) (\<lambda>_.
     sbind (on_map pin_dir (bulk_put_ports ops ports (b_slot binding) batch progress)) (\<lambda>res.
       ret (if summary then AddedSummary res else OpenedPorts ports (b_slot binding))))))))))))"

datatype remove_output = RemovedSummary bulk_result | ClosedPorts "port list" nat

definition apply_remove ::
    "'m kops \<Rightarrow> path \<Rightarrow> path \<Rightarrow> path \<Rightarrow> port list \<Rightarrow> nat \<Rightarrow> bool \<Rightarrow> bool \<Rightarrow> bool \<Rightarrow> ('m, remove_output) cmd" where
  "apply_remove ops pin_dir ports_file policy_file ports batch progress summary sync_file =
     sbind (getr (load_pinned_open_ports pin_dir)) (\<lambda>_.
     sbind (if sync_file then
              sbind (getr (\<lambda>w. load_with_policy ports_file policy_file (w_fs w))) (\<lambda>d.
              sbind (gets w_pid) (\<lambda>pid. on_fs (desired_write pid ports_file (om_remove_all ports d))))
            else ret ()) (\<lambda>_.
     sbind (on_map pin_dir (bulk_delete_ports ops ports batch progress)) (\<lambda>res.
       ret (if summary then RemovedSummary res else ClosedPorts ports (bulk_missing res)))))"

definition close_pinned_ports :: "'m kops \<Rightarrow> path \<Rightarrow> path \<Rightarrow> port list \<Rightarrow> ('m, remove_output) cmd" where
  "close_pinned_ports ops pin_dir ports_file ports =
     apply_remove ops pin_dir ports_file (default_path ports_file) ports default_bulk_batch False False True"

definition open_pinned_ports ::
    "'m kops \<Rightarrow> path \<Rightarrow> path \<Rightarrow> port list \<Rightarrow> port list \<Rightarrow> port_binding \<Rightarrow> path \<Rightarrow> ('m, unit) cmd" where
  "open_pinned_ports ops pin_dir ports_file http_ports tls_ports binding policy_file =
     (let both = port_set_overlap http_ports tls_ports;
          add = (\<lambda>ports slot. sbind (apply_add ops pin_dir ports_file policy_file ports (binding\<lparr>b_slot := slot\<rparr>)
                   default_bulk_batch False False True default_nginx_conf default_metrics_file) (\<lambda>_. ret ()))
      in if both \<noteq> [] then fail (CtlE (PortInBothLists both))
         else sbind (if http_ports \<noteq> [] then add http_ports redir_primary else ret ()) (\<lambda>_.
              if tls_ports \<noteq> [] then add tls_ports redir_tls else ret ()))"

subsection \<open>Flags of the commands\<close>

definition pin_dir_of :: "parsed_flags \<Rightarrow> path" where
  "pin_dir_of f = path_of (get_or f ''pin-dir'' ''/sys/fs/bpf/waf-sklookup'')"

definition ports_file_of :: "parsed_flags \<Rightarrow> path" where
  "ports_file_of f = path_of (get_or f ''ports-file'' ''ports.conf'')"

definition policy_file_of :: "parsed_flags \<Rightarrow> path" where
  "policy_file_of f =
     (case flag_get f ''policy-file'' of Some v \<Rightarrow> path_of v | None \<Rightarrow> default_path (ports_file_of f))"

definition freeze_file_of :: "parsed_flags \<Rightarrow> path" where
  "freeze_file_of f = path_of (get_or f ''freeze-file'' ''/run/waf-sklookup/frozen'')"

definition nginx_conf_of :: "parsed_flags \<Rightarrow> path" where
  "nginx_conf_of f = path_of (get_or f ''nginx-conf'' ''openresty/nginx.conf'')"

definition metrics_file_of :: "parsed_flags \<Rightarrow> path" where
  "metrics_file_of f = path_of (get_or f ''metrics-file'' ''/run/waf-sklookup/apply_fail_total'')"

definition apply_stamp_of :: "parsed_flags \<Rightarrow> path" where
  "apply_stamp_of f = path_of (get_or f ''apply-stamp'' ''/run/waf-sklookup/last-apply-central'')"

definition reject_frozen :: "parsed_flags \<Rightarrow> string \<Rightarrow> string \<Rightarrow> string \<Rightarrow> port list \<Rightarrow> 'm world \<Rightarrow> err + unit" where
  "reject_frozen f op tenant site ports w = reject_if_frozen (freeze_file_of f) op tenant site ports (w_fs w)"

definition binding_from_flags :: "parsed_flags \<Rightarrow> err + port_binding" where
  "binding_from_flags f =
     (let tenant = get_or f ''tenant'' []; site = get_or f ''site'' []
      in if tenant = [] \<or> site = [] then Inl (CtlE BindingMissing)
         else Inr \<lparr>b_slot = ctl_slot (bool_flag f ''tls''), b_tenant = tenant, b_site = site,
                b_cert = flag_get f ''cert'', b_policy = flag_get f ''policy''\<rparr>)"

definition parse_batch :: "string option \<Rightarrow> err + nat" where
  "parse_batch raw =
     (case raw of
        None \<Rightarrow> Inr default_bulk_batch
      | Some s \<Rightarrow> (case parse_uint u64_max s of None \<Rightarrow> Inl (CtlE BadBatch) | Some n \<Rightarrow> Inr n))"

definition collect_from_flags :: "parsed_flags \<Rightarrow> 'm world \<Rightarrow> err + port list" where
  "collect_from_flags f w =
     collect_bulk_ports (\<lambda>name. fs_read (path_of name) (w_fs w)) (w_stdin w)
       (flag_get f ''range'') (flag_get f ''file'') (bool_flag f ''stdin'') (pf_args f)"

text \<open>A command whose help flag prints the usage returns \<open>None\<close>.\<close>

definition with_flags ::
    "string list \<Rightarrow> string list \<Rightarrow> string list \<Rightarrow> (parsed_flags \<Rightarrow> ('m, 'a) cmd) \<Rightarrow> ('m, 'a option) cmd" where
  "with_flags args bools vals body =
     sbind (lift_res (parse_go_flags args bools vals)) (\<lambda>f.
       if bool_flag f ''help'' then ret None else sbind (body f) (\<lambda>x. ret (Some x)))"

definition collect_or_usage :: "string \<Rightarrow> parsed_flags \<Rightarrow> ('m, port list) cmd" where
  "collect_or_usage usage f w =
     (case collect_from_flags f w of
        Inr ports \<Rightarrow> (Inr ports, w)
      | Inl e \<Rightarrow>
          if get_or f ''range'' [] = [] \<and> get_or f ''file'' [] = [] \<and> \<not> bool_flag f ''stdin'' \<and> pf_args f = []
          then (Inl (CtlE (NeedsPorts usage)), w) else (Inl e, w))"

subsection \<open>The commands\<close>

definition add_bools :: "string list" where
  "add_bools = [''tls'', ''stdin'', ''help'', ''no-file'', ''full-ladder'']"

definition add_vals :: "string list" where
  "add_vals =
     [''pin-dir'', ''ports-file'', ''policy-file'', ''freeze-file'', ''range'', ''file'', ''tenant'', ''site'',
     ''cert'', ''policy'', ''nginx-conf'', ''metrics-file'']"

definition ctl_add :: "'m kops \<Rightarrow> string list \<Rightarrow> ('m, add_output option) cmd" where
  "ctl_add ops args =
     with_flags args add_bools add_vals (\<lambda>f.
     sbind (collect_or_usage ''open/add'' f) (\<lambda>ports.
     sbind (getr (enforce_ladder ports (bool_flag f ''full-ladder''))) (\<lambda>_.
     sbind (lift_res (binding_from_flags f)) (\<lambda>binding.
     sbind (getr (reject_frozen f ''add/open'' (b_tenant binding) (b_site binding) ports)) (\<lambda>_.
       apply_add ops (pin_dir_of f) (ports_file_of f) (policy_file_of f) ports binding default_bulk_batch True
         (length ports > 32) (\<not> bool_flag f ''no-file'') (nginx_conf_of f) (metrics_file_of f))))))"

definition remove_bools :: "string list" where
  "remove_bools = [''stdin'', ''help'', ''no-file'', ''full-ladder'']"

definition remove_vals :: "string list" where
  "remove_vals =
     [''pin-dir'', ''ports-file'', ''policy-file'', ''range'', ''file'']"

definition ctl_remove :: "'m kops \<Rightarrow> string list \<Rightarrow> ('m, remove_output option) cmd" where
  "ctl_remove ops args =
     with_flags args remove_bools remove_vals (\<lambda>f.
     sbind (collect_or_usage ''close/remove'' f) (\<lambda>ports.
     sbind (getr (enforce_ladder ports (bool_flag f ''full-ladder''))) (\<lambda>_.
       apply_remove ops (pin_dir_of f) (ports_file_of f) (policy_file_of f) ports default_bulk_batch True
         (length ports > 32) (\<not> bool_flag f ''no-file''))))"

definition bulk_add_bools :: "string list" where
  "bulk_add_bools = [''tls'', ''stdin'', ''quiet'', ''help'', ''no-file'', ''full-ladder'']"

definition bulk_add_vals :: "string list" where
  "bulk_add_vals =
     [''pin-dir'', ''ports-file'', ''policy-file'', ''freeze-file'', ''range'', ''file'', ''batch'', ''tenant'',
     ''site'', ''cert'', ''policy'', ''nginx-conf'', ''metrics-file'']"

definition ctl_bulk_add :: "'m kops \<Rightarrow> string list \<Rightarrow> ('m, add_output option) cmd" where
  "ctl_bulk_add ops args =
     with_flags args bulk_add_bools bulk_add_vals (\<lambda>f.
     sbind (getr (collect_from_flags f)) (\<lambda>ports.
     sbind (getr (enforce_ladder ports (bool_flag f ''full-ladder''))) (\<lambda>_.
     sbind (lift_res (parse_batch (flag_get f ''batch''))) (\<lambda>batch.
     sbind (lift_res (binding_from_flags f)) (\<lambda>binding.
     sbind (getr (reject_frozen f ''bulk open/add'' (b_tenant binding) (b_site binding) ports)) (\<lambda>_.
       apply_add ops (pin_dir_of f) (ports_file_of f) (policy_file_of f) ports binding batch
         (\<not> bool_flag f ''quiet'') True (\<not> bool_flag f ''no-file'') (nginx_conf_of f) (metrics_file_of f)))))))"

definition bulk_remove_bools :: "string list" where
  "bulk_remove_bools = [''stdin'', ''quiet'', ''help'', ''no-file'', ''full-ladder'']"

definition bulk_remove_vals :: "string list" where
  "bulk_remove_vals =
     [''pin-dir'', ''ports-file'', ''policy-file'', ''freeze-file'', ''range'', ''file'', ''batch'']"

definition ctl_bulk_remove :: "'m kops \<Rightarrow> string list \<Rightarrow> ('m, remove_output option) cmd" where
  "ctl_bulk_remove ops args =
     with_flags args bulk_remove_bools bulk_remove_vals (\<lambda>f.
     sbind (getr (collect_from_flags f)) (\<lambda>ports.
     sbind (getr (reject_frozen f ''bulk close/remove'' [] [] ports)) (\<lambda>_.
     sbind (getr (enforce_ladder ports (bool_flag f ''full-ladder''))) (\<lambda>_.
     sbind (lift_res (parse_batch (flag_get f ''batch''))) (\<lambda>batch.
       apply_remove ops (pin_dir_of f) (ports_file_of f) (policy_file_of f) ports batch
         (\<not> bool_flag f ''quiet'') True (\<not> bool_flag f ''no-file''))))))"

definition fill_ports_of :: "parsed_flags \<Rightarrow> err + port list" where
  "fill_ports_of f =
     (let start = (case parse_uint u64_max (get_or f ''start'' ''5000'') of Some n \<Rightarrow> n | None \<Rightarrow> u64_max)
      in if start > 65535 then Inl (CtlE (FillStart start))
         else (case parse_uint u64_max (get_or f ''count'' ''0'') of
             None \<Rightarrow> Inl (CtlE FillCount)
           | Some count \<Rightarrow>
               rbind (parse_skip_set (get_or f ''skip'' ''8080,8443'')) (\<lambda>skip.
                 generate_fill_ports (of_nat start) count skip)))"

definition fill_bools :: "string list" where
  "fill_bools = [''tls'', ''quiet'', ''help'', ''no-file'', ''full-ladder'']"

definition fill_vals :: "string list" where
  "fill_vals =
     [''pin-dir'', ''ports-file'', ''policy-file'', ''freeze-file'', ''count'', ''start'', ''skip'', ''batch'',
     ''tenant'', ''site'', ''cert'', ''policy'', ''nginx-conf'', ''metrics-file'']"

definition ctl_bulk_fill :: "'m kops \<Rightarrow> string list \<Rightarrow> ('m, add_output option) cmd" where
  "ctl_bulk_fill ops args =
     with_flags args fill_bools fill_vals (\<lambda>f.
     sbind (lift_res (fill_ports_of f)) (\<lambda>ports.
     sbind (getr (enforce_ladder ports (bool_flag f ''full-ladder''))) (\<lambda>_.
     sbind (lift_res (parse_batch (flag_get f ''batch''))) (\<lambda>batch.
     sbind (lift_res (binding_from_flags f)) (\<lambda>binding.
     sbind (getr (reject_frozen f ''bulk fill'' (b_tenant binding) (b_site binding) ports)) (\<lambda>_.
       apply_add ops (pin_dir_of f) (ports_file_of f) (policy_file_of f) ports binding batch
         (\<not> bool_flag f ''quiet'') True (\<not> bool_flag f ''no-file'') (nginx_conf_of f) (metrics_file_of f)))))))"

datatype bulk_output = BulkAdded "add_output option" | BulkRemoved "remove_output option"

definition ctl_bulk :: "'m kops \<Rightarrow> string list \<Rightarrow> ('m, bulk_output) cmd" where
  "ctl_bulk ops args =
     (case args of
        [] \<Rightarrow> fail (CtlE (NeedsPorts ''bulk''))
      | sub # rest \<Rightarrow>
          if sub = ''add'' \<or> sub = ''open'' then sbind (ctl_bulk_add ops rest) (\<lambda>x. ret (BulkAdded x))
          else if sub = ''remove'' \<or> sub = ''close'' then sbind (ctl_bulk_remove ops rest) (\<lambda>x. ret (BulkRemoved x))
          else if sub = ''fill'' then sbind (ctl_bulk_fill ops rest) (\<lambda>x. ret (BulkAdded x))
          else fail (CtlE (BulkUnknown sub)))"

text \<open>A plan carried out in batches: the primary puts, the TLS puts, then the deletes.\<close>

definition put_stage :: "'m kops \<Rightarrow> path \<Rightarrow> port list \<Rightarrow> slot \<Rightarrow> nat \<Rightarrow> bool \<Rightarrow> ('m, unit) cmd" where
  "put_stage ops pin_dir ports slot batch progress =
     (if ports \<noteq> []
      then sbind (on_map pin_dir (bulk_put_ports ops ports slot batch progress)) (\<lambda>_. ret ())
      else ret ())"

definition delete_stage :: "'m kops \<Rightarrow> path \<Rightarrow> port list \<Rightarrow> nat \<Rightarrow> bool \<Rightarrow> ('m, unit) cmd" where
  "delete_stage ops pin_dir ports batch progress =
     (if ports \<noteq> []
      then sbind (on_map pin_dir (bulk_delete_ports ops ports batch progress)) (\<lambda>_. ret ())
      else ret ())"

definition carry_out :: "'m kops \<Rightarrow> path \<Rightarrow> reconcile_plan \<Rightarrow> nat \<Rightarrow> bool \<Rightarrow> ('m, unit) cmd" where
  "carry_out ops pin_dir pl batch progress =
     sbind (put_stage ops pin_dir (put_primary pl) redir_primary batch progress) (\<lambda>_.
     sbind (put_stage ops pin_dir (put_tls pl) redir_tls batch progress) (\<lambda>_.
       delete_stage ops pin_dir (plan_delete pl) batch progress))"

text \<open>The counts that a reconcile prints: desired ports, puts, deletes.\<close>

definition reconcile_with ::
    "'m kops \<Rightarrow> path \<Rightarrow> path \<Rightarrow> path \<Rightarrow> path \<Rightarrow> path \<Rightarrow> string option \<Rightarrow> bool \<Rightarrow> ('m, nat \<times> nat \<times> nat) cmd" where
  "reconcile_with ops pin_dir ports_file policy_file nginx_conf metrics_file batch_raw progress =
     sbind (getr (\<lambda>w. load_with_policy ports_file policy_file (w_fs w))) (\<lambda>d.
     sbind (getr (real_ports nginx_conf)) (\<lambda>reals.
     sbind (counted metrics_file (\<lambda>_. fail_on_overlap reals d om_empty [])) (\<lambda>_.
     sbind (counted metrics_file (load_pinned_open_ports pin_dir)) (\<lambda>m.
     sbind (lift_res (read_map ops m)) (\<lambda>current.
     sbind (counted metrics_file (\<lambda>_. fail_on_overlap reals d current [])) (\<lambda>_.
     let pl = plan d current in
     sbind (lift_res (parse_batch batch_raw)) (\<lambda>batch.
     sbind (carry_out ops pin_dir pl batch progress) (\<lambda>_.
       ret (length d, length (put_primary pl) + length (put_tls pl), length (plan_delete pl))))))))))"

definition reconcile_bools :: "string list" where
  "reconcile_bools = [''quiet'', ''help'']"

definition reconcile_vals :: "string list" where
  "reconcile_vals =
     [''pin-dir'', ''ports-file'', ''policy-file'', ''freeze-file'', ''batch'', ''nginx-conf'', ''metrics-file'']"

definition ctl_reconcile :: "'m kops \<Rightarrow> string list \<Rightarrow> ('m, (nat \<times> nat \<times> nat) option) cmd" where
  "ctl_reconcile ops args =
     with_flags args reconcile_bools reconcile_vals (\<lambda>f.
     sbind (getr (reject_frozen f ''reconcile/apply'' [] [] [])) (\<lambda>_.
       reconcile_with ops (pin_dir_of f) (ports_file_of f) (policy_file_of f) (nginx_conf_of f) (metrics_file_of f)
         (flag_get f ''batch'') (\<not> bool_flag f ''quiet'')))"

text \<open>\<open>apply-central\<close> hands its settings to the reconcile command as arguments.\<close>

definition reconcile_args :: "parsed_flags \<Rightarrow> string list" where
  "reconcile_args f =
     [''-pin-dir'', display_path (pin_dir_of f), ''-ports-file'', display_path (ports_file_of f),
      ''-policy-file'', display_path (policy_file_of f), ''-freeze-file'', display_path (freeze_file_of f)]
     @ (if bool_flag f ''quiet'' then [''-quiet''] else [])
     @ (case flag_get f ''batch'' of Some b \<Rightarrow> [''-batch'', b] | None \<Rightarrow> [])
     @ [''-nginx-conf'', display_path (nginx_conf_of f), ''-metrics-file'', display_path (metrics_file_of f)]"

definition central_bools :: "string list" where
  "central_bools = [''quiet'', ''help'']"

definition central_vals :: "string list" where
  "central_vals =
     [''from'', ''from-central'', ''pin-dir'', ''ports-file'', ''policy-file'', ''freeze-file'', ''batch'',
     ''nginx-conf'', ''metrics-file'', ''apply-stamp'']"

definition ctl_apply_central ::
    "(string \<Rightarrow> central_state option) \<Rightarrow> 'm kops \<Rightarrow> string list \<Rightarrow> ('m, unit option) cmd" where
  "ctl_apply_central parse_json ops args =
     with_flags args central_bools central_vals (\<lambda>f.
     sbind (getr (reject_frozen f ''apply-central'' [] [] [])) (\<lambda>_.
     let source = path_of (case flag_get f ''from'' of Some v \<Rightarrow> v
                           | None \<Rightarrow> get_or f ''from-central'' ''central/desired-state.json'') in
     sbind (getr (\<lambda>w. central_load parse_json source (w_fs w))) (\<lambda>incoming.
     sbind (getr (\<lambda>w. policy_load (policy_file_of f) (w_fs w))) (\<lambda>pol.
     sbind (lift_res (validate incoming pol)) (\<lambda>_.
     sbind (getr (real_ports (nginx_conf_of f))) (\<lambda>reals.
     sbind (counted (metrics_file_of f) (\<lambda>_. fail_on_overlap reals incoming om_empty [])) (\<lambda>_.
     sbind (gets (map_if_available ops (pin_dir_of f))) (\<lambda>(current, available).
     sbind (if available then counted (metrics_file_of f) (\<lambda>_. fail_on_overlap reals incoming current [])
            else ret ()) (\<lambda>_.
     sbind (gets w_pid) (\<lambda>pid.
     sbind (on_fs (apply_cache parse_json pid source (ports_file_of f) (policy_file_of f))) (\<lambda>_.
     sbind (ctl_reconcile ops (reconcile_args f)) (\<lambda>_.
     sbind (gets w_now) (\<lambda>now w.
       (Inr (), snd (on_fs (write_apply_stamp now (apply_stamp_of f)) w)))))))))))))))"

definition close_all_with :: "'m kops \<Rightarrow> path \<Rightarrow> string option \<Rightarrow> bool \<Rightarrow> ('m, nat) cmd" where
  "close_all_with ops pin_dir batch_raw progress =
     sbind (getr (load_pinned_open_ports pin_dir)) (\<lambda>m.
     sbind (lift_res (read_map ops m)) (\<lambda>current.
     sbind (lift_res (parse_batch batch_raw)) (\<lambda>batch.
     sbind (on_map pin_dir (bulk_delete_ports ops (sort (om_keys current)) batch progress)) (\<lambda>res.
       ret (bulk_n res)))))"

definition ctl_close_all :: "'m kops \<Rightarrow> string list \<Rightarrow> ('m, nat option) cmd" where
  "ctl_close_all ops args =
     with_flags args [''quiet'', ''help''] [''pin-dir'', ''batch''] (\<lambda>f.
       close_all_with ops (pin_dir_of f) (flag_get f ''batch'') (\<not> bool_flag f ''quiet''))"

definition close_all_args :: "parsed_flags \<Rightarrow> string list" where
  "close_all_args f =
     [''-pin-dir'', display_path (pin_dir_of f)] @ (if bool_flag f ''quiet'' then [''-quiet''] else [])
     @ (case flag_get f ''batch'' of Some b \<Rightarrow> [''-batch'', b] | None \<Rightarrow> [])"

definition ctl_freeze :: "'m kops \<Rightarrow> string list \<Rightarrow> ('m, nat option option) cmd" where
  "ctl_freeze ops args =
     with_flags args [''close-all'', ''help'', ''quiet''] [''freeze-file'', ''pin-dir'', ''batch''] (\<lambda>f.
     sbind (on_fs (set_frozen (freeze_file_of f))) (\<lambda>_.
       if bool_flag f ''close-all'' then ctl_close_all ops (close_all_args f) else ret None))"

definition ctl_unfreeze :: "string list \<Rightarrow> ('m, unit option) cmd" where
  "ctl_unfreeze args =
     with_flags args [''help''] [''freeze-file''] (\<lambda>f. on_fs (clear_frozen (freeze_file_of f)))"

subsection \<open>Importing nginx listens, overlap, listing\<close>

definition flag_or_env :: "parsed_flags \<Rightarrow> string \<Rightarrow> string \<Rightarrow> 'm world \<Rightarrow> string" where
  "flag_or_env f name var w =
     (case flag_get f name of Some v \<Rightarrow> v | None \<Rightarrow> (case w_env w var of Some v \<Rightarrow> v | None \<Rightarrow> []))"

definition import_binding :: "parsed_flags \<Rightarrow> 'm world \<Rightarrow> err + port_binding" where
  "import_binding f w =
     (let tenant = flag_or_env f ''tenant'' ''TENANT'' w; site = flag_or_env f ''site'' ''SITE'' w
      in if tenant = [] \<or> site = [] then Inl (CtlE ImportUnbound)
         else Inr \<lparr>b_slot = ctl_slot (bool_flag f ''tls''), b_tenant = tenant, b_site = site,
                b_cert = flag_get f ''cert'', b_policy = flag_get f ''policy''\<rparr>)"

datatype import_output =
    ImportDryRun "port list" "(port \<times> skip_why) list"
  | ImportNothing "(port \<times> skip_why) list"
  | Imported "port list" "(port \<times> skip_why) list"

definition import_bools :: "string list" where
  "import_bools = [''tls'', ''dry-run'', ''from-nginx'', ''help'']"

definition import_vals :: "string list" where
  "import_vals =
     [''nginx-conf'', ''from'', ''tenant'', ''site'', ''cert'', ''policy'', ''ports-file'', ''policy-file'',
     ''freeze-file'', ''central-out'', ''metrics-file'', ''skip'', ''pin-dir'']"

definition ctl_import_listens :: "(central_state \<Rightarrow> string) \<Rightarrow> string list \<Rightarrow> ('m, import_output option) cmd" where
  "ctl_import_listens print_json args =
     with_flags args import_bools import_vals (\<lambda>f.
     sbind (getr (import_binding f)) (\<lambda>binding.
     let conf = (case flag_get f ''from'' of Some v \<Rightarrow> path_of v | None \<Rightarrow> nginx_conf_of f) in
     sbind (getr (\<lambda>w. policy_load (policy_file_of f) (w_fs w))) (\<lambda>pol.
     sbind (lift_res (case flag_get f ''skip'' of
              Some raw \<Rightarrow> rbind (parse_port_list_flexible raw) (\<lambda>ps. Inr (set ps))
            | None \<Rightarrow> Inr inner_real_ports)) (\<lambda>extra_skip.
     sbind (getr (\<lambda>w. parse_listen_ports_from_conf (w_nginx w) conf)) (\<lambda>listens.
     let (ports, skipped) = importable_ports listens pol extra_skip in
     sbind (getr (reject_frozen f ''import-listen'' (b_tenant binding) (b_site binding) ports)) (\<lambda>_.
     if bool_flag f ''dry-run'' then ret (ImportDryRun ports skipped)
     else
     sbind (getr (\<lambda>w. desired_or_empty (ports_file_of f) (policy_file_of f) (w_fs w))) (\<lambda>d0.
     let d = om_insert_all ports binding d0 in
     sbind (lift_res (validate d pol)) (\<lambda>_.
     if ports = [] then ret (ImportNothing skipped)
     else
     sbind (gets w_pid) (\<lambda>pid.
     sbind (on_fs (desired_write pid (ports_file_of f) d)) (\<lambda>_.
     sbind (case flag_get f ''central-out'' of
              Some path \<Rightarrow> on_fs (central_write print_json (path_of path) d) | None \<Rightarrow> ret ()) (\<lambda>_.
       ret (Imported ports skipped))))))))))))"

definition format_listen_hits :: "nginx_fs \<Rightarrow> path \<Rightarrow> listen_hit list \<Rightarrow> string" where
  "format_listen_hits ng conf hits = join [CHR 0x0A] (map (display_line ng conf) hits)"

fun extend_specs :: "string list \<Rightarrow> port set \<Rightarrow> err + port set" where
  "extend_specs [] acc = Inr acc"
| "extend_specs (spec # rest) acc =
     rbind (parse_port_list_flexible spec) (\<lambda>ps. extend_specs rest (acc \<union> set ps))"

text \<open>The report is empty when no listen line has a requested port.\<close>

definition ctl_retire_conf_listen :: "string list \<Rightarrow> ('m, string option) cmd" where
  "ctl_retire_conf_listen args =
     with_flags args [''help'', ''drop-listen'', ''from-nginx'', ''apply'', ''dry-run'', ''tls'']
       [''nginx-conf'', ''from'', ''tenant'', ''site'', ''cert'', ''policy'', ''ports-file'', ''policy-file'',
        ''freeze-file'', ''central-out'', ''metrics-file'', ''skip''] (\<lambda>f.
     if bool_flag f ''apply'' then fail (CtlE (DryRunOnly ''retire-conf-listen''))
     else
     sbind (getr (\<lambda>w. if pf_args f = []
              then rbind (importable_listen_ports_from_conf (w_nginx w) (nginx_conf_of f)) (\<lambda>ps. Inr (set ps))
              else extend_specs (pf_args f) {})) (\<lambda>wanted.
     sbind (getr (\<lambda>w. find_listen_hits (w_nginx w) (nginx_conf_of f) wanted)) (\<lambda>hits.
       gets (\<lambda>w. format_listen_hits (w_nginx w) (nginx_conf_of f) hits))))"

datatype migrate_output = MigrateImport "import_output option" | MigrateReport "string option"

definition ctl_migrate :: "(central_state \<Rightarrow> string) \<Rightarrow> string list \<Rightarrow> ('m, migrate_output option) cmd" where
  "ctl_migrate print_json args =
     with_flags args [''from-nginx'', ''drop-listen'', ''apply'', ''tls'', ''dry-run'', ''help'']
       [''nginx-conf'', ''from'', ''tenant'', ''site'', ''cert'', ''policy'', ''ports-file'', ''policy-file'',
        ''freeze-file'', ''central-out'', ''metrics-file'', ''skip''] (\<lambda>f.
     if bool_flag f ''drop-listen'' then
       (if bool_flag f ''apply'' then fail (CtlE (DryRunOnly ''migrate --drop-listen''))
        else sbind (ctl_retire_conf_listen args) (\<lambda>x. ret (MigrateReport x)))
     else if bool_flag f ''from-nginx'' \<or> flag_get f ''from'' \<noteq> None
     then sbind (ctl_import_listens print_json args) (\<lambda>x. ret (MigrateImport x))
     else fail (CtlE MigrateNeedsMode))"

definition ctl_check_overlap :: "'m kops \<Rightarrow> string list \<Rightarrow> ('m, unit option) cmd" where
  "ctl_check_overlap ops args =
     with_flags args [''help''] [''nginx-conf'', ''ports-file'', ''policy-file'', ''pin-dir''] (\<lambda>f.
     sbind (getr (\<lambda>w. desired_or_empty (ports_file_of f) (policy_file_of f) (w_fs w))) (\<lambda>d.
     sbind (gets (map_if_available ops (pin_dir_of f))) (\<lambda>(mp, _).
     sbind (getr (real_ports (nginx_conf_of f))) (\<lambda>reals.
     let conflicts = overlap reals d mp [] in
     if conflicts = [] then ret ()
     else
     sbind (getr (\<lambda>w. find_listen_hits (w_nginx w) (nginx_conf_of f) (set conflicts))) (\<lambda>hits.
     sbind (gets (\<lambda>w. format_listen_hits (w_nginx w) (nginx_conf_of f) hits)) (\<lambda>detail.
       fail (CtlE (OverlapReport conflicts detail))))))))"

definition format_listen_row :: "listen_row \<Rightarrow> string" where
  "format_listen_row row =
     show_port (row_port row) @ [CHR 0x09] @ ''kind='' @ kind_str (row_kind row)
     @ (case row_slot row of Some s \<Rightarrow> [CHR 0x09] @ ''slot='' @ show_nat (unat s) | None \<Rightarrow> [])
     @ (case row_tenant row of Some t \<Rightarrow> [CHR 0x09] @ ''tenant='' @ t | None \<Rightarrow> [])
     @ (case row_site row of Some t \<Rightarrow> [CHR 0x09] @ ''site='' @ t | None \<Rightarrow> [])"

datatype list_output =
    ListRowsJson "listen_row list"
  | ListCount nat
  | ListRows "string list"
  | ListAllPorts "port list"
  | ListPinned "(port \<times> slot) list"

definition list_pinned_ports :: "'m kops \<Rightarrow> path \<Rightarrow> bool \<Rightarrow> ('m, list_output) cmd" where
  "list_pinned_ports ops pin_dir count_only =
     sbind (getr (load_pinned_open_ports pin_dir)) (\<lambda>m.
       if count_only then ret (ListCount (length (k_keys ops m)))
       else sbind (lift_res (list_rows ops m (k_keys ops m))) (\<lambda>rows. ret (ListPinned rows)))"

definition ctl_list :: "'m kops \<Rightarrow> string list \<Rightarrow> ('m, list_output option) cmd" where
  "ctl_list ops args =
     with_flags args [''count'', ''json'', ''virtual'', ''help'']
       [''pin-dir'', ''ports-file'', ''policy-file'', ''nginx-conf'', ''kind''] (\<lambda>f.
     if bool_flag f ''virtual'' \<or> flag_get f ''kind'' \<noteq> None then
       sbind (getr (\<lambda>w. desired_or_empty (ports_file_of f) (policy_file_of f) (w_fs w))) (\<lambda>d.
       sbind (gets (map_if_available ops (pin_dir_of f))) (\<lambda>(mp, _).
       sbind (getr (real_ports (nginx_conf_of f))) (\<lambda>reals.
       let all_rows = classify d mp reals;
           rows = (case flag_get f ''kind'' of
                     Some kind \<Rightarrow> filter (\<lambda>r. kind_str (row_kind r) = kind) all_rows | None \<Rightarrow> all_rows)
       in ret (if bool_flag f ''json'' then ListRowsJson rows
               else if bool_flag f ''count'' then ListCount (length rows)
               else ListRows (map format_listen_row rows)))))
     else if bool_flag f ''json'' then
       sbind (getr (load_pinned_open_ports (pin_dir_of f))) (\<lambda>m.
       sbind (lift_res (read_map ops m)) (\<lambda>cur. ret (ListAllPorts (sort (om_keys cur)))))
     else list_pinned_ports ops (pin_dir_of f) (bool_flag f ''count''))"

subsection \<open>Status\<close>

record status_report =
  st_real :: "port list"
  st_virtual :: "port list"
  st_overlap :: "port list"
  st_frozen :: bool
  st_desired_count :: nat
  st_map_count :: nat
  st_file_map_agree :: bool
  st_drift_put :: nat
  st_drift_delete :: nat
  st_last_apply :: "string option"
  st_apply_fail_total :: nat
  st_capacity :: capacity
  st_reserved :: "port list"

text \<open>
  The other counts of the JSON object are the lengths of these lists. The set of reserved ports
  falls back to that of the default policy when the policy file does not load.
\<close>

definition status_value_with_stamp ::
    "'m kops \<Rightarrow> path \<Rightarrow> path \<Rightarrow> path \<Rightarrow> path \<Rightarrow> path \<Rightarrow> path \<Rightarrow> path \<Rightarrow> 'm world \<Rightarrow> err + status_report" where
  "status_value_with_stamp ops nginx_conf ports_file policy_file pin_dir freeze_file metrics_file apply_stamp w =
     rbind (real_ports nginx_conf w) (\<lambda>reals.
     rbind (desired_or_empty ports_file policy_file (w_fs w)) (\<lambda>d.
     let (mp, available) = map_if_available ops pin_dir w;
         candidates = set (om_keys d) \<union> set (om_keys mp);
         pl = plan d mp;
         reserved = (case policy_load policy_file (w_fs w) of
                       Inr pol \<Rightarrow> p_reserve pol | Inl _ \<Rightarrow> p_reserve default_policy)
     in Inr \<lparr>st_real = sorted_list_of_set reals,
          st_virtual = sorted_list_of_set (candidates - reals),
          st_overlap = sorted_list_of_set (candidates \<inter> reals),
          st_frozen = fs_exists freeze_file (w_fs w),
          st_desired_count = length d,
          st_map_count = length mp,
          st_file_map_agree =
            (available \<and> list_all (\<lambda>(p, b). om_get mp p = Some (b_slot b)) d \<and> length mp = length d),
          st_drift_put = length (put_primary pl) + length (put_tls pl),
          st_drift_delete = length (plan_delete pl),
          st_last_apply = read_apply_stamp apply_stamp (w_fs w),
          st_apply_fail_total = metrics_read metrics_file (w_fs w),
          st_capacity = capacity_snapshot (length mp),
          st_reserved = sorted_list_of_set reserved\<rparr>))"

definition status_value ::
    "'m kops \<Rightarrow> path \<Rightarrow> path \<Rightarrow> path \<Rightarrow> path \<Rightarrow> path \<Rightarrow> path \<Rightarrow> 'm world \<Rightarrow> err + status_report" where
  "status_value ops nginx_conf ports_file policy_file pin_dir freeze_file metrics_file =
     status_value_with_stamp ops nginx_conf ports_file policy_file pin_dir freeze_file metrics_file
       default_apply_stamp"

definition ctl_status :: "'m kops \<Rightarrow> string list \<Rightarrow> ('m, status_report option) cmd" where
  "ctl_status ops args =
     with_flags args [''help'']
       [''nginx-conf'', ''ports-file'', ''policy-file'', ''pin-dir'', ''freeze-file'', ''metrics-file'', ''apply-stamp''] (\<lambda>f.
       getr (status_value_with_stamp ops (nginx_conf_of f) (ports_file_of f) (policy_file_of f) (pin_dir_of f)
         (freeze_file_of f) (metrics_file_of f) (apply_stamp_of f)))"

end
