(* ===== verification/Ctl_Agree.thy ===== *)
theory Ctl_Agree
  imports Ctl
begin

text \<open>
  What the commands of \<open>ctl.rs\<close> keep and establish: the desired file and the live map agree, each
  command changes all of it or a well-defined part, a frozen machine opens nothing.
\<close>

subsection \<open>Elimination of the wrappers\<close>

lemma counted_Inr [act_simps]: "counted mf c w = (Inr x, w') \<longleftrightarrow> c w = Inr x \<and> w' = w"
  by (auto simp: counted_def split: sum.splits)

lemma counted_Inl: "counted mf c w = (Inl e, w') \<longleftrightarrow> c w = Inl e \<and> w' = w\<lparr>w_fs := metrics_increment mf (w_fs w)\<rparr>"
  by (auto simp: counted_def split: sum.splits)

lemma on_fs_iff [act_simps]: "on_fs f w = (r, w') \<longleftrightarrow> (\<exists>fs. f (w_fs w) = (r, fs) \<and> w' = w\<lparr>w_fs := fs\<rparr>)"
  by (auto simp: on_fs_def Let_def split: prod.splits)

lemma load_pinned_Inr: "load_pinned_open_ports dir w = Inr m \<longleftrightarrow> w_pins w (open_ports_path dir) = Some m"
  by (auto simp: load_pinned_open_ports_def split: option.splits)

lemma on_map_iff:
  "w_pins w (open_ports_path dir) = Some m \<Longrightarrow>
   on_map dir f w = (r, w') \<longleftrightarrow>
     (\<exists>n. f m = (r, n) \<and> w' = w\<lparr>w_pins := (w_pins w)(open_ports_path dir := Some n)\<rparr>)"
  by (auto simp: on_map_def load_pinned_open_ports_def Let_def split: prod.splits)

lemma overlap_empty: "overlap reals d mp adding = [] \<longleftrightarrow>
    reals \<inter> (dom (om_get d) \<union> dom (om_get mp) \<union> set adding) = {}"
proof -
  have "finite (reals \<inter> (set (om_keys d) \<union> set (om_keys mp) \<union> set adding))" by simp
  then show ?thesis by (simp add: overlap_def set_om_keys sorted_list_of_set_eq_Nil_iff)
qed

lemma fail_on_overlap_Inr: "fail_on_overlap reals d mp adding = Inr () \<longleftrightarrow>
    reals \<inter> (dom (om_get d) \<union> dom (om_get mp) \<union> set adding) = {}"
  by (simp add: fail_on_overlap_def Let_def overlap_empty)

lemma metrics_increment_frame: "q \<noteq> resolve mf \<Longrightarrow> fs_files (metrics_increment mf fs) q = fs_files fs q"
proof -
  assume q: "q \<noteq> resolve mf"
  have mk: "fs_files (fs_try (Mkdir d) g) q = fs_files g q" for d g
    unfolding fs_try_def by (metis empty_iff fs_do_frame prod.collapse step_writes.simps(5))
  have "fs_files (snd (fs_run (fs_write_steps mf ys) g)) q = fs_files g q" for ys g
    by (rule fs_run_frame [OF prod.collapse [symmetric]]) (use q in \<open>auto simp: fs_write_steps_def\<close>)
  then show ?thesis by (simp add: metrics_increment_def Let_def mk split: option.splits)
qed

subsection \<open>Adding ports\<close>

lemma apply_add_Inr:
  assumes "apply_add ops dir pf polf ports b batch pr summ sync conf mf w = (Inr out, w')"
  obtains d0 reals pol m cur res n fs' where
    "desired_or_empty pf polf (w_fs w) = Inr d0" "real_ports conf w = Inr reals"
    "policy_load polf (w_fs w) = Inr pol" "admissible pol (om_insert_all ports b d0)"
    "w_pins w (open_ports_path dir) = Some m" "read_map ops m = Inr cur"
    "reals \<inter> (dom (om_get d0) \<union> set ports) = {}"
    "reals \<inter> (dom (om_get (om_insert_all ports b d0)) \<union> dom (om_get cur)) = {}"
    "if sync then desired_write (w_pid w) pf (om_insert_all ports b d0) (w_fs w) = (Inr (), fs') else fs' = w_fs w"
    "bulk_put_ports ops ports (b_slot b) batch pr m = (Inr res, n)"
    "w' = w\<lparr>w_fs := fs', w_pins := (w_pins w)(open_ports_path dir := Some n)\<rparr>"
proof -
  from assms obtain d0 reals pol m cur w1 res where
    1: "desired_or_empty pf polf (w_fs w) = Inr d0" "real_ports conf w = Inr reals"
      "policy_load polf (w_fs w) = Inr pol" "validate (om_insert_all ports b d0) pol = Inr ()"
      "w_pins w (open_ports_path dir) = Some m" "read_map ops m = Inr cur"
      "fail_on_overlap reals d0 om_empty ports = Inr ()"
      "fail_on_overlap reals (om_insert_all ports b d0) cur [] = Inr ()"
    and w1: "(if sync then sbind (gets w_pid) (\<lambda>pid. on_fs (desired_write pid pf (om_insert_all ports b d0)))
        else ret ()) w = (Inr (), w1)"
    and w2: "on_map dir (bulk_put_ports ops ports (b_slot b) batch pr) w1 = (Inr res, w')"
    unfolding apply_add_def Let_def
    by (auto simp: act_simps load_pinned_Inr simp del: fail_on_overlap_def)
  obtain fs' where fs': "w1 = w\<lparr>w_fs := fs'\<rparr>"
    "if sync then desired_write (w_pid w) pf (om_insert_all ports b d0) (w_fs w) = (Inr (), fs') else fs' = w_fs w"
    using w1 by (cases sync) (auto simp: act_simps)
  have "w_pins w1 (open_ports_path dir) = Some m" using fs'(1) 1(5) by simp
  from w2 [unfolded on_map_iff [OF this]] obtain n where
    "bulk_put_ports ops ports (b_slot b) batch pr m = (Inr res, n)"
    "w' = w1\<lparr>w_pins := (w_pins w1)(open_ports_path dir := Some n)\<rparr>" by blast
  with 1 fs' show ?thesis
    by (intro that) (auto simp: validate_iff fail_on_overlap_Inr om_get_empty dom_def)
qed

text \<open>
  A failing add. Either nothing it manages changed, or the whole state was found valid first:
  then the file has the old or the new text, and the map a prefix of the puts.
\<close>

lemma apply_add_Inl:
  assumes "apply_add ops dir pf polf ports b batch pr summ sync conf mf w = (Inl e, w')"
    and "resolve mf \<noteq> resolve pf" "names_file pf"
  shows "(fs_files (w_fs w') (resolve pf) = fs_files (w_fs w) (resolve pf) \<and> w_pins w' = w_pins w) \<or>
    (\<exists>d0 pol m n. desired_or_empty pf polf (w_fs w) = Inr d0 \<and> policy_load polf (w_fs w) = Inr pol \<and>
       admissible pol (om_insert_all ports b d0) \<and>
       fs_files (w_fs w') (resolve pf) =
         (if sync then Some (desired_text (om_insert_all ports b d0)) else fs_files (w_fs w) (resolve pf)) \<and>
       w_pins w (open_ports_path dir) = Some m \<and>
       bulk_put_ports ops ports (b_slot b) batch pr m = (Inl e, n) \<and>
       w_pins w' = (w_pins w)(open_ports_path dir := Some n))"
proof -
  have mf: "fs_files (metrics_increment mf fs) (resolve pf) = fs_files fs (resolve pf)" for fs
    using assms(2) by (intro metrics_increment_frame) auto
  note tmp = tmp_path_neq [OF assms(3)]
  show ?thesis
  proof (cases "\<exists>d0 reals pol m cur. desired_or_empty pf polf (w_fs w) = Inr d0 \<and> real_ports conf w = Inr reals \<and>
      fail_on_overlap reals d0 om_empty ports = Inr () \<and> policy_load polf (w_fs w) = Inr pol \<and>
      validate (om_insert_all ports b d0) pol = Inr () \<and> w_pins w (open_ports_path dir) = Some m \<and>
      read_map ops m = Inr cur \<and> fail_on_overlap reals (om_insert_all ports b d0) cur [] = Inr ()")
    case False
    then have "w' = w \<or> w' = w\<lparr>w_fs := metrics_increment mf (w_fs w)\<rparr>"
      using assms(1) unfolding apply_add_def Let_def
      by (simp add: sbind_fail counted_Inl act_simps load_pinned_Inr) blast
    then show ?thesis by (auto simp: mf)
  next
    case True
    then obtain d0 reals pol m cur where ok: "desired_or_empty pf polf (w_fs w) = Inr d0" "real_ports conf w = Inr reals"
      "fail_on_overlap reals d0 om_empty ports = Inr ()" "policy_load polf (w_fs w) = Inr pol"
      "validate (om_insert_all ports b d0) pol = Inr ()" "w_pins w (open_ports_path dir) = Some m"
      "read_map ops m = Inr cur" "fail_on_overlap reals (om_insert_all ports b d0) cur [] = Inr ()" by blast
    let ?d = "om_insert_all ports b d0"
    have tail: "sbind (if sync then sbind (gets w_pid) (\<lambda>pid. on_fs (desired_write pid pf ?d)) else ret ()) (\<lambda>_.
        sbind (on_map dir (bulk_put_ports ops ports (b_slot b) batch pr)) (\<lambda>res.
          ret (if summ then AddedSummary res else OpenedPorts ports (b_slot b)))) w = (Inl e, w')"
      using assms(1) unfolding apply_add_def Let_def
      by (simp add: sbind_def getr_def counted_def lift_res_def ok load_pinned_open_ports_def)
    from sbind_fail [THEN iffD1, OF tail] show ?thesis
    proof
      assume "(if sync then sbind (gets w_pid) (\<lambda>pid. on_fs (desired_write pid pf ?d)) else ret ()) w = (Inl e, w')"
      then obtain fs' where fs': "desired_write (w_pid w) pf ?d (w_fs w) = (Inl e, fs')" "w' = w\<lparr>w_fs := fs'\<rparr>"
        by (cases sync) (auto simp: sbind_fail act_simps)
      have "fs_files fs' (resolve pf) = fs_files (w_fs w) (resolve pf)"
        using replace_file_Inl [OF fs'(1) [unfolded desired_write_def] tmp [symmetric]] .
      then show ?thesis using fs'(2) by simp
    next
      assume "\<exists>x u. (if sync then sbind (gets w_pid) (\<lambda>pid. on_fs (desired_write pid pf ?d)) else ret ()) w = (Inr x, u) \<and>
        sbind (on_map dir (bulk_put_ports ops ports (b_slot b) batch pr)) (\<lambda>res.
          ret (if summ then AddedSummary res else OpenedPorts ports (b_slot b))) u = (Inl e, w')"
      then obtain u where u: "(if sync then sbind (gets w_pid) (\<lambda>pid. on_fs (desired_write pid pf ?d)) else ret ()) w = (Inr (), u)"
        "on_map dir (bulk_put_ports ops ports (b_slot b) batch pr) u = (Inl e, w')"
        by (auto simp: sbind_fail act_simps)
      then obtain fs' where fs': "u = w\<lparr>w_fs := fs'\<rparr>"
        "if sync then desired_write (w_pid w) pf ?d (w_fs w) = (Inr (), fs') else fs' = w_fs w"
        by (cases sync) (auto simp: act_simps)
      have "w_pins u (open_ports_path dir) = Some m" using fs'(1) ok(6) by simp
      from u(2) [unfolded on_map_iff [OF this]] obtain n where n:
        "bulk_put_ports ops ports (b_slot b) batch pr m = (Inl e, n)"
        "w' = u\<lparr>w_pins := (w_pins u)(open_ports_path dir := Some n)\<rparr>" by blast
      have "fs_files fs' (resolve pf) = (if sync then Some (desired_text ?d) else fs_files (w_fs w) (resolve pf))"
        using fs'(2) by (auto simp: desired_write_def dest: replace_file_Inr split: if_splits)
      then show ?thesis using n fs'(1) ok validate_iff [of ?d pol] by auto
    qed
  qed
qed


subsection \<open>File and map agree\<close>

definition agree :: "'m kops \<Rightarrow> ('m \<Rightarrow> bmap) \<Rightarrow> path \<Rightarrow> path \<Rightarrow> path \<Rightarrow> 'm world \<Rightarrow> bool" where
  "agree ops view dir pf polf w \<longleftrightarrow>
     (\<exists>d m. load_with_policy pf polf (w_fs w) = Inr d \<and> w_pins w (open_ports_path dir) = Some m \<and>
        port_layout ops m \<and> port_view ops view m = slot_map d)"

text \<open>The policy file is neither the desired file nor its temporary copy.\<close>

definition files_apart :: "path \<Rightarrow> path \<Rightarrow> nat \<Rightarrow> bool" where
  "files_apart pf polf pid \<longleftrightarrow> names_file pf \<and> resolve polf \<noteq> resolve pf \<and> resolve polf \<noteq> resolve (tmp_path pid pf)"

lemma policy_load_cong:
  "fs_files fs' (resolve polf) = fs_files fs (resolve polf) \<Longrightarrow> fs_unreadable fs' = fs_unreadable fs \<Longrightarrow>
   policy_load polf fs' = policy_load polf fs"
  by (simp add: policy_load_def fs_exists_def fs_read_def fun_eq_iff split: option.splits)

text \<open>Reading back what was written, if it can be read back at all.\<close>

lemma load_after_write:
  assumes "desired_write pid pf d fs = (Inr (), fs')" "files_apart pf polf pid"
    and "policy_load polf fs = Inr pol" "om_wf d" "admissible pol d" "\<forall>e \<in> set d. storable e"
    and "\<not> fs_unreadable fs (resolve pf)"
  shows "load_with_policy pf polf fs' = Inr d"
proof -
  have files: "fs_files fs' = (fs_files fs)(resolve (tmp_path pid pf) := None, resolve pf := Some (desired_text d))"
    using assms(1) by (auto simp: desired_write_def dest: replace_file_Inr)
  have unr: "fs_unreadable fs' = fs_unreadable fs"
    using assms(1) replace_file_keeps unfolding desired_write_def by blast
  have "fs_files fs' (resolve polf) = fs_files fs (resolve polf)"
    using assms(2) by (simp add: files files_apart_def)
  then have "policy_load polf fs' = Inr pol" using assms(3) unr policy_load_cong by metis
  moreover have "fs_read pf fs' = Inr (desired_text d)" using files unr assms(7) by (simp add: fs_read_def)
  moreover have "load_from_reader_with_policy (desired_text d) pol = Inr d"
    using load_desired_text [OF assms(4,5) policy_load_wf [OF assms(3)] assms(6)] .
  ultimately show ?thesis by (simp add: load_with_policy_def)
qed

lemma storable_insert_all:
  "\<forall>e \<in> set d. storable e \<Longrightarrow> hash_free b \<Longrightarrow> slot_ok b \<Longrightarrow> \<forall>e \<in> set (om_insert_all ports b d). storable e"
proof (induction ports arbitrary: d)
  case (Cons p ports)
  have "\<forall>e \<in> set (om_insert p b d). storable e"
    using Cons.prems set_om_insert [of p b d] by (auto simp: storable_def)
  then show ?case using Cons by simp
qed simp

lemma slot_map_insert_all: "om_wf d \<Longrightarrow> slot_map (om_insert_all ports b d) = steer ports (b_slot b) (slot_map d)"
  by (auto simp: slot_map_def steer_def fun_eq_iff)

lemma slot_map_remove_all: "om_wf d \<Longrightarrow> slot_map (om_remove_all ports d) = unsteer ports (slot_map d)"
  by (auto simp: slot_map_def unsteer_def fun_eq_iff)

lemma fs_read_readable: "fs_read p fs = Inr t \<Longrightarrow> fs_exists p fs \<and> \<not> fs_unreadable fs (resolve p)"
  by (auto simp: fs_read_def fs_exists_def split: option.splits if_splits)

lemma load_with_policy_readable:
  "load_with_policy pf polf fs = Inr d \<Longrightarrow> fs_exists pf fs \<and> \<not> fs_unreadable fs (resolve pf)"
  by (auto simp: load_with_policy_def dest: fs_read_readable)

lemma apply_add_agree:
  assumes kern: "kernel_map ops view same" and ag: "agree ops view dir pf polf w"
    and run: "apply_add ops dir pf polf ports b batch pr summ True conf mf w = (Inr out, w')"
    and b: "hash_free b" "slot_ok b" and len: "length ports < 2 ^ 32"
    and ap: "files_apart pf polf (w_pid w)"
  shows "agree ops view dir pf polf w'"
proof -
  from ag obtain d m where d: "load_with_policy pf polf (w_fs w) = Inr d" "w_pins w (open_ports_path dir) = Some m"
    "port_layout ops m" "port_view ops view m = slot_map d" by (auto simp: agree_def)
  from run obtain d0 reals pol m' cur res n fs' where a:
    "desired_or_empty pf polf (w_fs w) = Inr d0" "policy_load polf (w_fs w) = Inr pol"
    "admissible pol (om_insert_all ports b d0)" "w_pins w (open_ports_path dir) = Some m'"
    "desired_write (w_pid w) pf (om_insert_all ports b d0) (w_fs w) = (Inr (), fs')"
    "bulk_put_ports ops ports (b_slot b) batch pr m' = (Inr res, n)"
    "w' = w\<lparr>w_fs := fs', w_pins := (w_pins w)(open_ports_path dir := Some n)\<rparr>"
    by (rule apply_add_Inr) auto
  note rd = load_with_policy_readable [OF d(1)]
  have "d0 = d" using a(1) d(1) rd by (simp add: desired_or_empty_def)
  moreover have "m' = m" using a(4) d(2) by simp
  ultimately have put: "bulk_put_ports ops ports (b_slot b) batch pr m = (Inr res, n)"
    and adm: "admissible pol (om_insert_all ports b d)"
    and wr: "desired_write (w_pid w) pf (om_insert_all ports b d) (w_fs w) = (Inr (), fs')"
    using a by simp_all
  from load_with_policy_inv [OF d(1)] have inv: "om_wf d" "\<forall>e \<in> set d. storable e"
    by (auto simp: desired_inv_def)
  have "load_with_policy pf polf fs' = Inr (om_insert_all ports b d)"
    using inv adm rd by (intro load_after_write [OF wr ap a(2)] storable_insert_all b) auto
  moreover have "same m n" "port_view ops view n = slot_map (om_insert_all ports b d)"
    using kernel_map.bulk_put_ports_spec [OF kern put d(3) len] d(4)
    by (simp_all add: slot_map_insert_all [OF inv(1)])
  moreover have "port_layout ops n" using kernel_map.same_layout [OF kern \<open>same m n\<close> d(3)] .
  ultimately show ?thesis using a(7) by (simp add: agree_def)
qed

subsection \<open>Removing ports\<close>

lemma apply_remove_Inr:
  assumes "apply_remove ops dir pf polf ports batch pr summ sync w = (Inr out, w')"
  obtains m res n fs' where "w_pins w (open_ports_path dir) = Some m"
    "if sync then \<exists>d. load_with_policy pf polf (w_fs w) = Inr d \<and>
        desired_write (w_pid w) pf (om_remove_all ports d) (w_fs w) = (Inr (), fs') else fs' = w_fs w"
    "bulk_delete_ports ops ports batch pr m = (Inr res, n)"
    "w' = w\<lparr>w_fs := fs', w_pins := (w_pins w)(open_ports_path dir := Some n)\<rparr>"
proof -
  from assms obtain m w1 res where m: "w_pins w (open_ports_path dir) = Some m"
    and w1: "(if sync then sbind (getr (\<lambda>w. load_with_policy pf polf (w_fs w))) (\<lambda>d.
        sbind (gets w_pid) (\<lambda>pid. on_fs (desired_write pid pf (om_remove_all ports d)))) else ret ()) w = (Inr (), w1)"
    and w2: "on_map dir (bulk_delete_ports ops ports batch pr) w1 = (Inr res, w')"
    unfolding apply_remove_def by (auto simp: act_simps load_pinned_Inr)
  obtain fs' where fs': "w1 = w\<lparr>w_fs := fs'\<rparr>"
    "if sync then \<exists>d. load_with_policy pf polf (w_fs w) = Inr d \<and>
        desired_write (w_pid w) pf (om_remove_all ports d) (w_fs w) = (Inr (), fs') else fs' = w_fs w"
    using w1 by (cases sync) (auto simp: act_simps)
  have "w_pins w1 (open_ports_path dir) = Some m" using fs'(1) m by simp
  from w2 [unfolded on_map_iff [OF this]] obtain n where
    "bulk_delete_ports ops ports batch pr m = (Inr res, n)"
    "w' = w1\<lparr>w_pins := (w_pins w1)(open_ports_path dir := Some n)\<rparr>" by blast
  with m fs' show ?thesis by (intro that) auto
qed

lemma set_om_remove_all: "set (om_remove_all ports d) \<subseteq> set d"
proof (induction ports arbitrary: d)
  case (Cons p ports)
  have "set (om_remove p d) \<subseteq> set d" by (induction p d rule: om_remove.induct) auto
  then show ?case using Cons.IH [of "om_remove p d"] by auto
qed simp

lemma length_filter_om_remove: "length (filter P (om_remove p d)) \<le> length (filter P d)"
  by (induction p d rule: om_remove.induct) auto

lemma length_filter_om_remove_all: "length (filter P (om_remove_all ports d)) \<le> length (filter P d)"
proof (induction ports arbitrary: d)
  case (Cons p ports)
  then show ?case using length_filter_om_remove [of P p d] le_trans by fastforce
qed simp

lemma admissible_remove_all:
  assumes "admissible pol d"
  shows "admissible pol (om_remove_all ports d)"
proof -
  have "length (om_remove_all ports d) \<le> length d"
    using length_filter_om_remove_all [of "\<lambda>_. True" ports d] by simp
  moreover have "length (tenant_ports (om_remove_all ports d) t) \<le> length (tenant_ports d t)" for t
    unfolding tenant_ports_def by (rule length_filter_om_remove_all)
  ultimately show ?thesis
    using assms set_om_remove_all [of ports d] unfolding admissible_def by (meson le_trans subsetD)
qed

lemma apply_remove_agree:
  assumes kern: "kernel_map ops view same" and ag: "agree ops view dir pf polf w"
    and run: "apply_remove ops dir pf polf ports batch pr summ True w = (Inr out, w')"
    and len: "length ports < 2 ^ 32" and ap: "files_apart pf polf (w_pid w)"
  shows "agree ops view dir pf polf w'"
proof -
  from ag obtain d m where d: "load_with_policy pf polf (w_fs w) = Inr d" "w_pins w (open_ports_path dir) = Some m"
    "port_layout ops m" "port_view ops view m = slot_map d" by (auto simp: agree_def)
  from run obtain m' res n fs' where a: "w_pins w (open_ports_path dir) = Some m'"
    "desired_write (w_pid w) pf (om_remove_all ports d) (w_fs w) = (Inr (), fs')"
    "bulk_delete_ports ops ports batch pr m' = (Inr res, n)"
    "w' = w\<lparr>w_fs := fs', w_pins := (w_pins w)(open_ports_path dir := Some n)\<rparr>"
    by (rule apply_remove_Inr) (auto simp: d(1))
  have del: "bulk_delete_ports ops ports batch pr m = (Inr res, n)" using a d(2) by simp
  obtain pol where pol: "policy_load polf (w_fs w) = Inr pol" "om_wf d" "admissible pol d" "\<forall>e \<in> set d. storable e"
    using load_with_policy_inv [OF d(1)] by (auto simp: desired_inv_def)
  have "load_with_policy pf polf fs' = Inr (om_remove_all ports d)"
    using pol(2,4) set_om_remove_all [of ports d] load_with_policy_readable [OF d(1)]
    by (intro load_after_write [OF a(2) ap pol(1)] admissible_remove_all pol(3)) auto
  moreover have "same m n" "port_view ops view n = slot_map (om_remove_all ports d)"
    using kernel_map.bulk_delete_ports_spec [OF kern del d(3) len] d(4)
    by (simp_all add: slot_map_remove_all [OF pol(2)])
  moreover have "port_layout ops n" using kernel_map.same_layout [OF kern \<open>same m n\<close> d(3)] .
  ultimately show ?thesis using a(4) by (simp add: agree_def)
qed

subsection \<open>Carrying out a plan\<close>

lemma strict_ports_bound: "sorted_wrt (<) (ps :: port list) \<Longrightarrow> length ps < 2 ^ 32"
proof -
  assume "sorted_wrt (<) ps"
  then have "length ps = card (set ps)" by (simp add: strict_sorted_iff distinct_card)
  also have "\<dots> \<le> card (UNIV :: port set)" by (intro card_mono) simp_all
  finally show ?thesis by (simp add: card_word)
qed

definition repinned :: "path \<Rightarrow> 'm \<Rightarrow> 'm world \<Rightarrow> 'm world" where
  "repinned dir n w = w\<lparr>w_pins := (w_pins w)(open_ports_path dir := Some n)\<rparr>"

lemma repinned_simps [simp]: "repinned dir n (repinned dir m w) = repinned dir n w"
  "w_pins (repinned dir n w) (open_ports_path dir) = Some n" "w_fs (repinned dir n w) = w_fs w"
  by (simp_all add: repinned_def)

lemma repinned_same: "w_pins w (open_ports_path dir) = Some m \<Longrightarrow> repinned dir m w = w"
  by (simp add: repinned_def fun_upd_idem)

lemma put_stage_spec:
  assumes kern: "kernel_map ops view same" and run: "put_stage ops dir ps slot batch pr w = (r, w')"
    and m: "w_pins w (open_ports_path dir) = Some m" "port_layout ops m" "sorted_wrt (<) ps"
  shows "\<exists>n i. w' = repinned dir n w \<and> same m n \<and>
    port_view ops view n = steer (take i ps) slot (port_view ops view m) \<and> (is_ok r \<longrightarrow> i = length ps)"
proof (cases "ps = []")
  case True
  then have "w' = w" using run by (simp add: put_stage_def act_simps)
  then show ?thesis using True kernel_map.same_refl [OF kern] m(1)
    by (intro exI [of _ m] exI [of _ 0]) (simp add: repinned_same)
next
  case False
  obtain r1 n where r1: "bulk_put_ports ops ps slot batch pr m = (r1, n)" by fastforce
  then have "on_map dir (bulk_put_ports ops ps slot batch pr) w = (r1, repinned dir n w)"
    by (simp add: on_map_iff [OF m(1)] repinned_def)
  then have w': "w' = repinned dir n w" "is_ok r = is_ok r1"
    using run False by (auto simp: put_stage_def sbind_def act_simps split: sum.splits)
  note spec = kernel_map.bulk_put_ports_spec [OF kern r1 m(2) strict_ports_bound [OF m(3)]]
  show ?thesis
  proof (cases "is_ok r1")
    case True
    then show ?thesis using spec w' by (intro exI [of _ n] exI [of _ "length ps"]) (auto simp: is_ok_iff)
  next
    case False
    then show ?thesis using spec w' by auto
  qed
qed

lemma delete_stage_spec:
  assumes kern: "kernel_map ops view same" and run: "delete_stage ops dir ps batch pr w = (r, w')"
    and m: "w_pins w (open_ports_path dir) = Some m" "port_layout ops m" "sorted_wrt (<) ps"
  shows "\<exists>n i. w' = repinned dir n w \<and> same m n \<and>
    port_view ops view n = unsteer (take i ps) (port_view ops view m) \<and> (is_ok r \<longrightarrow> i = length ps)"
proof (cases "ps = []")
  case True
  then have "w' = w" using run by (simp add: delete_stage_def act_simps)
  then show ?thesis using True kernel_map.same_refl [OF kern] m(1)
    by (intro exI [of _ m] exI [of _ 0]) (simp add: repinned_same)
next
  case False
  obtain r1 n where r1: "bulk_delete_ports ops ps batch pr m = (r1, n)" by fastforce
  then have "on_map dir (bulk_delete_ports ops ps batch pr) w = (r1, repinned dir n w)"
    by (simp add: on_map_iff [OF m(1)] repinned_def)
  then have w': "w' = repinned dir n w" "is_ok r = is_ok r1"
    using run False by (auto simp: delete_stage_def sbind_def act_simps split: sum.splits)
  note spec = kernel_map.bulk_delete_ports_spec [OF kern r1 m(2) strict_ports_bound [OF m(3)]]
  show ?thesis
  proof (cases "is_ok r1")
    case True
    then show ?thesis using spec w' by (intro exI [of _ n] exI [of _ "length ps"]) (auto simp: is_ok_iff)
  next
    case False
    then show ?thesis using spec w' by auto
  qed
qed

lemma carry_out_spec:
  assumes kern: "kernel_map ops view same" and run: "carry_out ops dir (plan d cur) batch pr w = (r, w')"
    and m: "w_pins w (open_ports_path dir) = Some m" "port_layout ops m"
    and d: "om_wf d" "\<forall>e \<in> set d. slot_ok (snd e)" and cur: "om_wf cur" "om_get cur = port_view ops view m"
  shows "\<exists>n. w' = repinned dir n w \<and> same m n \<and>
    (\<forall>p. port_view ops view n p \<in> {port_view ops view m p, slot_map d p}) \<and>
    (is_ok r \<longrightarrow> port_view ops view n = slot_map d)"
proof -
  let ?pl = "plan d cur" and ?v = "port_view ops view"
  note sorted = plan_lists [OF d(1) cur(1)]
  note safe = plan_progress_safe [OF d cur(2)] and complete = plan_progress_complete [OF d cur(2)]
  note trans = kernel_map.same_trans [OF kern] and lay = kernel_map.same_layout [OF kern]
  obtain r1 w1 where 1: "put_stage ops dir (put_primary ?pl) redir_primary batch pr w = (r1, w1)" by fastforce
  from put_stage_spec [OF kern 1 m sorted(1)] obtain n1 i where i: "w1 = repinned dir n1 w" "same m n1"
    "?v n1 = plan_progress ?pl i 0 0 (?v m)" "is_ok r1 \<longrightarrow> i = length (put_primary ?pl)"
    by (auto simp: plan_progress_def)
  obtain r2 w2 where 2: "put_stage ops dir (put_tls ?pl) redir_tls batch pr w1 = (r2, w2)" by fastforce
  have "w_pins w1 (open_ports_path dir) = Some n1" using i(1) by simp
  from put_stage_spec [OF kern 2 this lay [OF i(2) m(2)] sorted(2)] i obtain n2 j where j: "w2 = repinned dir n2 w"
    "same n1 n2" "?v n2 = plan_progress ?pl i j 0 (?v m)" "is_ok r2 \<longrightarrow> j = length (put_tls ?pl)"
    by (auto simp: plan_progress_def)
  note s2 = trans [OF i(2) j(2)]
  obtain r3 w3 where 3: "delete_stage ops dir (plan_delete ?pl) batch pr w2 = (r3, w3)" by fastforce
  have "w_pins w2 (open_ports_path dir) = Some n2" using j(1) by simp
  from delete_stage_spec [OF kern 3 this lay [OF s2 m(2)] sorted(3)] j obtain n3 k where k: "w3 = repinned dir n3 w"
    "same n2 n3" "?v n3 = plan_progress ?pl i j k (?v m)" "is_ok r3 \<longrightarrow> k = length (plan_delete ?pl)"
    by (auto simp: plan_progress_def)
  have "(w' = w1 \<or> w' = w2) \<and> \<not> is_ok r \<or> w' = w3 \<and> r = r3 \<and> is_ok r1 \<and> is_ok r2"
    using run 1 2 3 by (auto simp: carry_out_def sbind_def split: sum.splits)
  then show ?thesis
  proof (elim disjE conjE)
    assume "w' = w1" "\<not> is_ok r"
    then show ?thesis using i safe by (intro exI [of _ n1]) simp
  next
    assume "w' = w2" "\<not> is_ok r"
    then show ?thesis using j s2 safe by (intro exI [of _ n2]) simp
  next
    assume w': "w' = w3" and r: "r = r3" "is_ok r1" "is_ok r2"
    have "?v n3 = slot_map d" if "is_ok r3"
      unfolding k(3) using that i(4) j(4) k(4) r by (intro complete) auto
    then show ?thesis using w' r k trans [OF s2 k(2)] safe by (intro exI [of _ n3]) simp
  qed
qed

lemma reconcile_with_cases:
  assumes "reconcile_with ops dir pf polf conf mf braw pr w = (r, w')"
  obtains (refused) "\<not> is_ok r" "w' = w \<or> w' = w\<lparr>w_fs := metrics_increment mf (w_fs w)\<rparr>"
  | (ran) d reals m cur batch r1 where "load_with_policy pf polf (w_fs w) = Inr d" "real_ports conf w = Inr reals"
      "w_pins w (open_ports_path dir) = Some m" "read_map ops m = Inr cur"
      "reals \<inter> (dom (om_get d) \<union> dom (om_get cur)) = {}" "parse_batch braw = Inr batch"
      "carry_out ops dir (plan d cur) batch pr w = (r1, w')" "is_ok r = is_ok r1"
  using assms unfolding reconcile_with_def
  by (auto simp: sbind_def act_simps counted_def Let_def load_pinned_Inr fail_on_overlap_Inr
      split: sum.splits prod.splits)

lemma reconcile_with_spec:
  assumes kern: "kernel_map ops view same" and run: "reconcile_with ops dir pf polf conf mf braw pr w = (r, w')"
    and m: "w_pins w (open_ports_path dir) = Some m" "port_layout ops m"
  shows "\<exists>n. w_pins w' = (w_pins w)(open_ports_path dir := Some n) \<and> same m n \<and>
    (w_fs w' = w_fs w \<or> w_fs w' = metrics_increment mf (w_fs w)) \<and>
    (n = m \<and> \<not> is_ok r \<or> (\<exists>d. load_with_policy pf polf (w_fs w) = Inr d \<and>
      (\<forall>p. port_view ops view n p \<in> {port_view ops view m p, slot_map d p}) \<and>
      (is_ok r \<longrightarrow> port_view ops view n = slot_map d \<and> w_fs w' = w_fs w)))"
  using run
proof (cases rule: reconcile_with_cases)
  case refused
  then show ?thesis using m(1) kernel_map.same_refl [OF kern] by (intro exI [of _ m]) (auto simp: fun_upd_idem)
next
  case (ran d reals m' cur batch r1)
  then have [simp]: "m' = m" using m(1) by simp
  note inv = load_with_policy_inv [OF ran(1)]
  have "om_wf cur" "om_get cur = port_view ops view m"
    using kernel_map.read_map_spec [OF kern _ m(2)] ran(4) by auto
  moreover have "om_wf d" "\<forall>e \<in> set d. slot_ok (snd e)" using inv by (auto simp: desired_inv_def storable_def)
  ultimately obtain n where "w' = repinned dir n w" "same m n"
    "\<forall>p. port_view ops view n p \<in> {port_view ops view m p, slot_map d p}"
    "is_ok r1 \<longrightarrow> port_view ops view n = slot_map d"
    using carry_out_spec [OF kern ran(7) m] by blast
  then show ?thesis using ran(1,8) by (intro exI [of _ n]) (auto simp: repinned_def)
qed

lemma reconcile_with_agree:
  assumes kern: "kernel_map ops view same" and run: "reconcile_with ops dir pf polf conf mf braw pr w = (Inr out, w')"
    and m: "w_pins w (open_ports_path dir) = Some m" "port_layout ops m"
  shows "agree ops view dir pf polf w'"
  using reconcile_with_spec [OF kern run m] kernel_map.same_layout [OF kern _ m(2)]
  by (auto simp: agree_def)

subsection \<open>The freeze gate\<close>

lemma with_flags_run:
  "parse_go_flags args bools vals = Inr f \<Longrightarrow> \<not> bool_flag f ''help'' \<Longrightarrow>
   with_flags args bools vals body w = sbind (body f) (\<lambda>x. ret (Some x)) w"
  by (simp add: with_flags_def sbind_def lift_res_def)

definition stuck :: "('m, 'a) cmd \<Rightarrow> 'm world \<Rightarrow> bool" where
  "stuck c w \<longleftrightarrow> (\<exists>e. c w = (Inl e, w))"

named_theorems stuck_intros

lemma stuck_read [stuck_intros]: "(\<And>x. c w = (Inr x, w) \<Longrightarrow> stuck (k x) w) \<Longrightarrow>
    (\<And>r w'. c w = (r, w') \<Longrightarrow> w' = w) \<Longrightarrow> stuck (sbind c k) w"
  by (cases "c w"; cases "fst (c w)") (force simp: stuck_def sbind_def)+

lemma reads_only [simp]: "getr g w = (r, w') \<Longrightarrow> w' = w" "lift_res x w = (r, w') \<Longrightarrow> w' = w"
  "gets h w = (r', w') \<Longrightarrow> w' = w" "collect_or_usage u f w = (r'', w') \<Longrightarrow> w' = w"
  by (auto simp: act_simps collect_or_usage_def split: sum.splits if_splits)

lemma stuck_frozen: "is_frozen (freeze_file_of f) (w_fs w) \<Longrightarrow>
    stuck (sbind (getr (reject_frozen f op t s ps)) k) w"
  using reject_if_frozen_iff [of "freeze_file_of f" op t s ps "w_fs w"]
  by (cases "reject_if_frozen (freeze_file_of f) op t s ps (w_fs w)")
    (auto simp: stuck_def sbind_def getr_def reject_frozen_def)

lemma stuck_with_flags:
  "parse_go_flags args bools vals = Inr f \<Longrightarrow> \<not> bool_flag f ''help'' \<Longrightarrow> stuck (body f) w \<Longrightarrow>
   stuck (with_flags args bools vals body) w"
  by (auto simp: stuck_def with_flags_run sbind_def)

lemmas stuck_rules = stuck_read stuck_frozen reads_only

lemma frozen_add:
  assumes "is_frozen (freeze_file_of f) (w_fs w)" "\<not> bool_flag f ''help''"
    and "parse_go_flags args add_bools add_vals = Inr f"
  shows "stuck (ctl_add ops args) w"
  unfolding ctl_add_def using assms by (intro stuck_with_flags [OF assms(3,2)] stuck_rules) auto

lemma frozen_bulk_add:
  assumes "is_frozen (freeze_file_of f) (w_fs w)" "\<not> bool_flag f ''help''"
    and "parse_go_flags args bulk_add_bools bulk_add_vals = Inr f"
  shows "stuck (ctl_bulk_add ops args) w"
  unfolding ctl_bulk_add_def using assms by (intro stuck_with_flags [OF assms(3,2)] stuck_rules) auto

lemma frozen_bulk_remove:
  assumes "is_frozen (freeze_file_of f) (w_fs w)" "\<not> bool_flag f ''help''"
    and "parse_go_flags args bulk_remove_bools bulk_remove_vals = Inr f"
  shows "stuck (ctl_bulk_remove ops args) w"
  unfolding ctl_bulk_remove_def using assms by (intro stuck_with_flags [OF assms(3,2)] stuck_rules) auto

lemma frozen_fill:
  assumes "is_frozen (freeze_file_of f) (w_fs w)" "\<not> bool_flag f ''help''"
    and "parse_go_flags args fill_bools fill_vals = Inr f"
  shows "stuck (ctl_bulk_fill ops args) w"
  unfolding ctl_bulk_fill_def using assms by (intro stuck_with_flags [OF assms(3,2)] stuck_rules) auto

lemma frozen_reconcile:
  assumes "is_frozen (freeze_file_of f) (w_fs w)" "\<not> bool_flag f ''help''"
    and "parse_go_flags args reconcile_bools reconcile_vals = Inr f"
  shows "stuck (ctl_reconcile ops args) w"
  unfolding ctl_reconcile_def using assms by (intro stuck_with_flags [OF assms(3,2)] stuck_rules) auto

lemma frozen_central:
  assumes "is_frozen (freeze_file_of f) (w_fs w)" "\<not> bool_flag f ''help''"
    and "parse_go_flags args central_bools central_vals = Inr f"
  shows "stuck (ctl_apply_central pj ops args) w"
  unfolding ctl_apply_central_def using assms by (intro stuck_with_flags [OF assms(3,2)] stuck_rules) auto

lemma frozen_import:
  assumes "is_frozen (freeze_file_of f) (w_fs w)" "\<not> bool_flag f ''help''"
    and "parse_go_flags args import_bools import_vals = Inr f"
  shows "stuck (ctl_import_listens pr args) w"
  unfolding ctl_import_listens_def Let_def using assms
  by (intro stuck_with_flags [OF assms(3,2)] stuck_rules) (auto split: prod.split intro!: stuck_frozen)

subsection \<open>apply-central\<close>

lemma reconcile_args_parse:
  "\<exists>g. parse_go_flags (reconcile_args f) reconcile_bools reconcile_vals = Inr g \<and> \<not> bool_flag g ''help'' \<and>
     pin_dir_of g = pin_dir_of f \<and> ports_file_of g = ports_file_of f \<and> policy_file_of g = policy_file_of f \<and>
     freeze_file_of g = freeze_file_of f \<and> nginx_conf_of g = nginx_conf_of f \<and>
     metrics_file_of g = metrics_file_of f \<and> flag_get g ''batch'' = flag_get f ''batch'' \<and>
     bool_flag g ''quiet'' = bool_flag f ''quiet''"
proof -
  have canon: "path_canon (pin_dir_of f)" "path_canon (ports_file_of f)" "path_canon (policy_file_of f)"
    "path_canon (freeze_file_of f)" "path_canon (nginx_conf_of f)" "path_canon (metrics_file_of f)"
    by (simp_all add: pin_dir_of_def ports_file_of_def policy_file_of_def freeze_file_of_def nginx_conf_of_def
        metrics_file_of_def path_canon_path_of path_canon_default split: option.split)
  define paths where "paths g = add_flag ''freeze-file'' (display_path (freeze_file_of f))
      (add_flag ''policy-file'' (display_path (policy_file_of f)) (add_flag ''ports-file'' (display_path (ports_file_of f))
      (add_flag ''pin-dir'' (display_path (pin_dir_of f)) g)))" for g
  define quiet where "quiet g = (if bool_flag f ''quiet'' then add_flag ''quiet'' ''true'' g else g)" for g
  define batch where "batch g = (case flag_get f ''batch'' of Some b \<Rightarrow> add_flag ''batch'' b g | None \<Rightarrow> g)" for g
  define g where "g = add_flag ''metrics-file'' (display_path (metrics_file_of f))
      (add_flag ''nginx-conf'' (display_path (nginx_conf_of f)) (batch (quiet (paths no_flags))))"
  have "parse_go_flags (reconcile_args f) reconcile_bools reconcile_vals = Inr g"
    by (simp add: parse_go_flags_def reconcile_args_def reconcile_bools_def reconcile_vals_def g_def paths_def
        quiet_def batch_def flags_loop_val flags_loop_bool plain_name_def
        del: flags_loop.simps add: flags_loop.simps(1) split: option.split)
  moreover have "flag_get g n = (if n = ''metrics-file'' then Some (display_path (metrics_file_of f))
      else if n = ''nginx-conf'' then Some (display_path (nginx_conf_of f))
      else if n = ''batch'' then flag_get f ''batch''
      else if n = ''quiet'' then (if bool_flag f ''quiet'' then Some ''true'' else None)
      else if n = ''freeze-file'' then Some (display_path (freeze_file_of f))
      else if n = ''policy-file'' then Some (display_path (policy_file_of f))
      else if n = ''ports-file'' then Some (display_path (ports_file_of f))
      else if n = ''pin-dir'' then Some (display_path (pin_dir_of f)) else None)" for n
    by (simp add: g_def batch_def quiet_def paths_def split: option.split)
  ultimately show ?thesis using canon
    by (intro exI [of _ g]) (simp add: bool_flag_def [of g] pin_dir_of_def [of g] ports_file_of_def [of g]
        policy_file_of_def [of g] freeze_file_of_def [of g] nginx_conf_of_def [of g] metrics_file_of_def [of g]
        get_or_def path_of_display)
qed

subsection \<open>A whole apply-central\<close>

lemma with_flags_Some:
  "with_flags args bools vals body w = (Inr (Some out), w') \<Longrightarrow> parse_go_flags args bools vals = Inr f \<Longrightarrow>
   \<not> bool_flag f ''help'' \<and> body f w = (Inr out, w')"
  by (auto simp: with_flags_def lift_res_def sbind_def ret_def split: if_splits sum.splits prod.splits)

lemma sbind_InrE:
  assumes "sbind m k w = (Inr y, t)"
  obtains x u where "m w = (Inr x, u)" "k x u = (Inr y, t)"
  using assms by (auto simp: sbind_ret)

lemma counted_InrD: "counted mf c w = (Inr x, u) \<Longrightarrow> c w = Inr x \<and> u = w"
  by (simp add: counted_Inr)

lemma if_counted_Inr: "(if c then counted mf g else ret ()) w = (Inr y, u) \<Longrightarrow> u = w"
  by (cases c) (simp_all add: counted_Inr ret_def)

lemma getr_Inr: "getr g w = (Inr x, w') \<longleftrightarrow> g w = Inr x \<and> w' = w"
  by (auto simp: getr_def)

lemma reject_frozen_Inr: "reject_frozen f op t s ps w = Inr u \<longleftrightarrow> \<not> is_frozen (freeze_file_of f) (w_fs w)"
  by (simp add: reject_frozen_def reject_if_frozen_iff)

lemma ctl_reconcile_Inr:
  assumes "ctl_reconcile ops args w = (Inr (Some out), w')" "parse_go_flags args reconcile_bools reconcile_vals = Inr f"
  shows "\<not> is_frozen (freeze_file_of f) (w_fs w) \<and>
    reconcile_with ops (pin_dir_of f) (ports_file_of f) (policy_file_of f) (nginx_conf_of f) (metrics_file_of f)
      (flag_get f ''batch'') (\<not> bool_flag f ''quiet'') w = (Inr out, w')"
  using with_flags_Some [OF assms(1) [unfolded ctl_reconcile_def] assms(2)]
  by (auto simp: sbind_ret getr_Inr reject_frozen_Inr)

lemma write_stamp_keeps:
  assumes "q \<noteq> resolve stamp"
  shows "fs_files (snd (write_apply_stamp now stamp fs)) q = fs_files fs q"
  unfolding write_apply_stamp_def
  by (rule fs_run_frame [OF prod.collapse [symmetric]])
    (use assms in \<open>auto simp: fs_write_steps_def split: option.splits\<close>)

lemma fs_run_keeps: "fs_run sts fs = (r, fs') \<Longrightarrow> fs_unreadable fs' = fs_unreadable fs"
proof (induction sts arbitrary: fs)
  case (Cons st sts)
  then show ?case
    by (auto simp: sbind_def split: prod.splits sum.splits dest!: fs_do_keeps)
qed (simp add: act_simps)

lemma load_with_policy_cong:
  assumes "fs_files fs' (resolve pf) = fs_files fs (resolve pf)" "fs_files fs' (resolve polf) = fs_files fs (resolve polf)"
    "fs_unreadable fs' = fs_unreadable fs"
  shows "load_with_policy pf polf fs' = load_with_policy pf polf fs"
proof -
  have "fs_read pf fs' = fs_read pf fs" using assms(1,3) by (simp add: fs_read_def split: option.split)
  then show ?thesis using policy_load_cong [OF assms(2,3)] by (simp add: load_with_policy_def)
qed

text \<open>Where \<open>apply-central\<close> reads from.\<close>

definition central_source :: "parsed_flags \<Rightarrow> path" where
  "central_source f = path_of (case flag_get f ''from'' of Some v \<Rightarrow> v
     | None \<Rightarrow> get_or f ''from-central'' ''central/desired-state.json'')"

lemma apply_central_agree:
  assumes kern: "kernel_map ops view same"
    and run: "ctl_apply_central pj ops args w = (Inr (Some ()), w')"
    and f: "parse_go_flags args central_bools central_vals = Inr f"
    and m: "w_pins w (open_ports_path (pin_dir_of f)) = Some m" "port_layout ops m"
    and stamp: "resolve (apply_stamp_of f) \<notin> {resolve (ports_file_of f), resolve (policy_file_of f)}"
  shows "\<not> is_frozen (freeze_file_of f) (w_fs w) \<and>
    (\<exists>d. central_load pj (central_source f) (w_fs w) = Inr d \<and>
       fs_files (w_fs w') (resolve (ports_file_of f)) = Some (desired_text d)) \<and>
    agree ops view (pin_dir_of f) (ports_file_of f) (policy_file_of f) w'"
proof -
  obtain g where g: "parse_go_flags (reconcile_args f) reconcile_bools reconcile_vals = Inr g"
    "pin_dir_of g = pin_dir_of f" "ports_file_of g = ports_file_of f" "policy_file_of g = policy_file_of f"
    "freeze_file_of g = freeze_file_of f" "\<not> bool_flag g ''help''"
    using reconcile_args_parse [of f] by blast
  note body = with_flags_Some [OF run [unfolded ctl_apply_central_def] f, folded central_source_def, unfolded Let_def,
      THEN conjunct2]
  obtain d d' w1 w2 out where fz: "\<not> is_frozen (freeze_file_of f) (w_fs w)"
    and d: "central_load pj (central_source f) (w_fs w) = Inr d"
    and w1: "on_fs (apply_cache pj (w_pid w) (central_source f) (ports_file_of f) (policy_file_of f)) w = (Inr d', w1)"
    and w2: "ctl_reconcile ops (reconcile_args f) w1 = (Inr out, w2)"
    and w': "w' = snd (on_fs (write_apply_stamp (w_now w2) (apply_stamp_of f)) w2)"
  proof -
    from body show thesis
      apply (elim sbind_InrE)
      apply (simp only: getr_Inr reject_frozen_Inr lift_res_def gets_def counted_Inr prod.inject)
      apply (elim conjE)
      apply (simp only: split_beta)
      apply (elim sbind_InrE)
      apply (drule if_counted_Inr)
      apply (simp only: gets_def prod.inject)
      apply (elim conjE)
      apply (rule that)
      apply (simp_all only: sum.inject not_False_eq_True)
      apply clarify
      done
  qed
  obtain fs1 where fs1: "apply_cache pj (w_pid w) (central_source f) (ports_file_of f) (policy_file_of f) (w_fs w) = (Inr d', fs1)"
    "w1 = w\<lparr>w_fs := fs1\<rparr>" using w1 by (auto simp: on_fs_iff)
  then have txt1: "d' = d" "fs_files fs1 (resolve (ports_file_of f)) = Some (desired_text d)"
    using apply_cache_Inr [OF fs1(1)] d by auto
  obtain out' where out': "out = Some out'" using w2 g(1,6)
    by (cases out) (auto simp: ctl_reconcile_def with_flags_run sbind_ret ret_def)
  note rec = ctl_reconcile_Inr [OF w2 [unfolded out'] g(1), THEN conjunct2, unfolded g]
  have m1: "w_pins w1 (open_ports_path (pin_dir_of f)) = Some m" using m(1) fs1(2) by simp
  have ag: "agree ops view (pin_dir_of f) (ports_file_of f) (policy_file_of f) w2"
    by (rule reconcile_with_agree [OF kern rec m1 m(2)])
  have fs2: "w_fs w2 = fs1"
    using reconcile_with_spec [OF kern rec m1 m(2)] fs1(2) by auto
  obtain fs3 r3 where fs3: "write_apply_stamp (w_now w2) (apply_stamp_of f) (w_fs w2) = (r3, fs3)" by fastforce
  then have w3: "w' = w2\<lparr>w_fs := fs3\<rparr>" using w' by (simp add: on_fs_def)
  have same: "fs_files fs3 q = fs_files (w_fs w2) q" if "q \<noteq> resolve (apply_stamp_of f)" for q
    using write_stamp_keeps [OF that, of "w_now w2" "w_fs w2"] fs3 by simp
  have "load_with_policy (ports_file_of f) (policy_file_of f) fs3 =
      load_with_policy (ports_file_of f) (policy_file_of f) (w_fs w2)"
    using stamp fs_run_keeps [OF fs3 [unfolded write_apply_stamp_def]] by (intro load_with_policy_cong same) auto
  with ag have "agree ops view (pin_dir_of f) (ports_file_of f) (policy_file_of f) w'"
    by (simp add: agree_def w3)
  moreover have "fs_files (w_fs w') (resolve (ports_file_of f)) = Some (desired_text d)"
    using same [of "resolve (ports_file_of f)"] stamp txt1(2) fs2 w3 by auto
  ultimately show ?thesis using fz d by blast
qed

subsection \<open>Emergency close\<close>

lemma close_all_spec:
  assumes kern: "kernel_map ops view same" and run: "close_all_with ops dir braw pr w = (r, w')"
    and m: "w_pins w (open_ports_path dir) = Some m" "port_layout ops m"
  shows "\<exists>n. w' = repinned dir n w \<and> same m n \<and>
    (\<forall>p. port_view ops view n p \<in> {port_view ops view m p, None}) \<and>
    (is_ok r \<longrightarrow> port_view ops view n = (\<lambda>_. None))"
proof -
  have pinned: "getr (load_pinned_open_ports dir) w = (Inr m, w)"
    using m(1) by (simp add: getr_def load_pinned_open_ports_def)
  show ?thesis
proof (cases "\<exists>cur batch. read_map ops m = Inr cur \<and> parse_batch braw = Inr batch")
  case False
  then consider e where "read_map ops m = Inl e" | cur e where "read_map ops m = Inr cur" "parse_batch braw = Inl e"
    by (metis old.sum.exhaust)
  then have "\<exists>e. close_all_with ops dir braw pr w = (Inl e, w)"
    unfolding close_all_with_def sbind_step [where m = "getr (load_pinned_open_ports dir)", OF pinned]
    by cases (simp_all add: lift_res_def sbind_def)
  then have "w' = w \<and> \<not> is_ok r" using run by auto
  then show ?thesis using m(1) kernel_map.same_refl [OF kern]
    by (intro exI [of _ m]) (simp add: repinned_same)
next
  case True
  then obtain cur batch where cb: "read_map ops m = Inr cur" "parse_batch braw = Inr batch" by blast
  obtain r1 n where 1: "bulk_delete_ports ops (sort (om_keys cur)) batch pr m = (r1, n)" by fastforce
  then have "on_map dir (bulk_delete_ports ops (sort (om_keys cur)) batch pr) w = (r1, repinned dir n w)"
    by (simp add: on_map_iff [OF m(1)] repinned_def)
  then have w': "w' = repinned dir n w" "is_ok r = is_ok r1"
    using run unfolding close_all_with_def sbind_step [where m = "getr (load_pinned_open_ports dir)", OF pinned]
    by (auto simp: cb sbind_def lift_res_def ret_def split: sum.splits)
  have cur: "om_wf cur" "om_get cur = port_view ops view m"
    using kernel_map.read_map_spec [OF kern cb(1) m(2)] by auto
  have "sorted_wrt (<) (sort (om_keys cur))" using om.distinct_keys [OF cur(1)] by (simp add: strict_sorted_iff)
  note spec = kernel_map.bulk_delete_ports_spec [OF kern 1 m(2) strict_ports_bound [OF this]]
  have "port_view ops view n p \<in> {port_view ops view m p, None}" for p
    using spec by (auto simp: unsteer_def split: if_splits)
  moreover have "port_view ops view n = (\<lambda>_. None)" if "is_ok r1"
  proof -
    have "port_view ops view n = unsteer (sort (om_keys cur)) (port_view ops view m)"
      using spec that by (auto simp: is_ok_iff)
    then show ?thesis using set_om_keys [of cur] cur(2) by (auto simp: unsteer_def fun_eq_iff)
  qed
  ultimately show ?thesis using w' spec by blast
qed
qed

subsection \<open>Status\<close>

lemma status_agree_iff:
  assumes kern: "kernel_map ops view same"
    and st: "status_value_with_stamp ops conf pf polf dir fz mf stamp w = Inr st"
    and m: "w_pins w (open_ports_path dir) = Some m" "port_layout ops m"
    and rd: "read_map ops m = Inr cur" and d: "desired_or_empty pf polf (w_fs w) = Inr d"
  shows "st_file_map_agree st \<longleftrightarrow> port_view ops view m = slot_map d"
proof -
  have avail: "map_if_available ops dir w = (cur, True)"
    using m(1) rd by (simp add: map_if_available_def load_pinned_open_ports_def)
  have cur: "om_wf cur" "om_get cur = port_view ops view m"
    using kernel_map.read_map_spec [OF kern rd m(2)] by auto
  have dwf: "om_wf d" "\<forall>e \<in> set d. slot_ok (snd e)"
    using d load_with_policy_inv [of pf polf "w_fs w" d]
    by (auto simp: desired_or_empty_def desired_inv_def storable_def om_empty_def om_wf_def split: if_splits)
  from st have fields: "st_file_map_agree st \<longleftrightarrow> list_all (\<lambda>(p, b). om_get cur p = Some (b_slot b)) d \<and> length cur = length d"
    by (auto simp: status_value_with_stamp_def avail d Let_def)
  have all: "list_all (\<lambda>(p, b). om_get cur p = Some (b_slot b)) d \<longleftrightarrow> slot_map d \<subseteq>\<^sub>m om_get cur"
  proof -
    have "list_all (\<lambda>(p, b). om_get cur p = Some (b_slot b)) d \<longleftrightarrow>
        (\<forall>p b. om_get d p = Some b \<longrightarrow> om_get cur p = Some (b_slot b))"
      using om_get_Some_iff [OF dwf(1)] by (auto simp: list_all_iff)
    also have "\<dots> \<longleftrightarrow> slot_map d \<subseteq>\<^sub>m om_get cur" by (auto simp: map_le_def slot_map_def dom_def)
    finally show ?thesis .
  qed
  have domd: "dom (slot_map d) = dom (om_get d)" by (auto simp: slot_map_def)
  have len: "length cur = length d \<longleftrightarrow> card (dom (om_get cur)) = card (dom (slot_map d))"
    by (simp add: length_om_keys cur(1) dwf(1) domd)
  have fin: "finite (dom (om_get cur))" by simp
  show "st_file_map_agree st \<longleftrightarrow> port_view ops view m = slot_map d"
    unfolding fields all len cur(2) [symmetric]
  proof
    assume le: "slot_map d \<subseteq>\<^sub>m om_get cur \<and> card (dom (om_get cur)) = card (dom (slot_map d))"
    then have "dom (slot_map d) = dom (om_get cur)"
      by (intro card_subset_eq fin) (auto dest: map_le_implies_dom_le)
    with le have "om_get cur \<subseteq>\<^sub>m slot_map d" by (simp add: map_le_def)
    with le show "om_get cur = slot_map d" by (auto intro: map_le_antisym)
  qed simp
qed

text \<open>The two drift counts: what a reconcile would put, and what it would delete.\<close>

lemma status_drift:
  assumes kern: "kernel_map ops view same"
    and st: "status_value_with_stamp ops conf pf polf dir fz mf stamp w = Inr st"
    and m: "w_pins w (open_ports_path dir) = Some m" "port_layout ops m"
    and rd: "read_map ops m = Inr cur" and d: "desired_or_empty pf polf (w_fs w) = Inr d"
  shows "st_drift_put st = card {p \<in> dom (slot_map d). port_view ops view m p \<noteq> slot_map d p}"
    and "st_drift_delete st = card (dom (port_view ops view m) - dom (slot_map d))"
proof -
  have avail: "map_if_available ops dir w = (cur, True)"
    using m(1) rd by (simp add: map_if_available_def load_pinned_open_ports_def)
  have cur: "om_wf cur" "om_get cur = port_view ops view m"
    using kernel_map.read_map_spec [OF kern rd m(2)] by auto
  have dwf: "om_wf d"
    using d load_with_policy_inv [of pf polf "w_fs w" d]
    by (auto simp: desired_or_empty_def desired_inv_def om_empty_def om_wf_def split: if_splits)
  have fields: "st_drift_put st = length (put_primary (plan d cur)) + length (put_tls (plan d cur))"
    "st_drift_delete st = length (plan_delete (plan d cur))"
    using st by (auto simp: status_value_with_stamp_def avail d Let_def)
  have disj: "set (put_primary (plan d cur)) \<inter> set (put_tls (plan d cur)) = {}"
    by (auto simp: set_put_primary [OF dwf] set_put_tls [OF dwf])
  note srt = plan_lists [OF dwf cur(1)]
  have len: "length xs = card (set xs)" if "sorted_wrt (<) xs" for xs :: "port list"
    using that by (simp add: strict_sorted_iff distinct_card)
  have "st_drift_put st = card (set (put_primary (plan d cur)) \<union> set (put_tls (plan d cur)))"
    using len [OF srt(1)] len [OF srt(2)] disj by (simp add: fields card_Un_disjoint)
  also have "set (put_primary (plan d cur)) \<union> set (put_tls (plan d cur)) =
      {p \<in> dom (slot_map d). port_view ops view m p \<noteq> slot_map d p}"
    unfolding cur(2) [symmetric] by (auto simp: set_put_primary [OF dwf] set_put_tls [OF dwf] slot_map_def)
  finally show "st_drift_put st = card {p \<in> dom (slot_map d). port_view ops view m p \<noteq> slot_map d p}" .
  have "set (plan_delete (plan d cur)) = dom (port_view ops view m) - dom (slot_map d)"
    unfolding cur(2) [symmetric] by (auto simp: set_plan_delete slot_map_def)
  then show "st_drift_delete st = card (dom (port_view ops view m) - dom (slot_map d))"
    using len [OF srt(3)] by (simp add: fields)
qed

subsection \<open>Commands that only look\<close>

lemma getr_world: "snd (getr g w) = w" "snd (lift_res x w) = w" "snd (gets h w) = w" "snd (ret y w) = w" "snd (fail e w) = w"
  by (simp_all add: act_defs)

lemma reads_sbind: "snd (c w) = w \<Longrightarrow> (\<And>x. snd (k x w) = w) \<Longrightarrow> snd (sbind c k w) = w"
  by (auto simp: sbind_def split: prod.splits sum.splits)

lemma reads_with_flags: "(\<And>f. snd (body f w) = w) \<Longrightarrow> snd (with_flags args bools vals body w) = w"
  unfolding with_flags_def by (intro reads_sbind) (auto simp: getr_world intro!: reads_sbind)

lemma status_reads: "snd (ctl_status ops args w) = w"
  unfolding ctl_status_def by (intro reads_with_flags getr_world)

lemma retire_reads: "snd (ctl_retire_conf_listen args w) = w"
  unfolding ctl_retire_conf_listen_def
  by (rule reads_with_flags) (auto intro!: reads_sbind simp: getr_world)

lemma check_overlap_reads: "snd (ctl_check_overlap ops args w) = w"
  unfolding ctl_check_overlap_def Let_def
  by (rule reads_with_flags) (auto intro!: reads_sbind simp: getr_world split: prod.splits)

lemma list_reads: "snd (ctl_list ops args w) = w"
  unfolding ctl_list_def Let_def list_pinned_ports_def
  by (rule reads_with_flags) (auto intro!: reads_sbind simp: getr_world split: prod.splits)

subsection \<open>Importing listens\<close>

lemma import_Inr:
  assumes run: "ctl_import_listens print_json args w = (Inr (Some (Imported ports skipped)), w')"
    and f: "parse_go_flags args import_bools import_vals = Inr f"
  shows "\<not> is_frozen (freeze_file_of f) (w_fs w) \<and> w_pins w' = w_pins w \<and> w_nginx w' = w_nginx w \<and>
    (\<exists>pol b d0 listens extra. policy_load (policy_file_of f) (w_fs w) = Inr pol \<and> import_binding f w = Inr b \<and>
       desired_or_empty (ports_file_of f) (policy_file_of f) (w_fs w) = Inr d0 \<and>
       parse_listen_ports_from_conf (w_nginx w) (case flag_get f ''from'' of Some v \<Rightarrow> path_of v | None \<Rightarrow> nginx_conf_of f)
         = Inr listens \<and>
       importable_ports listens pol extra = (ports, skipped) \<and>
       admissible pol (om_insert_all ports b d0) \<and>
       (flag_get f ''central-out'' = None \<longrightarrow>
         fs_files (w_fs w') (resolve (ports_file_of f)) = Some (desired_text (om_insert_all ports b d0))))"
proof -
  let ?conf = "case flag_get f ''from'' of Some v \<Rightarrow> path_of v | None \<Rightarrow> nginx_conf_of f"
  note body = with_flags_Some [OF run [unfolded ctl_import_listens_def] f, unfolded Let_def, THEN conjunct2]
  from body obtain b pol extra listens where 1: "import_binding f w = Inr b" "policy_load (policy_file_of f) (w_fs w) = Inr pol"
    "parse_listen_ports_from_conf (w_nginx w) ?conf = Inr listens"
    and rest: "(case importable_ports listens pol extra of (ports, skipped) \<Rightarrow>
      sbind (getr (reject_frozen f ''import-listen'' (b_tenant b) (b_site b) ports)) (\<lambda>_.
       if bool_flag f ''dry-run'' then ret (ImportDryRun ports skipped)
       else sbind (getr (\<lambda>w. desired_or_empty (ports_file_of f) (policy_file_of f) (w_fs w))) (\<lambda>d0.
         sbind (lift_res (validate (om_insert_all ports b d0) pol)) (\<lambda>_.
         if ports = [] then ret (ImportNothing skipped)
         else sbind (gets w_pid) (\<lambda>pid.
           sbind (on_fs (desired_write pid (ports_file_of f) (om_insert_all ports b d0))) (\<lambda>_.
           sbind (case flag_get f ''central-out'' of
              Some path \<Rightarrow> on_fs (central_write print_json (path_of path) (om_insert_all ports b d0)) | None \<Rightarrow> ret ()) (\<lambda>_.
             ret (Imported ports skipped)))))))) w = (Inr (Imported ports skipped), w')"
    apply (elim sbind_InrE)
    apply (simp only: getr_Inr lift_res_def prod.inject)
    done
  obtain ps sk where imp: "importable_ports listens pol extra = (ps, sk)" by fastforce
  from rest [unfolded imp prod.case] have fz: "\<not> is_frozen (freeze_file_of f) (w_fs w)"
    and rest: "(if bool_flag f ''dry-run'' then ret (ImportDryRun ps sk)
       else sbind (getr (\<lambda>w. desired_or_empty (ports_file_of f) (policy_file_of f) (w_fs w))) (\<lambda>d0.
         sbind (lift_res (validate (om_insert_all ps b d0) pol)) (\<lambda>_.
         if ps = [] then ret (ImportNothing sk)
         else sbind (gets w_pid) (\<lambda>pid.
           sbind (on_fs (desired_write pid (ports_file_of f) (om_insert_all ps b d0))) (\<lambda>_.
           sbind (case flag_get f ''central-out'' of
              Some path \<Rightarrow> on_fs (central_write print_json (path_of path) (om_insert_all ps b d0)) | None \<Rightarrow> ret ()) (\<lambda>_.
             ret (Imported ps sk))))))) w = (Inr (Imported ports skipped), w')"
    by (simp_all only: sbind_ret getr_Inr reject_frozen_Inr) auto
  have nd: "\<not> bool_flag f ''dry-run''" using rest by (cases "bool_flag f ''dry-run''") (simp_all add: ret_def)
  let ?saved = "\<lambda>d. sbind (on_fs (desired_write (w_pid w) (ports_file_of f) d)) (\<lambda>_.
           sbind (case flag_get f ''central-out'' of
              Some path \<Rightarrow> on_fs (central_write print_json (path_of path) d) | None \<Rightarrow> ret ()) (\<lambda>_.
             ret (Imported ps sk))) w"
  from rest [unfolded if_not_P [OF nd]]
  obtain d0 u where u: "getr (\<lambda>w. desired_or_empty (ports_file_of f) (policy_file_of f) (w_fs w)) w = (Inr d0, u)"
    and u2: "sbind (lift_res (validate (om_insert_all ps b d0) pol)) (\<lambda>_.
         if ps = [] then ret (ImportNothing sk)
         else sbind (gets w_pid) (\<lambda>pid.
           sbind (on_fs (desired_write pid (ports_file_of f) (om_insert_all ps b d0))) (\<lambda>_.
           sbind (case flag_get f ''central-out'' of
              Some path \<Rightarrow> on_fs (central_write print_json (path_of path) (om_insert_all ps b d0)) | None \<Rightarrow> ret ()) (\<lambda>_.
             ret (Imported ps sk))))) u = (Inr (Imported ports skipped), w')"
    by (rule sbind_InrE)
  have d0: "desired_or_empty (ports_file_of f) (policy_file_of f) (w_fs w) = Inr d0" "u = w"
    using u by (simp_all add: getr_Inr)
  from u2 have val: "validate (om_insert_all ps b d0) pol = Inr ()"
    and u3: "(if ps = [] then ret (ImportNothing sk)
         else sbind (gets w_pid) (\<lambda>pid.
           sbind (on_fs (desired_write pid (ports_file_of f) (om_insert_all ps b d0))) (\<lambda>_.
           sbind (case flag_get f ''central-out'' of
              Some path \<Rightarrow> on_fs (central_write print_json (path_of path) (om_insert_all ps b d0)) | None \<Rightarrow> ret ()) (\<lambda>_.
             ret (Imported ps sk))))) w = (Inr (Imported ports skipped), w')"
    by (auto elim!: sbind_InrE simp only: lift_res_def prod.inject d0(2) unit_eq)
  have wr: "(if ps = [] then (Inr (ImportNothing sk), w) else ?saved (om_insert_all ps b d0)) = (Inr (Imported ports skipped), w')"
    using u3 by (cases "ps = []") (simp_all add: ret_def gets_def sbind_def)
  then have "ps \<noteq> []" by auto
  with wr have wr: "?saved (om_insert_all ps b d0) = (Inr (Imported ports skipped), w')" by simp
  then have out: "ps = ports" "sk = skipped" by (auto elim!: sbind_InrE simp: ret_def)
  from wr obtain fs1 fs2 where fs: "desired_write (w_pid w) (ports_file_of f) (om_insert_all ps b d0) (w_fs w) = (Inr (), fs1)"
    "flag_get f ''central-out'' = None \<longrightarrow> fs2 = fs1" "w' = w\<lparr>w_fs := fs2\<rparr>"
    by (auto simp: sbind_ret on_fs_iff ret_def split: option.splits)
  then have "flag_get f ''central-out'' = None \<longrightarrow>
      fs_files (w_fs w') (resolve (ports_file_of f)) = Some (desired_text (om_insert_all ports b d0))"
    using out by (auto simp: desired_write_def dest: replace_file_Inr)
  then show ?thesis using 1 imp d0 val fz fs(3) validate_iff out by auto
qed

end
