(* ===== verification/Sockctl.thy ===== *)
theory Sockctl
  imports Ctl_Agree
begin

text \<open>
  \<open>rust/loader/src/sockctl.rs\<close>: the control socket of a running loader. A request is a decoded line
  of JSON (the decoder and the encoder are arguments); the state is the world of the commands, the
  audit lines written, and whether the mutation lock is poisoned.
\<close>

subsection \<open>Who may speak\<close>

record peer_cred =
  pc_pid :: int
  pc_uid :: u32
  pc_gid :: u32

definition authorize :: "peer_cred \<Rightarrow> u32 \<Rightarrow> u32 \<Rightarrow> u32 \<Rightarrow> err + unit" where
  "authorize cred owner grp mode =
     (if Bit_Operations.and mode 7 \<noteq> 0 then Inl (SockE SocketTooOpen)
      else if pc_uid cred = 0 \<or> pc_uid cred = owner \<or> pc_gid cred = grp then Inr ()
      else Inl (SockE Unauthorized))"

subsection \<open>Requests and the audit\<close>

record request =
  rq_op :: string
  rq_ports :: "port list"
  rq_tls :: bool
  rq_count_only :: bool
  rq_action :: "string option"
  rq_count :: "nat option"
  rq_start :: "port option"
  rq_skip :: "string option"
  rq_full_ladder :: bool
  rq_tenant :: string
  rq_site :: string
  rq_cert :: "string option"
  rq_policy :: "string option"
  rq_kind :: "string option"

definition format_ports :: "port list \<Rightarrow> string" where
  "format_ports ports =
     (case ports of
        [] \<Rightarrow> ''none''
      | [p] \<Rightarrow> show_port p
      | ps \<Rightarrow> if length ps \<le> 16 then join '','' (map show_port ps)
              else ''count='' @ show_nat (length ps))"

record audit =
  au_cred :: peer_cred
  au_op :: string
  au_tenant :: string
  au_site :: string
  au_ports :: "port list"
  au_ok :: bool

definition audit_line :: "string \<Rightarrow> audit \<Rightarrow> string" where
  "audit_line log_prefix a =
     log_prefix @ '' audit uid='' @ show_nat (unat (pc_uid (au_cred a))) @ '' gid='' @ show_nat (unat (pc_gid (au_cred a)))
       @ '' pid='' @ show_int (pc_pid (au_cred a)) @ '' op='' @ au_op a @ '' tenant='' @ au_tenant a
       @ '' site='' @ au_site a @ '' ports='' @ format_ports (au_ports a)
       @ '' ok='' @ (if au_ok a then ''true'' else ''false'')"

record 'm sock =
  so_world :: "'m world"
  so_audit :: "audit list"
  so_poisoned :: bool

definition on_world :: "('m, 'a) cmd \<Rightarrow> ('m sock, 'a) act" where
  "on_world f s = (let (r, w) = f (so_world s) in (r, s\<lparr>so_world := w\<rparr>))"

definition write_audit :: "audit \<Rightarrow> ('m sock, unit) act" where
  "write_audit a s = (Inr (), s\<lparr>so_audit := so_audit s @ [a]\<rparr>)"

subsection \<open>Executing a request\<close>

datatype response =
    StatusResponse status_report
  | CountResponse nat
  | PortsResponse "(port \<times> slot) list"
  | DoneResponse string nat

definition list_ports :: "'m kops \<Rightarrow> request \<Rightarrow> path \<Rightarrow> path \<Rightarrow> ('m, response) cmd" where
  "list_ports ops req pin_dir ports_file =
     sbind (getr (load_pinned_open_ports pin_dir)) (\<lambda>m.
     sbind (lift_res (read_map ops m)) (\<lambda>ports.
     sbind (gets (\<lambda>w.
       if rq_kind req = Some ''virtual'' then
         let real = (case ng_read (w_nginx w) default_nginx_conf of
                       Inr text \<Rightarrow> real_listen_ports text | Inl _ \<Rightarrow> inner_real_ports);
             others = (case load_with_policy ports_file (default_path ports_file) (w_fs w) of
                       Inr wanted \<Rightarrow> filter (\<lambda>(p, _). p \<notin> fst ` set ports) (map (\<lambda>(p, b). (p, b_slot b)) wanted)
                     | Inl _ \<Rightarrow> [])
         in filter (\<lambda>(p, _). p \<notin> real) (ports @ others)
       else ports)) (\<lambda>ports.
     let sorted = sort_key fst ports
     in ret (if rq_count_only req then CountResponse (length sorted) else PortsResponse sorted))))"

definition actual_op :: "request \<Rightarrow> string" where
  "actual_op req =
     (let op = to_ascii_lowercase (rq_op req)
      in if op = ''bulk'' then to_ascii_lowercase (case rq_action req of Some a \<Rightarrow> a | None \<Rightarrow> []) else op)"

definition request_ports :: "request \<Rightarrow> err + port list" where
  "request_ports req =
     (if actual_op req = ''fill'' then
        rbind (parse_skip_set (case rq_skip req of Some s \<Rightarrow> s | None \<Rightarrow> ''8080,8443'')) (\<lambda>skip.
          generate_fill_ports (case rq_start req of Some p \<Rightarrow> p | None \<Rightarrow> 5000)
            (case rq_count req of Some n \<Rightarrow> n | None \<Rightarrow> 0) skip)
      else Inr (rq_ports req))"

definition gated :: "request \<Rightarrow> bool" where
  "gated req \<longleftrightarrow> actual_op req \<in> {''add'', ''open'', ''fill'', ''apply'', ''reconcile'', ''apply-central''} \<or>
     to_ascii_lowercase (rq_op req) = ''bulk''"

text \<open>A check that writes an audit line when it fails.\<close>

definition audited_check :: "audit \<Rightarrow> ('m world \<Rightarrow> err + unit) \<Rightarrow> ('m sock, unit) act" where
  "audited_check a check s =
     (case check (so_world s) of
        Inl e \<Rightarrow> (Inl e, s\<lparr>so_audit := so_audit s @ [a]\<rparr>)
      | Inr _ \<Rightarrow> (Inr (), s))"

definition request_binding :: "request \<Rightarrow> port_binding" where
  "request_binding req = \<lparr>b_slot = (if rq_tls req then redir_tls else redir_primary), b_tenant = rq_tenant req,
     b_site = rq_site req, b_cert = rq_cert req, b_policy = rq_policy req\<rparr>"

text \<open>
  The operation under the mutation lock. The outer failure is an early return of \<open>execute\<close>, the
  inner result the one that is audited.
\<close>

definition ignore :: "('s, 'a) act \<Rightarrow> ('s, err + unit) act" where
  "ignore m s = (case m s of (Inl e, t) \<Rightarrow> (Inr (Inl e), t) | (Inr _, t) \<Rightarrow> (Inr (Inr ()), t))"

definition mutate :: "'m kops \<Rightarrow> request \<Rightarrow> path \<Rightarrow> path \<Rightarrow> port list \<Rightarrow> ('m, err + unit) cmd" where
  "mutate ops req pin_dir ports_file ports =
     (let op = actual_op req in
      if op \<in> {''add'', ''open'', ''fill''} then
        if rq_tenant req = [] \<or> rq_site req = [] then fail (SockE SockBinding)
        else ignore (apply_add ops pin_dir ports_file (default_path ports_file) ports (request_binding req)
               default_bulk_batch False True True default_nginx_conf default_metrics_file)
      else if op \<in> {''remove'', ''close''} then
        ignore (apply_remove ops pin_dir ports_file (default_path ports_file) ports default_bulk_batch False True True)
      else if op \<in> {''reconcile'', ''apply''} then
        ignore (ctl_reconcile ops [''-quiet'', ''-pin-dir'', display_path pin_dir, ''-ports-file'', display_path ports_file])
      else fail (SockE (UnknownOp (rq_op req))))"

definition perform :: "'m kops \<Rightarrow> request \<Rightarrow> peer_cred \<Rightarrow> path \<Rightarrow> path \<Rightarrow> port list \<Rightarrow> ('m sock, response) act" where
  "perform ops req cred pin_dir ports_file ports =
     (let line = \<lparr>au_cred = cred, au_op = actual_op req, au_tenant = rq_tenant req, au_site = rq_site req,
                  au_ports = ports, au_ok = False\<rparr>;
          shown = (if to_ascii_lowercase (rq_op req) = ''bulk'' then ''bulk'' else actual_op req)
      in sbind (if gated req
                then audited_check line (\<lambda>w.
                       reject_if_frozen default_freeze_file shown (rq_tenant req) (rq_site req) ports (w_fs w))
                else ret ()) (\<lambda>_.
         sbind (audited_check line (enforce_ladder ports (rq_full_ladder req))) (\<lambda>_.
         sbind (if ports = [] \<and> actual_op req \<in> {''add'', ''open'', ''remove'', ''close''}
                then audited_check line (\<lambda>_. Inl (SockE (NeedsOnePort (actual_op req))))
                else ret ()) (\<lambda>_.
         sbind (getr (\<lambda>s. if so_poisoned s then Inl (SockE LockPoisoned) else Inr ())) (\<lambda>_.
         sbind (on_world (mutate ops req pin_dir ports_file ports)) (\<lambda>res.
         sbind (write_audit (line\<lparr>au_ok := is_ok res\<rparr>)) (\<lambda>_.
         sbind (lift_res res) (\<lambda>_. ret (DoneResponse (actual_op req) (length ports))))))))))"

definition execute :: "'m kops \<Rightarrow> request \<Rightarrow> peer_cred \<Rightarrow> path \<Rightarrow> path \<Rightarrow> ('m sock, response) act" where
  "execute ops req cred pin_dir ports_file =
     (let op = to_ascii_lowercase (rq_op req) in
      if op \<in> {''status'', ''metrics''} then
        on_world (sbind (getr (status_value ops default_nginx_conf ports_file (default_path ports_file) pin_dir
          default_freeze_file default_metrics_file)) (\<lambda>r. ret (StatusResponse r)))
      else if op \<in> {''list'', ''dump''} then on_world (list_ports ops req pin_dir ports_file)
      else sbind (lift_res (request_ports req)) (perform ops req cred pin_dir ports_file))"

subsection \<open>A connection\<close>

text \<open>The socket file's owner, group and mode when the connection is handled, and its first line.\<close>

record sock_meta =
  sm_uid :: u32
  sm_gid :: u32
  sm_mode :: u32

record connection =
  cn_cred :: "err + peer_cred"
  cn_meta :: "err + sock_meta"
  cn_line :: "err + string"

definition handle_conn ::
    "'m kops \<Rightarrow> (string \<Rightarrow> request option) \<Rightarrow> path \<Rightarrow> path \<Rightarrow> connection \<Rightarrow> ('m sock, response) act" where
  "handle_conn ops parse_request pin_dir ports_file conn =
     sbind (lift_res (cn_cred conn)) (\<lambda>cred.
     sbind (lift_res (cn_meta conn)) (\<lambda>meta.
     sbind (lift_res (authorize cred (sm_uid meta) (sm_gid meta) (sm_mode meta))) (\<lambda>_.
     sbind (lift_res (cn_line conn)) (\<lambda>line.
       if utf8_length line > 1048576 then fail (SockE RequestTooLarge)
       else (case parse_request (trim line) of
           None \<Rightarrow> fail (SockE BadRequest)
         | Some req \<Rightarrow> execute ops req cred pin_dir ports_file)))))"

text \<open>The accept loop until shutdown: what each turn of it accepts, and the answers it writes.\<close>

datatype accepted = Accepted connection | WouldBlock | AcceptFailed

fun serve ::
    "'m kops \<Rightarrow> (string \<Rightarrow> request option) \<Rightarrow> path \<Rightarrow> path \<Rightarrow> (bool \<times> accepted) list \<Rightarrow> 'm sock \<Rightarrow>
      (err + response) list \<times> 'm sock" where
  "serve ops parse_request pin_dir ports_file [] s = ([], s)"
| "serve ops parse_request pin_dir ports_file ((shutdown, a) # turns) s =
     (if shutdown then ([], s)
      else (case a of
          Accepted conn \<Rightarrow>
            (let (r, t) = handle_conn ops parse_request pin_dir ports_file conn s;
                 (rs, u) = serve ops parse_request pin_dir ports_file turns t
             in (r # rs, u))
        | _ \<Rightarrow> serve ops parse_request pin_dir ports_file turns s))"

subsection \<open>The client\<close>

definition empty_request :: "string \<Rightarrow> request" where
  "empty_request op = \<lparr>rq_op = op, rq_ports = [], rq_tls = False, rq_count_only = False, rq_action = None,
     rq_count = None, rq_start = None, rq_skip = None, rq_full_ladder = False, rq_tenant = [], rq_site = [],
     rq_cert = None, rq_policy = None, rq_kind = None\<rparr>"

definition default_ctl_sock :: string where
  "default_ctl_sock = ''/run/waf-sklookup/ctl.sock''"

definition parse_opt :: "nat \<Rightarrow> string option \<Rightarrow> err + nat option" where
  "parse_opt mx raw = (case raw of None \<Rightarrow> Inr None
     | Some s \<Rightarrow> (case parse_uint mx s of None \<Rightarrow> Inl (SockE BadCount) | Some n \<Rightarrow> Inr (Some n)))"

fun specs_ports :: "string list \<Rightarrow> err + port list" where
  "specs_ports [] = Inr []"
| "specs_ports (s # ss) = rbind (parse_port_list_flexible s) (\<lambda>ps. rbind (specs_ports ss) (\<lambda>qs. Inr (ps @ qs)))"

definition client_request :: "string list \<Rightarrow> err + request" where
  "client_request cmd =
     (case cmd of
        [] \<Rightarrow> Inl (SockE NeedsCommand)
      | op # args1 \<Rightarrow>
          rbind (if op = ''bulk''
                 then (case args1 of [] \<Rightarrow> Inl (SockE BulkNeedsAction) | action # rest \<Rightarrow> Inr (Some action, rest))
                 else Inr (None, args1)) (\<lambda>(action, rest).
          let is_fill = (action = Some ''fill'');
              bools = (if is_fill then [''tls'', ''full-ladder''] else [''tls'', ''count'', ''count-only'', ''full-ladder'']);
              vals = (if is_fill then [''count'', ''start'', ''skip'', ''tenant'', ''site'', ''cert'', ''policy'']
                      else [''tenant'', ''site'', ''cert'', ''policy'', ''kind''])
          in rbind (parse_go_flags rest bools vals) (\<lambda>pf.
             rbind (parse_opt u64_max (flag_get pf ''count'')) (\<lambda>count.
             rbind (parse_opt 65535 (flag_get pf ''start'')) (\<lambda>start.
             rbind (specs_ports (pf_args pf)) (\<lambda>ports.
               Inr ((empty_request op)\<lparr>rq_action := action, rq_tls := bool_flag pf ''tls'',
                   rq_count_only := bool_flag pf ''count'' \<or> bool_flag pf ''count-only'',
                   rq_full_ladder := bool_flag pf ''full-ladder'', rq_count := count,
                   rq_start := map_option of_nat start, rq_skip := flag_get pf ''skip'',
                   rq_tenant := get_or pf ''tenant'' [], rq_site := get_or pf ''site'' [],
                   rq_cert := flag_get pf ''cert'', rq_policy := flag_get pf ''policy'',
                   rq_kind := flag_get pf ''kind'', rq_ports := ports\<rparr>)))))))"

text \<open>
  Connecting, writing the request and reading the reply is the argument \<open>exchange\<close>, the encoder
  \<open>print_request\<close>, and \<open>reply_ok\<close> reads the field \<open>ok\<close> of a reply. The result is the line printed.
\<close>

definition run_client ::
    "(string \<Rightarrow> string option) \<Rightarrow> (string \<Rightarrow> string \<Rightarrow> err + string) \<Rightarrow> (request \<Rightarrow> string) \<Rightarrow> (string \<Rightarrow> bool option option) \<Rightarrow>
      string list \<Rightarrow> err + string" where
  "run_client env exchange print_request reply_ok args =
     rbind (parse_go_flags args [] [''sock'']) (\<lambda>flags.
     if pf_args flags = [] then Inl (SockE NeedsCommand)
     else
       let sock = (case flag_get flags ''sock'' of Some s \<Rightarrow> s
             | None \<Rightarrow> (case env ''CTL_SOCK'' of Some s \<Rightarrow> s | None \<Rightarrow> default_ctl_sock))
       in if sock = [] then Inl (SockE SocketDisabled)
          else rbind (client_request (pf_args flags)) (\<lambda>req.
            rbind (exchange sock (print_request req @ [CHR 0x0A])) (\<lambda>line.
              (case reply_ok line of
                 None \<Rightarrow> Inl (SockE BadRequest)
               | Some ok \<Rightarrow> if ok \<noteq> Some True then Inl (SockE RequestFailed) else Inr (trim line)))))"

subsection \<open>What a connection can do\<close>

lemma authorize_iff:
  "authorize cred owner grp mode = Inr () \<longleftrightarrow>
     Bit_Operations.and mode 7 = 0 \<and> (pc_uid cred = 0 \<or> pc_uid cred = owner \<or> pc_gid cred = grp)"
  by (auto simp: authorize_def)

lemma format_ports_text: "format_ports = ports_text"
  by (rule ext) (auto simp: format_ports_def ports_text_def)

text \<open>The world is left as it was, or exactly one audit line says who did it and how it ended.\<close>

definition accounted :: "peer_cred \<Rightarrow> string \<Rightarrow> 'm sock \<Rightarrow> err + 'a \<Rightarrow> 'm sock \<Rightarrow> bool" where
  "accounted cred op s r t \<longleftrightarrow> so_poisoned t = so_poisoned s \<and>
     (so_world t = so_world s \<and> (\<exists>as. so_audit t = so_audit s @ as \<and> length as \<le> 1 \<and> (\<forall>a \<in> set as. au_cred a = cred \<and> au_op a = op)) \<or>
      (\<exists>a. so_audit t = so_audit s @ [a] \<and> au_cred a = cred \<and> au_op a = op \<and> au_ok a = is_ok r))"

lemma on_world_reads: "snd (f (so_world s)) = so_world s \<Longrightarrow> snd (on_world f s) = s"
  by (cases "f (so_world s)") (simp add: on_world_def)

lemma mutate_fails: "mutate ops req dir pf ports w = (Inl e, t) \<Longrightarrow> t = w"
  by (auto simp: mutate_def Let_def fail_def ignore_def split: if_splits prod.splits sum.splits)

lemma list_ports_reads: "snd (list_ports ops req dir pf w) = w"
  unfolding list_ports_def Let_def by (intro reads_sbind getr_world)

lemma guard_step:
  assumes "sbind m (\<lambda>_. k) s = (r, t)" "m s = (Inr (), s) \<or> (\<exists>e. m s = (Inl e, u))"
    "\<And>e. accounted cred op s (Inl e :: err + 'b) u" "k s = (r, t) \<Longrightarrow> accounted cred op s r t"
  shows "accounted cred op s (r :: err + 'b) t"
  using assms by (auto simp: sbind_def)

lemma audited_check_cases:
  "audited_check a c s = (Inr (), s) \<or> (\<exists>e. audited_check a c s = (Inl e, s\<lparr>so_audit := so_audit s @ [a]\<rparr>))"
  by (auto simp: audited_check_def split: sum.splits)

lemma accounted_same: "accounted cred op s r s"
  by (auto simp: accounted_def intro: exI [of _ "[]"])

lemma accounted_line: "au_cred a = cred \<Longrightarrow> au_op a = op \<Longrightarrow> accounted cred op s r (s\<lparr>so_audit := so_audit s @ [a]\<rparr>)"
  by (auto simp: accounted_def intro: exI [of _ "[a]"])

lemma perform_mutates:
  assumes go: "sbind (on_world (mutate ops req dir pf ports)) (\<lambda>res.
       sbind (write_audit (a\<lparr>au_ok := is_ok res\<rparr>)) (\<lambda>_. sbind (lift_res res) (\<lambda>_. ret x))) s = (r, t)"
    and cred: "au_cred a = cred" "au_op a = op"
  shows "accounted cred op s r t"
proof -
  obtain q w where m: "mutate ops req dir pf ports (so_world s) = (q, w)" by (cases "mutate ops req dir pf ports (so_world s)")
  show ?thesis
  proof (cases q)
    case (Inl e)
    then have "t = s" using go m mutate_fails [of ops req dir pf ports "so_world s" e w]
      by (auto simp: sbind_def on_world_def)
    then show ?thesis by (simp add: accounted_same)
  next
    case (Inr res)
    then show ?thesis using go m cred
      by (cases res) (auto simp: sbind_def on_world_def write_audit_def lift_res_def ret_def accounted_def)
  qed
qed

lemma perform_accounted: "perform ops req cred dir pf ports s = (r, t) \<Longrightarrow> accounted cred (actual_op req) s r t"
proof -
  let ?a = "\<lparr>au_cred = cred, au_op = actual_op req, au_tenant = rq_tenant req, au_site = rq_site req,
      au_ports = ports, au_ok = False\<rparr>"
  assume run: "perform ops req cred dir pf ports s = (r, t)"
  have check: "(if b then audited_check ?a c else ret ()) s = (Inr (), s) \<or>
      (\<exists>e. (if b then audited_check ?a c else ret ()) s = (Inl e, s\<lparr>so_audit := so_audit s @ [?a]\<rparr>))" for b c
    using audited_check_cases [of ?a c s] by (simp add: ret_def)
  have line: "accounted cred (actual_op req) s (Inl e :: err + response) (s\<lparr>so_audit := so_audit s @ [?a]\<rparr>)" for e
    by (rule accounted_line) simp_all
  have lock: "(getr (\<lambda>s. if so_poisoned s then Inl (SockE LockPoisoned) else Inr ())) s = (Inr (), s) \<or>
      (\<exists>e. (getr (\<lambda>s. if so_poisoned s then Inl (SockE LockPoisoned) else Inr ())) s = (Inl e, s))"
    by (simp add: getr_def)
  show ?thesis
    using run unfolding perform_def Let_def
    by - (erule guard_step, rule check, rule line, erule guard_step, rule audited_check_cases, rule line,
        erule guard_step, rule check, rule line, erule guard_step, rule lock, rule accounted_same,
        erule perform_mutates, simp, simp)
qed

lemma execute_accounted:
  assumes "execute ops req cred dir pf s = (r, t)"
  shows "accounted cred (actual_op req) s r t"
proof (cases "to_ascii_lowercase (rq_op req) \<in> {''status'', ''metrics''} \<or> to_ascii_lowercase (rq_op req) \<in> {''list'', ''dump''}")
  case True
  then have "snd (execute ops req cred dir pf s) = s"
    unfolding execute_def Let_def by (auto intro!: on_world_reads reads_sbind getr_world list_ports_reads)
  then show ?thesis using assms accounted_same by simp
next
  case False
  then show ?thesis
    using assms perform_accounted accounted_same
    by (cases "request_ports req") (auto simp: execute_def Let_def sbind_def lift_res_def)
qed

lemma accounted_change:
  "accounted cred op s r t \<Longrightarrow> so_world t \<noteq> so_world s \<Longrightarrow>
     \<exists>a. so_audit t = so_audit s @ [a] \<and> au_cred a = cred \<and> au_op a = op \<and> au_ok a = is_ok r"
  by (auto simp: accounted_def)

text \<open>A connection that is not authorized is refused with everything as it was.\<close>

lemma handle_unauthorized:
  assumes "cn_cred conn = Inr cred" "cn_meta conn = Inr meta"
    "\<not> (Bit_Operations.and (sm_mode meta) 7 = 0 \<and>
        (pc_uid cred = 0 \<or> pc_uid cred = sm_uid meta \<or> pc_gid cred = sm_gid meta))"
  shows "\<exists>e. handle_conn ops parse dir pf conn s = (Inl e, s)"
  using assms by (auto simp: handle_conn_def sbind_def lift_res_def authorize_def)

lemma handle_executes:
  assumes "handle_conn ops parse dir pf conn s = (r, t)"
  shows "t = s \<or> (\<exists>cred meta req. cn_cred conn = Inr cred \<and> cn_meta conn = Inr meta \<and>
     authorize cred (sm_uid meta) (sm_gid meta) (sm_mode meta) = Inr () \<and> execute ops req cred dir pf s = (r, t))"
  using assms
  by (auto simp: handle_conn_def sbind_def lift_res_def fail_def split: sum.splits if_splits option.splits)

lemma gated_mutates: "gated req \<Longrightarrow> to_ascii_lowercase (rq_op req) \<notin> {''status'', ''metrics'', ''list'', ''dump''}"
  by (auto simp: gated_def actual_op_def Let_def split: if_splits)

lemma execute_frozen:
  assumes "is_frozen default_freeze_file (w_fs (so_world s))" "gated req"
  shows "\<exists>e t. execute ops req cred dir pf s = (Inl e, t) \<and> so_world t = so_world s"
proof (cases "request_ports req")
  case (Inl e)
  then show ?thesis using gated_mutates [OF assms(2)] by (auto simp: execute_def Let_def sbind_def lift_res_def)
next
  case (Inr ports)
  let ?shown = "if to_ascii_lowercase (rq_op req) = ''bulk'' then ''bulk'' else actual_op req"
  let ?a = "\<lparr>au_cred = cred, au_op = actual_op req, au_tenant = rq_tenant req, au_site = rq_site req,
      au_ports = ports, au_ok = False\<rparr>"
  have "reject_if_frozen default_freeze_file ?shown (rq_tenant req) (rq_site req) ports (w_fs (so_world s)) \<noteq> Inr ()"
    using assms(1) reject_if_frozen_iff by blast
  then obtain e where e: "reject_if_frozen default_freeze_file ?shown (rq_tenant req) (rq_site req) ports (w_fs (so_world s)) = Inl e"
    by (cases "reject_if_frozen default_freeze_file ?shown (rq_tenant req) (rq_site req) ports (w_fs (so_world s))") auto
  have "perform ops req cred dir pf ports s = (Inl e, s\<lparr>so_audit := so_audit s @ [?a]\<rparr>)"
    unfolding perform_def Let_def by (rule sbind_stop) (simp only: assms(2) if_True audited_check_def e sum.case)
  moreover have "execute ops req cred dir pf s = perform ops req cred dir pf ports s"
    using gated_mutates [OF assms(2)]
    by (simp only: execute_def Let_def insert_iff de_Morgan_disj if_False empty_iff Inr) (simp add: sbind_def lift_res_def)
  ultimately show ?thesis by simp
qed

subsection \<open>Requests keep the file and the map in agreement\<close>

lemma ignore_InrD: "ignore m s = (Inr (Inr u), t) \<Longrightarrow> \<exists>x. m s = (Inr x, t)"
  by (auto simp: ignore_def split: prod.splits sum.splits)

lemma mutate_add:
  assumes "mutate ops req dir pf ports w = (Inr (Inr ()), w')" "actual_op req \<in> {''add'', ''open'', ''fill''}"
  shows "\<exists>x. apply_add ops dir pf (default_path pf) ports (request_binding req) default_bulk_batch False True True
     default_nginx_conf default_metrics_file w = (Inr x, w')"
  using assms by (auto simp: mutate_def Let_def fail_def split: if_splits dest!: ignore_InrD)

lemma mutate_remove:
  assumes "mutate ops req dir pf ports w = (Inr (Inr ()), w')" "actual_op req \<in> {''remove'', ''close''}"
  shows "\<exists>x. apply_remove ops dir pf (default_path pf) ports default_bulk_batch False True True w = (Inr x, w')"
  using assms by (auto simp: mutate_def Let_def fail_def split: if_splits dest!: ignore_InrD)

definition inert :: "('s, 'a) act \<Rightarrow> 's \<Rightarrow> bool" where
  "inert m s \<longleftrightarrow> (\<forall>x u. m s = (Inr x, u) \<longrightarrow> u = s)"

lemma sbind_after:
  assumes "sbind m (\<lambda>_. k) s = (Inr y, t)" "inert m s"
  shows "(\<exists>x. m s = (Inr x, s)) \<and> k s = (Inr y, t)"
  using assms by (auto simp: inert_def elim!: sbind_InrE)

lemma inert_checks:
  "inert (audited_check a c) s" "inert (if b then audited_check a c else ret ()) s" "inert (getr g) s"
  by (auto simp: inert_def audited_check_def ret_def getr_def split: if_splits sum.splits)

lemma on_world_Inr: "on_world f s = (r, t) \<longleftrightarrow> (\<exists>w. f (so_world s) = (r, w) \<and> t = s\<lparr>so_world := w\<rparr>)"
  by (auto simp: on_world_def Let_def split: prod.splits)

lemma list_ports_result: "list_ports ops req dir pf w = (Inr r, w') \<Longrightarrow> r \<noteq> DoneResponse op n"
  unfolding list_ports_def Let_def by (auto elim!: sbind_InrE simp: ret_def split: if_splits)

lemma execute_done:
  assumes "execute ops req cred dir pf s = (Inr (DoneResponse op n), t)"
  shows "\<exists>ports. request_ports req = Inr ports \<and> n = length ports \<and> op = actual_op req \<and>
     mutate ops req dir pf ports (so_world s) = (Inr (Inr ()), so_world t) \<and>
     (gated req \<longrightarrow> \<not> is_frozen default_freeze_file (w_fs (so_world s)))"
proof -
  have rw: "\<not> (to_ascii_lowercase (rq_op req) \<in> {''status'', ''metrics''})"
  proof
    assume op1: "to_ascii_lowercase (rq_op req) \<in> {''status'', ''metrics''}"
    show False using assms unfolding execute_def Let_def if_P [OF op1] on_world_Inr
      by (auto elim!: sbind_InrE simp: ret_def)
  qed
  moreover have "\<not> (to_ascii_lowercase (rq_op req) \<in> {''list'', ''dump''})"
  proof
    assume op1: "to_ascii_lowercase (rq_op req) \<in> {''list'', ''dump''}"
    show False using assms unfolding execute_def Let_def if_not_P [OF rw] if_P [OF op1] on_world_Inr
      by (auto dest: list_ports_result)
  qed
  ultimately have ex: "sbind (lift_res (request_ports req)) (perform ops req cred dir pf) s = (Inr (DoneResponse op n), t)"
    using assms by (simp only: execute_def Let_def if_False)
  then obtain ports where ports: "request_ports req = Inr ports" "perform ops req cred dir pf ports s = (Inr (DoneResponse op n), t)"
    by (auto elim!: sbind_InrE simp: lift_res_def)
  have checkG: "(if b then audited_check a c else ret ()) s1 = (Inr u, s2) \<Longrightarrow> b \<Longrightarrow> c (so_world s1) = Inr ()"
    for b a c u and s1 s2 :: "'a sock"
    by (auto simp: audited_check_def split: sum.splits)
  note 1 = sbind_after [OF ports(2) [unfolded perform_def Let_def] inert_checks(2)]
  note 2 = sbind_after [OF 1 [THEN conjunct2] inert_checks(1)]
  note 3 = sbind_after [OF 2 [THEN conjunct2] inert_checks(2)]
  note 4 = sbind_after [OF 3 [THEN conjunct2] inert_checks(3), THEN conjunct2]
  from 1 have gate: "gated req \<longrightarrow> reject_if_frozen default_freeze_file
      (if to_ascii_lowercase (rq_op req) = ''bulk'' then ''bulk'' else actual_op req)
      (rq_tenant req) (rq_site req) ports (w_fs (so_world s)) = Inr ()"
    using checkG by blast
  from 4 obtain res u v where m: "on_world (mutate ops req dir pf ports) s = (Inr res, u)"
    and v: "write_audit v u = (Inr (), t)" "res = Inr ()" "op = actual_op req" "n = length ports"
    by (elim sbind_InrE) (auto simp: lift_res_def ret_def write_audit_def)
  show ?thesis
    using ports(1) gate m v reject_if_frozen_iff
    by (auto simp: on_world_def write_audit_def Let_def split: prod.splits)
qed

lemma audited_check_passes: "check (so_world s) = Inr () \<Longrightarrow> audited_check a check s = (Inr (), s)"
  by (simp add: audited_check_def)

lemma execute_mutation:
  assumes ports: "request_ports req = Inr ports" "ports \<noteq> []"
    and op: "to_ascii_lowercase (rq_op req) \<notin> {''status'', ''metrics'', ''list'', ''dump''}"
    and thawed: "\<not> is_frozen default_freeze_file (w_fs (so_world s))"
    and ladder: "enforce_ladder ports (rq_full_ladder req) (so_world s) = Inr ()"
    and free: "\<not> so_poisoned s"
    and m: "mutate ops req dir pf ports (so_world s) = (Inr (Inr ()), w')"
  shows "execute ops req cred dir pf s = (Inr (DoneResponse (actual_op req) (length ports)),
    s\<lparr>so_world := w', so_audit := so_audit s @ [\<lparr>au_cred = cred, au_op = actual_op req, au_tenant = rq_tenant req,
      au_site = rq_site req, au_ports = ports, au_ok = True\<rparr>]\<rparr>)"
proof -
  let ?gate = "\<lambda>w. reject_if_frozen default_freeze_file
      (if to_ascii_lowercase (rq_op req) = ''bulk'' then ''bulk'' else actual_op req) (rq_tenant req) (rq_site req) ports (w_fs w)"
  have gate: "?gate (so_world s) = Inr ()" using thawed reject_if_frozen_iff by blast
  have "execute ops req cred dir pf s = perform ops req cred dir pf ports s"
    using op by (simp only: execute_def Let_def insert_iff de_Morgan_disj if_False empty_iff ports) (simp add: sbind_def lift_res_def)
  moreover have "(if gated req then audited_check a ?gate else ret ()) s = (Inr (), s)" for a
    using audited_check_passes [of ?gate, OF gate] by (simp add: ret_def)
  ultimately show ?thesis
    by (simp add: perform_def Let_def sbind_def audited_check_passes [where check = "enforce_ladder ports (rq_full_ladder req)", OF ladder] ports(2) ret_def getr_def free
        on_world_def m write_audit_def lift_res_def)
qed

lemma request_ports_length:
  "request_ports req = Inr ports \<Longrightarrow> length (rq_ports req) < 2 ^ 32 \<Longrightarrow> length ports < 2 ^ 32"
  by (auto simp: request_ports_def generate_fill_ports_eq Let_def open_ports_max_entries_def split: if_splits)

lemma socket_reconcile_parse:
  assumes "path_canon dir" "path_canon pf"
  shows "\<exists>g. parse_go_flags [''-quiet'', ''-pin-dir'', display_path dir, ''-ports-file'', display_path pf]
      reconcile_bools reconcile_vals = Inr g \<and> pin_dir_of g = dir \<and> ports_file_of g = pf \<and> policy_file_of g = default_path pf"
proof -
  define g where "g = add_flag ''ports-file'' (display_path pf) (add_flag ''pin-dir'' (display_path dir)
      (add_flag ''quiet'' ''true'' no_flags))"
  have "parse_go_flags [''-quiet'', ''-pin-dir'', display_path dir, ''-ports-file'', display_path pf]
      reconcile_bools reconcile_vals = Inr g"
    by (simp add: parse_go_flags_def reconcile_bools_def reconcile_vals_def g_def flags_loop_val flags_loop_bool
        plain_name_def del: flags_loop.simps add: flags_loop.simps(1))
  moreover have "flag_get g n = (if n = ''ports-file'' then Some (display_path pf)
      else if n = ''pin-dir'' then Some (display_path dir) else if n = ''quiet'' then Some ''true'' else None)" for n
    by (simp add: g_def)
  ultimately show ?thesis
    by (intro exI [of _ g]) (simp add: pin_dir_of_def [of g] ports_file_of_def [of g] policy_file_of_def [of g] get_or_def
        path_of_display assms)
qed

lemma ctl_reconcile_not_help:
  assumes "ctl_reconcile ops args w = (Inr out, w')" "parse_go_flags args reconcile_bools reconcile_vals = Inr f"
    "\<not> bool_flag f ''help''"
  shows "\<exists>x. out = Some x"
  using assms unfolding ctl_reconcile_def with_flags_def
  by (auto elim!: sbind_InrE simp: lift_res_def ret_def)

lemma mutate_agree:
  assumes kern: "kernel_map ops view same" and ag: "agree ops view dir pf (default_path pf) w"
    and run: "mutate ops req dir pf ports w = (Inr (Inr ()), w')"
    and b: "hash_free (request_binding req)" and len: "length ports < 2 ^ 32"
    and ap: "files_apart pf (default_path pf) (w_pid w)" and canon: "path_canon dir" "path_canon pf"
  shows "agree ops view dir pf (default_path pf) w'"
proof -
  have slot: "slot_ok (request_binding req)" by (simp add: slot_ok_def request_binding_def)
  consider (put) "actual_op req \<in> {''add'', ''open'', ''fill''}" | (del) "actual_op req \<in> {''remove'', ''close''}"
    | (rec) "actual_op req \<in> {''reconcile'', ''apply''}"
    using run by (force simp: mutate_def Let_def fail_def split: if_splits)
  then show ?thesis
  proof cases
    case put
    then show ?thesis using mutate_add [OF run] apply_add_agree [OF kern ag _ b slot len ap] by blast
  next
    case del
    then show ?thesis using mutate_remove [OF run] apply_remove_agree [OF kern ag _ len ap] by blast
  next
    case rec
    then have "ignore (ctl_reconcile ops [''-quiet'', ''-pin-dir'', display_path dir, ''-ports-file'', display_path pf]) w =
        (Inr (Inr ()), w')"
      using run by (auto simp: mutate_def Let_def)
    then obtain x where x: "ctl_reconcile ops [''-quiet'', ''-pin-dir'', display_path dir, ''-ports-file'', display_path pf] w = (Inr x, w')"
      by (blast dest: ignore_InrD)
    obtain g where g: "parse_go_flags [''-quiet'', ''-pin-dir'', display_path dir, ''-ports-file'', display_path pf]
        reconcile_bools reconcile_vals = Inr g" "pin_dir_of g = dir" "ports_file_of g = pf" "policy_file_of g = default_path pf"
      using socket_reconcile_parse [OF canon] by blast
    show ?thesis
    proof (cases "bool_flag g ''help''")
      case True
      then have "w' = w" using x g(1) unfolding ctl_reconcile_def with_flags_def
        by (auto elim!: sbind_InrE simp: lift_res_def ret_def)
      then show ?thesis using ag by simp
    next
      case False
      from ctl_reconcile_not_help [OF x g(1) this] obtain y where y: "x = Some y" by blast
      have "reconcile_with ops dir pf (default_path pf) (nginx_conf_of g) (metrics_file_of g) (flag_get g ''batch'')
          (\<not> bool_flag g ''quiet'') w = (Inr y, w')"
        using ctl_reconcile_Inr [OF x [unfolded y] g(1)] by (simp add: g(2-4))
      moreover obtain m where "w_pins w (open_ports_path dir) = Some m" "port_layout ops m" using ag by (auto simp: agree_def)
      ultimately show ?thesis using reconcile_with_agree [OF kern] by blast
    qed
  qed
qed

lemma execute_agree:
  assumes "kernel_map ops view same" "agree ops view dir pf (default_path pf) (so_world s)"
    and run: "execute ops req cred dir pf s = (Inr (DoneResponse op n), t)"
    and "hash_free (request_binding req)" "length (rq_ports req) < 2 ^ 32"
    and "files_apart pf (default_path pf) (w_pid (so_world s))" "path_canon dir" "path_canon pf"
  shows "agree ops view dir pf (default_path pf) (so_world t)"
  using execute_done [OF run] request_ports_length mutate_agree [OF assms(1,2) _ assms(4) _ assms(6-8)] assms(5) by blast

subsection \<open>The client\<close>

text \<open>
  The flag \<open>-count\<close> of \<open>list\<close> is a switch, and its value is read again as a number: the command the
  client offers for counting is refused.
\<close>

lemma client_list_count_refused: "client_request [''list'', ''-count''] = Inl (SockE BadCount)"
  by (simp add: client_request_def parse_go_flags_def flags_loop_bool plain_name_def parse_opt_def
      del: flags_loop.simps add: flags_loop.simps(1)) (simp add: parse_uint_def strip_plus_def digit_value_def is_ascii_digit_def)

end
