(* ===== verification/Sock_Addr.thy ===== *)
theory Sock_Addr
  imports State_Files
begin

text \<open>
  Addresses as texts. The parsers of \<open>std::net\<close> for IPv4, IPv6 and socket addresses, which consume
  a prefix of the text, the text of an address, and what the source makes of them:
  \<open>reserve_listen_target\<close> and \<open>port_of_listen_addr\<close> of \<open>rust/loader/src/policy.rs\<close>, and the split
  of a target into host and port of \<open>rust/loader/src/openresty.rs\<close> and \<open>toy.rs\<close>.
\<close>

subsection \<open>Numbers in another base\<close>

definition hex_value :: "char \<Rightarrow> nat option" where
  "hex_value c =
     (let n = (of_char c :: nat) in
      if 48 \<le> n \<and> n \<le> 57 then Some (n - 48)
      else if 65 \<le> n \<and> n \<le> 70 then Some (n - 55)
      else if 97 \<le> n \<and> n \<le> 102 then Some (n - 87)
      else None)"

definition hex_char :: "bool \<Rightarrow> nat \<Rightarrow> char" where
  "hex_char upper d = char_of (if d < 10 then 48 + d else if upper then 55 + d else 87 + d)"

fun show_hex :: "bool \<Rightarrow> nat \<Rightarrow> string" where
  "show_hex upper n =
     (if n < 16 then [hex_char upper n] else show_hex upper (n div 16) @ [hex_char upper (n mod 16)])"

declare show_hex.simps [simp del]

definition zero_pad :: "nat \<Rightarrow> string \<Rightarrow> string" where
  "zero_pad w s = replicate (w - length s) (CHR ''0'') @ s"

subsection \<open>Reading addresses\<close>

type_synonym 'a reader = "string \<Rightarrow> ('a \<times> string) option"

definition read_given_char :: "char \<Rightarrow> string \<Rightarrow> string option" where
  "read_given_char c s = (case s of [] \<Rightarrow> None | x # r \<Rightarrow> if x = c then Some r else None)"

definition radix_digit :: "nat \<Rightarrow> char \<Rightarrow> nat option" where
  "radix_digit radix c = (if radix = 16 then hex_value c else digit_value c)"

definition read_number :: "nat \<Rightarrow> nat option \<Rightarrow> bool \<Rightarrow> nat \<Rightarrow> nat reader" where
  "read_number radix max_digits allow_zero_prefix mx s =
     (let ds = takeWhile (\<lambda>c. radix_digit radix c \<noteq> None) s;
          value = foldl (\<lambda>acc c. radix * acc + the (radix_digit radix c)) 0 ds
      in if (case max_digits of Some k \<Rightarrow> length ds > k | None \<Rightarrow> False) \<or> ds = [] \<or>
            (\<not> allow_zero_prefix \<and> hd ds = CHR ''0'' \<and> length ds > 1) \<or> value > mx
         then None else Some (value, dropWhile (\<lambda>c. radix_digit radix c \<noteq> None) s))"

text \<open>The \<open>i\<close>-th item of a sequence: the separator first, unless it is the first item.\<close>

definition read_separator :: "char \<Rightarrow> nat \<Rightarrow> 'a reader \<Rightarrow> 'a reader" where
  "read_separator sep i inner s =
     (if i = 0 then inner s else (case read_given_char sep s of None \<Rightarrow> None | Some r \<Rightarrow> inner r))"

definition read_octet :: "nat \<Rightarrow> nat reader" where
  "read_octet i = read_separator (CHR ''.'') i (read_number 10 (Some 3) False 255)"

type_synonym ipv4 = "u8 \<times> u8 \<times> u8 \<times> u8"

definition read_ipv4_addr :: "ipv4 reader" where
  "read_ipv4_addr s =
     (case read_octet 0 s of None \<Rightarrow> None | Some (a, s1) \<Rightarrow>
     (case read_octet 1 s1 of None \<Rightarrow> None | Some (b, s2) \<Rightarrow>
     (case read_octet 2 s2 of None \<Rightarrow> None | Some (c, s3) \<Rightarrow>
     (case read_octet 3 s3 of None \<Rightarrow> None | Some (d, s4) \<Rightarrow>
        Some ((of_nat a, of_nat b, of_nat c, of_nat d), s4)))))"

text \<open>
  Up to \<open>limit\<close> groups from the \<open>i\<close>-th on, with an embedded IPv4 address for the last two, whether
  there was one, and the rest of the text.
\<close>

function read_groups :: "nat \<Rightarrow> nat \<Rightarrow> string \<Rightarrow> u16 list \<times> bool \<times> string" where
  "read_groups limit i s =
     (if i \<ge> limit then ([], False, s)
      else case (if i < limit - 1 then read_separator (CHR '':'') i read_ipv4_addr s else None) of
          Some ((a, b, c, d), r) \<Rightarrow> ([word_cat a b, word_cat c d], True, r)
        | None \<Rightarrow>
          (case read_separator (CHR '':'') i (read_number 16 (Some 4) True 65535) s of
             None \<Rightarrow> ([], False, s)
           | Some (g, r) \<Rightarrow> (case read_groups limit (Suc i) r of (gs, v4, t) \<Rightarrow> (of_nat g # gs, v4, t))))"
  by pat_completeness auto

termination by (relation "measure (\<lambda>(limit, i, s). limit - i)") auto

definition read_ipv6_addr :: "u16 list reader" where
  "read_ipv6_addr s =
     (case read_groups 8 0 s of (head, head_ipv4, r) \<Rightarrow>
        if length head = 8 then Some (head, r)
        else if head_ipv4 then None
        else (case read_given_char (CHR '':'') r of None \<Rightarrow> None | Some r1 \<Rightarrow>
             (case read_given_char (CHR '':'') r1 of None \<Rightarrow> None | Some r2 \<Rightarrow>
             (case read_groups (8 - (length head + 1)) 0 r2 of (tail, _, r3) \<Rightarrow>
                Some (head @ replicate (8 - length head - length tail) 0 @ tail, r3)))))"

definition read_port :: "u16 reader" where
  "read_port s =
     (case read_given_char (CHR '':'') s of None \<Rightarrow> None | Some r \<Rightarrow>
        map_option (\<lambda>(n, t). (of_nat n, t)) (read_number 10 None True 65535 r))"

definition read_scope_id :: "u32 reader" where
  "read_scope_id s =
     (case read_given_char (CHR ''%'') s of None \<Rightarrow> None | Some r \<Rightarrow>
        map_option (\<lambda>(n, t). (of_nat n, t)) (read_number 10 None True 4294967295 r))"

datatype sock_addr = V4 ipv4 port | V6 "u16 list" u32 port

definition read_socket_addr_v4 :: "sock_addr reader" where
  "read_socket_addr_v4 s =
     (case read_ipv4_addr s of None \<Rightarrow> None | Some (ip, r) \<Rightarrow>
        map_option (\<lambda>(p, t). (V4 ip p, t)) (read_port r))"

definition read_socket_addr_v6 :: "sock_addr reader" where
  "read_socket_addr_v6 s =
     (case read_given_char (CHR ''['') s of None \<Rightarrow> None | Some s1 \<Rightarrow>
     (case read_ipv6_addr s1 of None \<Rightarrow> None | Some (ip, s2) \<Rightarrow>
     (case (case read_scope_id s2 of None \<Rightarrow> (0, s2) | Some (z, t) \<Rightarrow> (z, t)) of (scope, s3) \<Rightarrow>
     (case read_given_char (CHR '']'') s3 of None \<Rightarrow> None | Some s4 \<Rightarrow>
        map_option (\<lambda>(p, t). (V6 ip scope p, t)) (read_port s4)))))"

text \<open>The \<open>FromStr\<close> instances: the whole text is consumed, and an IPv4 text has at most 15 characters.\<close>

definition parse_ipv4 :: "string \<Rightarrow> ipv4 option" where
  "parse_ipv4 s =
     (if length s > 15 then None
      else (case read_ipv4_addr s of Some (ip, []) \<Rightarrow> Some ip | _ \<Rightarrow> None))"

definition parse_socket_addr :: "string \<Rightarrow> sock_addr option" where
  "parse_socket_addr s =
     (case (case read_socket_addr_v4 s of Some x \<Rightarrow> Some x | None \<Rightarrow> read_socket_addr_v6 s) of
        Some (a, []) \<Rightarrow> Some a | _ \<Rightarrow> None)"

subsection \<open>The text of an address\<close>

definition show_ipv4 :: "ipv4 \<Rightarrow> string" where
  "show_ipv4 ip = (case ip of (a, b, c, d) \<Rightarrow> join ''.'' (map (show_nat \<circ> unat) [a, b, c, d]))"

definition show_groups :: "u16 list \<Rightarrow> string" where
  "show_groups gs = join '':'' (map (show_hex False \<circ> unat) gs)"

text \<open>The first longest run of zero groups: its start and length.\<close>

fun zero_run :: "nat \<Rightarrow> nat \<times> nat \<Rightarrow> nat \<times> nat \<Rightarrow> u16 list \<Rightarrow> nat \<times> nat" where
  "zero_run i current longest [] = longest"
| "zero_run i (start, len) longest (g # gs) =
     (if g = 0 then
        let current = (if len = 0 then i else start, len + 1)
        in zero_run (Suc i) current (if len + 1 > snd longest then current else longest) gs
      else zero_run (Suc i) (0, 0) longest gs)"

definition show_ipv6 :: "u16 list \<Rightarrow> string" where
  "show_ipv6 gs =
     (if take 6 gs = [0, 0, 0, 0, 0, 65535] then
        ''::ffff:'' @ show_ipv4 (ucast (drop_bit 8 (gs ! 6)), ucast (gs ! 6), ucast (drop_bit 8 (gs ! 7)), ucast (gs ! 7))
      else (case zero_run 0 (0, 0) (0, 0) gs of (start, len) \<Rightarrow>
        if len > 1 then show_groups (take start gs) @ ''::'' @ show_groups (drop (start + len) gs)
        else show_groups gs))"

fun sock_ip :: "sock_addr \<Rightarrow> string" where
  "sock_ip (V4 ip _) = show_ipv4 ip"
| "sock_ip (V6 gs _ _) = show_ipv6 gs"

fun sock_port :: "sock_addr \<Rightarrow> port" where
  "sock_port (V4 _ p) = p"
| "sock_port (V6 _ _ p) = p"

subsection \<open>Listen targets\<close>

definition split_host_port :: "string \<Rightarrow> string \<times> string" where
  "split_host_port addr =
     (case parse_socket_addr addr of
        Some sa \<Rightarrow> (sock_ip sa, show_port (sock_port sa))
      | None \<Rightarrow>
        (case rsplit_once (CHR '':'') addr of
           Some (h, p) \<Rightarrow> (trim_end_matches (\<lambda>c. c = CHR '']'') (dropWhile (\<lambda>c. c = CHR ''['') h), p)
         | None \<Rightarrow> (addr, [])))"

definition port_of_listen_addr :: "string \<Rightarrow> port option" where
  "port_of_listen_addr addr =
     (case parse_socket_addr addr of
        Some sa \<Rightarrow> Some (sock_port sa)
      | None \<Rightarrow>
        (case rsplit_once (CHR '':'') addr of
           None \<Rightarrow> None
         | Some (_, p) \<Rightarrow> map_option of_nat (parse_uint u16_max (trim_end_matches (\<lambda>c. c = CHR '']'') p))))"

definition reserve_listen_target :: "policy \<Rightarrow> string \<Rightarrow> policy" where
  "reserve_listen_target pol addr =
     (case port_of_listen_addr addr of
        Some p \<Rightarrow> pol\<lparr>p_reserve := insert p (p_reserve pol)\<rparr>
      | None \<Rightarrow> pol)"

end
