(* ===== verification/Listen_Fd.thy ===== *)
theory Listen_Fd
  imports Sock_Addr
begin

text \<open>
  \<open>rust/loader/src/listen_fd.rs\<close>: the inode of a listening socket from \<open>/proc/net/tcp\<close>, the
  process that owns it, and a duplicate of its descriptor. What \<open>/proc\<close> and the descriptor system
  calls answer during one call is a record of answers.
\<close>

unbundle bit_operations_syntax

subsection \<open>Answers of the system\<close>

text \<open>
  \<open>/proc/net/tcp\<close>, the own process id, the names in \<open>/proc\<close>, the names in the \<open>fd\<close> directory of a
  name (\<open>None\<close> when it cannot be read), the target of such a descriptor, \<open>pidfd_open\<close>,
  \<open>pidfd_getfd\<close>, the result of \<open>poll\<close> on a process descriptor, and \<open>SO_ACCEPTCONN\<close> of a
  descriptor (\<open>None\<close> when \<open>getsockopt\<close> fails).
\<close>

record proc_view =
  pv_tcp :: "err + string"
  pv_own_pid :: int
  pv_entries :: "err + string list"
  pv_fds :: "string \<Rightarrow> string list option"
  pv_link :: "string \<Rightarrow> string \<Rightarrow> string option"
  pv_pidfd_open :: "int \<Rightarrow> err + int"
  pv_pidfd_getfd :: "int \<Rightarrow> int \<Rightarrow> err + 32 word"
  pv_poll :: "int \<Rightarrow> int"
  pv_accept_conn :: "32 word \<Rightarrow> int option"

record captured_listen =
  cl_inode :: nat
  cl_fd :: "32 word"
  cl_owner_pid :: int
  cl_owner_pidfd :: int

subsection \<open>The table of sockets\<close>

definition ip_to_proc_hex :: "ipv4 \<Rightarrow> u32" where
  "ip_to_proc_hex ip =
     (case ip of (a, b, c, d) \<Rightarrow>
        ucast a OR push_bit 8 (ucast b) OR push_bit 16 (ucast c) OR push_bit 24 (ucast d))"

definition ipv4_unspecified :: ipv4 where "ipv4_unspecified = (0, 0, 0, 0)"

definition eq_ignore_ascii_case :: "string \<Rightarrow> string \<Rightarrow> bool" where
  "eq_ignore_ascii_case s t \<longleftrightarrow> to_ascii_lowercase s = to_ascii_lowercase t"

definition want_port :: "port \<Rightarrow> string" where
  "want_port p = zero_pad 4 (show_hex True (unat p))"

definition want_addr :: "ipv4 \<Rightarrow> string" where
  "want_addr ip = zero_pad 8 (show_hex True (unat (ip_to_proc_hex ip)))"

definition listen_row_inode :: "string \<Rightarrow> string \<Rightarrow> string \<Rightarrow> nat option" where
  "listen_row_inode addr port line =
     (let fields = split_whitespace line
      in if length fields < 10 then None
         else if fields ! 3 \<noteq> ''0A'' then None
         else (case split_once (CHR '':'') (fields ! 1) of
             None \<Rightarrow> None
           | Some (a, p) \<Rightarrow>
               if \<not> eq_ignore_ascii_case p port \<or> \<not> eq_ignore_ascii_case a addr then None
               else parse_uint u64_max (fields ! 9)))"

definition parse_listen_inodes :: "string \<Rightarrow> ipv4 \<Rightarrow> port \<Rightarrow> nat list" where
  "parse_listen_inodes table ip port =
     (case lines table of [] \<Rightarrow> []
      | _ # rows \<Rightarrow> List.map_filter (listen_row_inode (want_addr ip) (want_port port)) rows)"

definition parse_listen_inode :: "string \<Rightarrow> ipv4 \<Rightarrow> port \<Rightarrow> err + nat" where
  "parse_listen_inode table ip port =
     (case parse_listen_inodes table ip port of [] \<Rightarrow> Inl (ListenE NoInode) | i # _ \<Rightarrow> Inr i)"

text \<open>The inodes for a host, or for the wildcard address when there is none; the host must be IPv4.\<close>

definition listen_inodes :: "proc_view \<Rightarrow> string \<Rightarrow> port \<Rightarrow> err + nat list" where
  "listen_inodes v host port =
     (case parse_ipv4 host of
        None \<Rightarrow> Inl (ListenE (BadHost host))
      | Some ip \<Rightarrow>
          rbind (with_context (Doing ''read /proc/net/tcp'') (pv_tcp v)) (\<lambda>data.
            let inodes = parse_listen_inodes data ip port
            in Inr (if inodes = [] then parse_listen_inodes data ipv4_unspecified port else inodes)))"

definition inode_still_listening :: "proc_view \<Rightarrow> string \<Rightarrow> port \<Rightarrow> nat \<Rightarrow> err + bool" where
  "inode_still_listening v host port inode =
     rbind (listen_inodes v host port) (\<lambda>inodes. Inr (inode \<in> set inodes))"

subsection \<open>The owner of a socket\<close>

definition is_pid_name :: "string \<Rightarrow> bool" where
  "is_pid_name name \<longleftrightarrow> name \<noteq> [] \<and> list_all is_ascii_digit name"

definition socket_link :: "nat \<Rightarrow> string" where
  "socket_link inode = ''socket:['' @ show_nat inode @ '']''"

definition capture_foreign_socket :: "proc_view \<Rightarrow> int \<Rightarrow> int \<Rightarrow> nat \<Rightarrow> err + captured_listen" where
  "capture_foreign_socket v pid fd inode =
     rbind (with_context (Doing ''pidfd_open'') (pv_pidfd_open v pid)) (\<lambda>pidfd.
     rbind (with_context (Doing ''pidfd_getfd'') (pv_pidfd_getfd v pidfd fd)) (\<lambda>sockfd.
       Inr \<lparr>cl_inode = inode, cl_fd = sockfd, cl_owner_pid = pid, cl_owner_pidfd = pidfd\<rparr>))"

text \<open>The two loops: a captured socket ends both, otherwise the last error is kept.\<close>

fun scan_fds ::
    "proc_view \<Rightarrow> nat \<Rightarrow> string \<Rightarrow> int \<Rightarrow> string list \<Rightarrow> err option \<Rightarrow> captured_listen + err option" where
  "scan_fds v inode name pid [] last_err = Inr last_err"
| "scan_fds v inode name pid (f # fs) last_err =
     (case pv_link v name f of
        None \<Rightarrow> scan_fds v inode name pid fs last_err
      | Some target \<Rightarrow>
          if target \<noteq> socket_link inode then scan_fds v inode name pid fs last_err
          else (case parse_i32 f of
              None \<Rightarrow> scan_fds v inode name pid fs last_err
            | Some fd_num \<Rightarrow>
                (case capture_foreign_socket v pid fd_num inode of
                   Inr c \<Rightarrow> Inl c
                 | Inl e \<Rightarrow> scan_fds v inode name pid fs (Some e))))"

fun scan_procs :: "proc_view \<Rightarrow> nat \<Rightarrow> string list \<Rightarrow> err option \<Rightarrow> captured_listen + err option" where
  "scan_procs v inode [] last_err = Inr last_err"
| "scan_procs v inode (name # names) last_err =
     (if \<not> is_pid_name name then scan_procs v inode names last_err
      else (case parse_i32 name of
          None \<Rightarrow> scan_procs v inode names last_err
        | Some pid \<Rightarrow>
            if pid = pv_own_pid v then scan_procs v inode names last_err
            else (case pv_fds v name of
                None \<Rightarrow> scan_procs v inode names last_err
              | Some fds \<Rightarrow>
                  (case scan_fds v inode name pid fds last_err of
                     Inl c \<Rightarrow> Inl c
                   | Inr e \<Rightarrow> scan_procs v inode names e))))"

definition open_socket_by_inode :: "proc_view \<Rightarrow> nat \<Rightarrow> err + captured_listen" where
  "open_socket_by_inode v inode =
     rbind (with_context (Doing ''read /proc'') (pv_entries v)) (\<lambda>names.
       case scan_procs v inode names None of
         Inl c \<Rightarrow> Inr c
       | Inr (Some e) \<Rightarrow> Inl (Ctx (Doing ''capture'') e)
       | Inr None \<Rightarrow> Inl (ListenE (SocketNotFound inode)))"

fun first_openable :: "(nat \<Rightarrow> err + 'a) \<Rightarrow> err option \<Rightarrow> nat list \<Rightarrow> err + nat \<times> 'a" where
  "first_openable opener last_err [] = (case last_err of Some e \<Rightarrow> Inl e | None \<Rightarrow> Inl (ListenE NoInode))"
| "first_openable opener last_err (i # is) =
     (case opener i of Inr v \<Rightarrow> Inr (i, v) | Inl e \<Rightarrow> first_openable opener (Some e) is)"

definition first_openable_inode :: "nat list \<Rightarrow> (nat \<Rightarrow> err + 'a) \<Rightarrow> err + nat \<times> 'a" where
  "first_openable_inode inodes opener = first_openable opener None inodes"

definition find_listen_socket_file :: "proc_view \<Rightarrow> string \<Rightarrow> port \<Rightarrow> err + captured_listen" where
  "find_listen_socket_file v host port =
     rbind (listen_inodes v host port) (\<lambda>inodes.
     rbind (with_context (Doing ''no live LISTEN socket'') (first_openable_inode inodes (open_socket_by_inode v)))
       (\<lambda>(_, captured). Inr captured))"

subsection \<open>Health of a captured socket\<close>

definition fd_is_listening :: "proc_view \<Rightarrow> 32 word \<Rightarrow> bool" where
  "fd_is_listening v fd = (case pv_accept_conn v fd of None \<Rightarrow> False | Some val \<Rightarrow> val \<noteq> 0)"

definition pidfd_exited :: "proc_view \<Rightarrow> int \<Rightarrow> bool" where
  "pidfd_exited v pidfd \<longleftrightarrow> pv_poll v pidfd \<noteq> 0"

definition process_has_inode :: "proc_view \<Rightarrow> int \<Rightarrow> nat \<Rightarrow> bool" where
  "process_has_inode v pid inode =
     (case pv_fds v (show_int pid) of
        None \<Rightarrow> False
      | Some fds \<Rightarrow> list_ex (\<lambda>f. pv_link v (show_int pid) f = Some (socket_link inode)) fds)"

definition owner_still_owns_listener :: "proc_view \<Rightarrow> captured_listen \<Rightarrow> bool" where
  "owner_still_owns_listener v c \<longleftrightarrow>
     \<not> pidfd_exited v (cl_owner_pidfd c) \<and> process_has_inode v (cl_owner_pid c) (cl_inode c)"

end
