(* ===== verification/Listen_Facts.thy ===== *)
theory Listen_Facts
  imports Listen_Fd
begin

text \<open>
  What the scan of \<open>/proc\<close> finds: the rows of a table of sockets give the inodes of the listening
  ones of an address, and a listener that is found belongs to a foreign process that shows it.
\<close>

subsection \<open>Fixed-width hexadecimal numbers\<close>

fun fixed_hex :: "nat \<Rightarrow> nat \<Rightarrow> string" where
  "fixed_hex 0 n = []"
| "fixed_hex (Suc w) n = fixed_hex w (n div 16) @ [hex_char True (n mod 16)]"

lemma unat_less: "unat (w :: 'a::len word) < 2 ^ LENGTH('a)"
  by (rule unsigned_less)

lemma hex_char_consts: "hex_char True 0 = CHR ''0''" "hex_char True 10 = CHR ''A''"
  by code_simp+

lemma unat_inj: "unat (v :: 'a::len word) = unat w \<longleftrightarrow> v = w"
  by (auto intro: unsigned_word_eqI)

lemma fixed_hex_zero: "fixed_hex w 0 = replicate w (CHR ''0'')"
  by (induction w) (simp_all add: hex_char_consts replicate_append_same [symmetric])

lemma length_fixed_hex [simp]: "length (fixed_hex w n) = w"
  by (induction w arbitrary: n) simp_all

lemma show_hex_fixed: "n < 16 ^ w \<Longrightarrow> 0 < w \<Longrightarrow> zero_pad w (show_hex True n) = fixed_hex w n"
proof (induction w arbitrary: n)
  case (Suc w)
  show ?case
  proof (cases "n < 16")
    case True
    then show ?thesis
      by (subst show_hex.simps) (simp add: zero_pad_def fixed_hex_zero)
  next
    case False
    then have w: "0 < w" using Suc.prems(1) by (cases w) auto
    have "n div 16 < 16 ^ w" using Suc.prems(1) by (simp add: less_mult_imp_div_less mult.commute)
    from Suc.IH [OF this w] show ?thesis
      using False by (subst show_hex.simps) (simp add: zero_pad_def)
  qed
qed simp

definition hex_fold :: "string \<Rightarrow> nat" where
  "hex_fold s = foldl (\<lambda>acc c. 16 * acc + the (hex_value c)) 0 s"

lemma hex_char_facts:
  assumes "d < 16"
  shows "hex_value (to_ascii_lowercase_char (hex_char True d)) = Some d" "CHR '':'' \<noteq> hex_char True d"
proof -
  have "d = 0 \<or> d = 1 \<or> d = 2 \<or> d = 3 \<or> d = 4 \<or> d = 5 \<or> d = 6 \<or> d = 7 \<or> d = 8 \<or> d = 9 \<or> d = 10 \<or> d = 11 \<or>
      d = 12 \<or> d = 13 \<or> d = 14 \<or> d = 15"
    using assms by presburger
  then show "hex_value (to_ascii_lowercase_char (hex_char True d)) = Some d" "CHR '':'' \<noteq> hex_char True d"
    by (elim disjE; simp add: hex_value_def to_ascii_lowercase_char_def hex_char_def; code_simp)+
qed

lemma hex_fold_snoc: "hex_value c = Some d \<Longrightarrow> hex_fold (s @ [c]) = 16 * hex_fold s + d"
  by (simp add: hex_fold_def)

lemma hex_fold_fixed: "hex_fold (to_ascii_lowercase (fixed_hex w n)) = n mod 16 ^ w"
proof (induction w arbitrary: n)
  case 0
  then show ?case by (simp add: hex_fold_def to_ascii_lowercase_def)
next
  case (Suc w)
  have "hex_value (to_ascii_lowercase_char (hex_char True (n mod 16))) = Some (n mod 16)"
    by (rule hex_char_facts) simp
  then have "hex_fold (to_ascii_lowercase (fixed_hex (Suc w) n)) =
      16 * hex_fold (to_ascii_lowercase (fixed_hex w (n div 16))) + n mod 16"
    unfolding fixed_hex.simps to_ascii_lowercase_def map_append list.map by (rule hex_fold_snoc)
  then show ?case unfolding Suc.IH by (simp only: power_Suc mod_mult2_eq)
qed

lemma fixed_hex_inj:
  assumes "m < 16 ^ w" "n < 16 ^ w"
  shows "eq_ignore_ascii_case (fixed_hex w m) (fixed_hex w n) \<longleftrightarrow> m = n"
  using assms hex_fold_fixed [of w m] hex_fold_fixed [of w n] unfolding eq_ignore_ascii_case_def by (metis mod_less)

lemma want_port_fixed: "want_port p = fixed_hex 4 (unat p)"
  using unat_less [of p] by (simp add: want_port_def show_hex_fixed)

lemma want_addr_fixed: "want_addr ip = fixed_hex 8 (unat (ip_to_proc_hex ip))"
  using unat_less [of "ip_to_proc_hex ip"] by (simp add: want_addr_def show_hex_fixed)

lemma want_port_eq: "eq_ignore_ascii_case (want_port p) (want_port q) \<longleftrightarrow> p = q"
  using unat_less [of p] unat_less [of q] by (simp add: want_port_fixed fixed_hex_inj unat_inj)

lemma bit_u8: "8 \<le> n \<Longrightarrow> \<not> bit (a :: u8) n"
  using bit_imp_le_length [of a n] by auto

lemma proc_hex_octets:
  "ip_to_proc_hex (a, b, c, d) = x \<Longrightarrow>
     (a, b, c, d) = (ucast x, ucast (drop_bit 8 x), ucast (drop_bit 16 x), ucast (drop_bit 24 x))"
  unfolding ip_to_proc_hex_def prod.case
  by (auto simp: bit_simps bit_u8 intro!: bit_word_eqI)

lemma ip_to_proc_hex_inj: "ip_to_proc_hex ip = ip_to_proc_hex ip' \<longleftrightarrow> ip = ip'"
  by (cases ip; cases ip') (metis proc_hex_octets)

lemma want_addr_eq: "eq_ignore_ascii_case (want_addr ip) (want_addr ip') \<longleftrightarrow> ip = ip'"
  using unat_less [of "ip_to_proc_hex ip"] unat_less [of "ip_to_proc_hex ip'"]
  by (simp add: want_addr_fixed fixed_hex_inj unat_inj ip_to_proc_hex_inj)

lemma fixed_hex_no_colon: "CHR '':'' \<notin> set (fixed_hex w n)"
  by (induction w arbitrary: n) (use hex_char_facts(2) in auto)

subsection \<open>The table\<close>

text \<open>
  The format of a row as the kernel documents it (\<open>proc_net_tcp.txt\<close>) on a little-endian machine: an address
  is its four octets, the last one first, in upper-case hexadecimal, a port four such digits, the state two, the
  inode a decimal number after the queues, the timer, the retransmits, the user and the timeout.
\<close>

definition kernel_digit :: "nat \<Rightarrow> char" where
  "kernel_digit n = ''0123456789ABCDEF'' ! n"

definition kernel_octet :: "u8 \<Rightarrow> string" where
  "kernel_octet b = [kernel_digit (unat b div 16), kernel_digit (unat b mod 16)]"

definition kernel_addr :: "ipv4 \<Rightarrow> string" where
  "kernel_addr ip = (case ip of (a, b, c, d) \<Rightarrow> kernel_octet d @ kernel_octet c @ kernel_octet b @ kernel_octet a)"

definition kernel_port :: "port \<Rightarrow> string" where
  "kernel_port p = kernel_octet (ucast (drop_bit 8 p)) @ kernel_octet (ucast p)"

text \<open>A socket and a row that describes it, whatever the spacing.\<close>

record tcp_sock =
  ts_addr :: ipv4
  ts_port :: port
  ts_state :: u8
  ts_inode :: nat

definition row_of :: "tcp_sock \<Rightarrow> string \<Rightarrow> bool" where
  "row_of s row \<longleftrightarrow> ts_inode s \<le> u64_max \<and>
     (\<exists>sl rem queues tail. length queues = 5 \<and>
        split_whitespace row = [sl, kernel_addr (ts_addr s) @ '':'' @ kernel_port (ts_port s), rem,
          kernel_octet (ts_state s)] @ queues @ [show_nat (ts_inode s)] @ tail)"

text \<open>The texts the code looks for are those of this format.\<close>

lemma kernel_digit_hex: "d < 16 \<Longrightarrow> hex_char True d = kernel_digit d"
proof -
  assume "d < 16"
  then have "d = 0 \<or> d = 1 \<or> d = 2 \<or> d = 3 \<or> d = 4 \<or> d = 5 \<or> d = 6 \<or> d = 7 \<or> d = 8 \<or> d = 9 \<or> d = 10 \<or> d = 11 \<or>
      d = 12 \<or> d = 13 \<or> d = 14 \<or> d = 15"
    by presburger
  then show ?thesis by (elim disjE; simp add: kernel_digit_def; code_simp)
qed

lemma fixed_hex_split: "fixed_hex (v + w) n = fixed_hex v (n div 16 ^ w) @ fixed_hex w n"
proof (induction w arbitrary: n)
  case (Suc w)
  show ?case using Suc [of "n div 16"] by (simp add: div_mult2_eq)
qed simp

lemma fixed_hex_octet: "fixed_hex 2 n = kernel_octet (word_of_nat n)"
proof -
  have "unat (word_of_nat n :: u8) = n mod 256" by (simp add: unat_of_nat)
  moreover have "n mod 256 = 16 * (n div 16 mod 16) + n mod 16" using mod_mult2_eq [of n 16 16] by simp
  then have "n mod 256 div 16 = n div 16 mod 16" "n mod 256 mod 16 = n mod 16" by simp_all
  ultimately show ?thesis
    by (simp add: kernel_octet_def numeral_2_eq_2 kernel_digit_hex)
qed

lemma fixed_hex_octets:
  "fixed_hex 4 n = kernel_octet (word_of_nat (n div 256)) @ kernel_octet (word_of_nat n)"
  "fixed_hex 8 n = kernel_octet (word_of_nat (n div 16777216)) @ kernel_octet (word_of_nat (n div 65536)) @
     kernel_octet (word_of_nat (n div 256)) @ kernel_octet (word_of_nat n)"
proof -
  show 4: "fixed_hex 4 n = kernel_octet (word_of_nat (n div 256)) @ kernel_octet (word_of_nat n)" for n
    using fixed_hex_split [of 2 2 n] by (simp add: fixed_hex_octet)
  show "fixed_hex 8 n = kernel_octet (word_of_nat (n div 16777216)) @ kernel_octet (word_of_nat (n div 65536)) @
     kernel_octet (word_of_nat (n div 256)) @ kernel_octet (word_of_nat n)"
    using fixed_hex_split [of 4 4 n] by (simp add: 4 div_mult2_eq [symmetric])
qed

lemma octet_of: "(word_of_nat (unat x div 2 ^ n) :: u8) = ucast (drop_bit n (x :: 'a::len word))"
proof -
  have "unat x div 2 ^ n = unat (drop_bit n x)" unfolding unat_drop_bit_eq by (rule drop_bit_eq_div [symmetric])
  then show ?thesis by (simp only: of_nat_unat)
qed

lemma want_port_kernel: "want_port p = kernel_port p"
  using octet_of [of p 8] octet_of [of p 0] by (simp add: want_port_fixed fixed_hex_octets kernel_port_def)

lemma want_addr_kernel: "want_addr ip = kernel_addr ip"
proof -
  obtain a b c d where ip: "ip = (a, b, c, d)" by (cases ip)
  note o = proc_hex_octets [of a b c d, OF refl]
  show ?thesis
    using o octet_of [of "ip_to_proc_hex ip" 0] octet_of [of "ip_to_proc_hex ip" 8] octet_of [of "ip_to_proc_hex ip" 16]
      octet_of [of "ip_to_proc_hex ip" 24]
    by (simp add: want_addr_fixed fixed_hex_octets kernel_addr_def ip)
qed

lemma state_kernel: "zero_pad 2 (show_hex True (unat (st :: u8))) = kernel_octet st"
  using unat_less [of st] by (simp add: show_hex_fixed fixed_hex_octet)

lemma state_text: "zero_pad 2 (show_hex True (unat (st :: u8))) = ''0A'' \<longleftrightarrow> st = 10"
proof -
  have lt: "unat st < 16 ^ 2" using unat_less [of st] by simp
  have "fixed_hex (Suc (Suc 0)) 10 = ''0A''" by (simp only: fixed_hex.simps) (simp add: hex_char_consts)
  then have "''0A'' = fixed_hex 2 10" by (metis numeral_2_eq_2)
  then have "zero_pad 2 (show_hex True (unat st)) = ''0A'' \<longleftrightarrow> fixed_hex 2 (unat st) = fixed_hex 2 10"
    using show_hex_fixed [OF lt] by simp
  also have "\<dots> \<longleftrightarrow> unat st = 10"
    using hex_fold_fixed [of 2 "unat st"] hex_fold_fixed [of 2 10] lt by fastforce
  also have "\<dots> \<longleftrightarrow> st = 10" using unat_inj [of st 10] by simp
  finally show ?thesis .
qed

lemma listen_row:
  assumes "row_of s row"
  shows "listen_row_inode (want_addr ip) (want_port p) row =
     (if ts_state s = 10 \<and> ts_addr s = ip \<and> ts_port s = p then Some (ts_inode s) else None)"
proof -
  obtain sl rem queues tail where q: "length queues = 5" and row: "split_whitespace row =
      [sl, want_addr (ts_addr s) @ '':'' @ want_port (ts_port s), rem,
       zero_pad 2 (show_hex True (unat (ts_state s)))] @ queues @ [show_nat (ts_inode s)] @ tail"
    and le: "ts_inode s \<le> u64_max"
    using assms by (auto simp: row_of_def want_addr_kernel want_port_kernel state_kernel)
  define fields where "fields = [sl, want_addr (ts_addr s) @ '':'' @ want_port (ts_port s), rem,
       zero_pad 2 (show_hex True (unat (ts_state s)))] @ queues @ [show_nat (ts_inode s)] @ tail"
  have f: "split_whitespace row = fields" "\<not> length fields < 10" "fields ! 9 = show_nat (ts_inode s)"
    "fields ! 3 = zero_pad 2 (show_hex True (unat (ts_state s)))"
    "fields ! 1 = want_addr (ts_addr s) @ '':'' @ want_port (ts_port s)"
    using q row by (simp_all add: fields_def nth_append)
  moreover have "split_once (CHR '':'') (want_addr (ts_addr s) @ '':'' @ want_port (ts_port s)) =
      Some (want_addr (ts_addr s), want_port (ts_port s))"
    using split_once_append [of "CHR '':''" "want_addr (ts_addr s)"] by (simp add: want_addr_fixed fixed_hex_no_colon)
  ultimately show ?thesis
    using le by (simp only: listen_row_inode_def Let_def f if_False option.case prod.case state_text want_port_eq want_addr_eq)
      (simp add: parse_uint_show_nat)
qed

lemma parse_listen_inodes_rows:
  assumes "lines table = header # rows" "list_all2 row_of socks rows"
  shows "parse_listen_inodes table ip p =
     map ts_inode (filter (\<lambda>s. ts_state s = 10 \<and> ts_addr s = ip \<and> ts_port s = p) socks)"
proof -
  have "List.map_filter (listen_row_inode (want_addr ip) (want_port p)) rows =
     map ts_inode (filter (\<lambda>s. ts_state s = 10 \<and> ts_addr s = ip \<and> ts_port s = p) socks)"
    using assms(2) by (induction rule: list_all2_induct) (simp_all add: map_filter_simps listen_row)
  then show ?thesis using assms(1) by (simp add: parse_listen_inodes_def)
qed

subsection \<open>A listener that was found\<close>

text \<open>A foreign process \<open>name\<close> shows the socket under the descriptor \<open>f\<close>.\<close>

definition shown_by :: "proc_view \<Rightarrow> nat \<Rightarrow> string \<Rightarrow> int \<Rightarrow> string \<Rightarrow> int \<Rightarrow> bool" where
  "shown_by v inode name pid f n \<longleftrightarrow> is_pid_name name \<and> parse_i32 name = Some pid \<and> pid \<noteq> pv_own_pid v \<and>
     (\<exists>fds. pv_fds v name = Some fds \<and> f \<in> set fds) \<and> pv_link v name f = Some (socket_link inode) \<and> parse_i32 f = Some n"

definition captures :: "proc_view \<Rightarrow> nat \<Rightarrow> string \<Rightarrow> int \<Rightarrow> captured_listen \<Rightarrow> string \<Rightarrow> bool" where
  "captures v inode name pid c f \<longleftrightarrow> pv_link v name f = Some (socket_link inode) \<and>
     (\<exists>n. parse_i32 f = Some n \<and> capture_foreign_socket v pid n inode = Inr c)"

lemma scan_fds_found: "scan_fds v inode name pid fs e = Inl c \<Longrightarrow> \<exists>f \<in> set fs. captures v inode name pid c f"
  by (induction fs arbitrary: e) (auto simp: captures_def split: option.splits if_splits sum.splits)

lemma scan_fds_none:
  "scan_fds v inode name pid fs e = Inr e' \<Longrightarrow> f \<in> set fs \<Longrightarrow> pv_link v name f = Some (socket_link inode) \<Longrightarrow>
     parse_i32 f = Some n \<Longrightarrow> \<exists>x. capture_foreign_socket v pid n inode = Inl x"
  by (induction fs arbitrary: e) (auto split: option.splits if_splits sum.splits)

definition owner_captures :: "proc_view \<Rightarrow> nat \<Rightarrow> captured_listen \<Rightarrow> string \<Rightarrow> bool" where
  "owner_captures v inode c name \<longleftrightarrow>
     (\<exists>pid f n. shown_by v inode name pid f n \<and> capture_foreign_socket v pid n inode = Inr c)"

lemma owner_capturesI:
  assumes "is_pid_name name" "parse_i32 name = Some pid" "pid \<noteq> pv_own_pid v" "pv_fds v name = Some fds"
    "scan_fds v inode name pid fs e = Inl c" "set fs = set fds"
  shows "owner_captures v inode c name"
  using scan_fds_found [OF assms(5)] assms by (auto simp: owner_captures_def shown_by_def captures_def)

lemma scan_procs_found:
  "scan_procs v inode names e = Inl c \<Longrightarrow> \<exists>name \<in> set names. owner_captures v inode c name"
proof (induction names arbitrary: e)
  case (Cons name names)
  show ?case
  proof (cases "\<exists>e'. scan_procs v inode names e' = Inl c")
    case True
    then show ?thesis using Cons.IH by auto
  next
    case False
    then show ?thesis
      using Cons.prems owner_capturesI [OF _ _ _ _ _ refl]
      by (auto split: if_splits option.splits sum.splits)
  qed
qed simp

lemma scan_procs_none:
  "scan_procs v inode names e = Inr e' \<Longrightarrow> name \<in> set names \<Longrightarrow> shown_by v inode name pid f n \<Longrightarrow>
     \<exists>x. capture_foreign_socket v pid n inode = Inl x"
  by (induction names arbitrary: e)
    (auto simp: shown_by_def dest: scan_fds_none split: option.splits if_splits sum.splits)

lemma open_socket_found:
  "open_socket_by_inode v inode = Inr c \<Longrightarrow>
     \<exists>names name pid f n. pv_entries v = Inr names \<and> name \<in> set names \<and> shown_by v inode name pid f n \<and>
       capture_foreign_socket v pid n inode = Inr c"
proof -
  assume "open_socket_by_inode v inode = Inr c"
  then obtain names where names: "pv_entries v = Inr names"
    and "(case scan_procs v inode names None of Inl c \<Rightarrow> Inr c | Inr (Some e) \<Rightarrow> Inl (Ctx (Doing ''capture'') e)
       | Inr None \<Rightarrow> Inl (ListenE (SocketNotFound inode))) = Inr c"
    by (auto simp: open_socket_by_inode_def rbind_Inr_iff)
  then have "pv_entries v = Inr names" "scan_procs v inode names None = Inl c"
    by (auto split: sum.splits option.splits)
  with scan_procs_found [OF this(2)] show ?thesis unfolding owner_captures_def by blast
qed

lemma open_socket_none:
  assumes "open_socket_by_inode v inode = Inl e" "pv_entries v = Inr names" "name \<in> set names" "shown_by v inode name pid f n"
  shows "\<exists>x. capture_foreign_socket v pid n inode = Inl x"
proof (cases "scan_procs v inode names None")
  case (Inl c)
  then show ?thesis using assms(1,2) by (simp add: open_socket_by_inode_def)
next
  case (Inr x)
  then show ?thesis using scan_procs_none assms(3,4) by blast
qed

lemma first_openable_cases:
  "first_openable opener e is = Inr (i, x) \<Longrightarrow> i \<in> set is \<and> opener i = Inr x"
  "first_openable opener e is = Inl y \<Longrightarrow> \<forall>i \<in> set is. \<exists>z. opener i = Inl z"
  by (induction "is" arbitrary: e) (auto split: sum.splits option.splits)

lemma find_listen_found:
  assumes "find_listen_socket_file v host p = Inr c"
  shows "\<exists>inodes names name pid f n. listen_inodes v host p = Inr inodes \<and> cl_inode c \<in> set inodes \<and>
     pv_entries v = Inr names \<and> name \<in> set names \<and> shown_by v (cl_inode c) name pid f n \<and>
     cl_owner_pid c = pid \<and> pv_pidfd_open v pid = Inr (cl_owner_pidfd c) \<and>
     pv_pidfd_getfd v (cl_owner_pidfd c) n = Inr (cl_fd c)"
proof -
  obtain inodes i where i: "listen_inodes v host p = Inr inodes" "i \<in> set inodes" "open_socket_by_inode v i = Inr c"
    using assms first_openable_cases(1)
    by (fastforce simp: find_listen_socket_file_def rbind_Inr_iff with_context_Inr_iff first_openable_inode_def)
  from open_socket_found [OF i(3)] i(1,2) show ?thesis
    by (auto simp: capture_foreign_socket_def rbind_Inr_iff with_context_Inr_iff) (metis captured_listen.select_convs)
qed

lemma find_listen_none:
  assumes "find_listen_socket_file v host p = Inl e" "listen_inodes v host p = Inr inodes" "i \<in> set inodes"
    "pv_entries v = Inr names" "name \<in> set names" "shown_by v i name pid f n"
  shows "\<exists>x. capture_foreign_socket v pid n i = Inl x"
proof -
  have "\<exists>y. first_openable (open_socket_by_inode v) None inodes = Inl y"
    using assms(1,2)
    by (cases "first_openable (open_socket_by_inode v) None inodes")
      (auto simp: find_listen_socket_file_def first_openable_inode_def)
  then have "\<exists>z. open_socket_by_inode v i = Inl z" using first_openable_cases(2) assms(3) by metis
  then show ?thesis using open_socket_none assms(4-6) by blast
qed

end
