(* ===== verification/Act_Logic.thy ===== *)
theory Act_Logic
  imports Prelude
begin

text \<open>
  A small logic of pre- and postconditions for actions. A failing action has a postcondition of its
  own, because an early return keeps the effects it comes after; a property of every reachable state,
  crashes included, is one that both postconditions give.
\<close>

subsection \<open>Handling a result\<close>

text \<open>\<open>let _ = op\<close>, the two arms of a \<open>match\<close> on the result of an operation, and \<open>context\<close>.\<close>

definition attempt :: "('s, 'a) act \<Rightarrow> ('s, unit) act" where
  "attempt m w = (Inr (), snd (m w))"

definition on_result :: "('s, 'a) act \<Rightarrow> (err \<Rightarrow> ('s, 'b) act) \<Rightarrow> ('a \<Rightarrow> ('s, 'b) act) \<Rightarrow> ('s, 'b) act" where
  "on_result m h k w = (case m w of (Inl e, t) \<Rightarrow> h e t | (Inr x, t) \<Rightarrow> k x t)"

definition in_context :: "ctx \<Rightarrow> ('s, 'a) act \<Rightarrow> ('s, 'a) act" where
  "in_context c m w = (case m w of (r, t) \<Rightarrow> (with_context c r, t))"

subsection \<open>Triples\<close>

definition triple :: "('s \<Rightarrow> bool) \<Rightarrow> ('s, 'a) act \<Rightarrow> ('a \<Rightarrow> 's \<Rightarrow> bool) \<Rightarrow> ('s \<Rightarrow> bool) \<Rightarrow> bool" where
  "triple P m Q E \<longleftrightarrow> (\<forall>s. P s \<longrightarrow> (case m s of (Inl e, t) \<Rightarrow> E t | (Inr x, t) \<Rightarrow> Q x t))"

lemma tripleI:
  assumes "\<And>s x t. P s \<Longrightarrow> m s = (Inr x, t) \<Longrightarrow> Q x t" "\<And>s e t. P s \<Longrightarrow> m s = (Inl e, t) \<Longrightarrow> E t"
  shows "triple P m Q E"
  using assms by (auto simp: triple_def split: prod.splits sum.splits)

lemma triple_Inr: "triple P m Q E \<Longrightarrow> P s \<Longrightarrow> m s = (Inr x, t) \<Longrightarrow> Q x t"
  by (auto simp: triple_def dest: spec [of _ s])

lemma triple_Inl: "triple P m Q E \<Longrightarrow> P s \<Longrightarrow> m s = (Inl e, t) \<Longrightarrow> E t"
  by (auto simp: triple_def dest: spec [of _ s])

lemma triple_end: "triple P m (\<lambda>x. E) E \<Longrightarrow> P s \<Longrightarrow> m s = (r, t) \<Longrightarrow> E t"
  by (cases r) (auto dest: triple_Inr triple_Inl)

lemma triple_weaken:
  assumes "triple P m Q E" "\<And>s. P' s \<Longrightarrow> P s" "\<And>x s. Q x s \<Longrightarrow> Q' x s" "\<And>s. E s \<Longrightarrow> E' s"
  shows "triple P' m Q' E'"
proof (rule tripleI)
  fix s x t assume "P' s" "m s = (Inr x, t)"
  then show "Q' x t" using assms by (blast dest: triple_Inr)
next
  fix s e t assume "P' s" "m s = (Inl e, t)"
  then show "E' t" using assms by (blast dest: triple_Inl)
qed

named_theorems triple_rules \<open>the triples of the combinators\<close>

lemma triple_ret [triple_rules]: "triple (Q x) (ret x) Q E"
  by (simp add: triple_def ret_def)

lemma triple_fail [triple_rules]: "triple E (fail e) Q E"
  by (simp add: triple_def fail_def)

lemma triple_gets [triple_rules]: "triple (\<lambda>s. Q (f s) s) (gets f) Q E"
  by (simp add: triple_def gets_def)

lemma triple_lift_res: "triple (\<lambda>s. (\<forall>x. r = Inr x \<longrightarrow> Q x s) \<and> (\<forall>e. r = Inl e \<longrightarrow> E s)) (lift_res r) Q E"
  by (auto simp: triple_def lift_res_def split: sum.splits)

lemma triple_sbind:
  assumes "triple P m R E" "\<And>x. triple (R x) (f x) Q E"
  shows "triple P (sbind m f) Q E"
proof -
  have "case sbind m f s of (Inl e, t) \<Rightarrow> E t | (Inr x, t) \<Rightarrow> Q x t" if "P s" for s
  proof (cases "m s")
    case (Pair r u)
    show ?thesis
    proof (cases r)
      case (Inl e)
      then show ?thesis using that Pair assms(1) by (auto simp: sbind_def dest: triple_Inl)
    next
      case (Inr x)
      have "R x u" using triple_Inr [OF assms(1) that] Pair Inr by simp
      then show ?thesis using assms(2) [of x] Pair Inr by (simp add: sbind_def triple_def)
    qed
  qed
  then show ?thesis by (simp add: triple_def)
qed

lemma triple_on_result:
  assumes "triple P m R F" "\<And>x. triple (R x) (k x) Q E" "\<And>e. triple F (h e) Q E"
  shows "triple P (on_result m h k) Q E"
proof -
  have "case on_result m h k s of (Inl e, t) \<Rightarrow> E t | (Inr x, t) \<Rightarrow> Q x t" if "P s" for s
  proof (cases "m s")
    case (Pair r u)
    show ?thesis
    proof (cases r)
      case (Inl e)
      have "F u" using triple_Inl [OF assms(1) that] Pair Inl by simp
      then show ?thesis using assms(3) [of e] Pair Inl by (simp add: on_result_def triple_def)
    next
      case (Inr x)
      have "R x u" using triple_Inr [OF assms(1) that] Pair Inr by simp
      then show ?thesis using assms(2) [of x] Pair Inr by (simp add: on_result_def triple_def)
    qed
  qed
  then show ?thesis by (simp add: triple_def)
qed

lemma triple_attempt: "triple P m (\<lambda>x. Q ()) (Q ()) \<Longrightarrow> triple P (attempt m) Q E"
  by (rule tripleI) (auto simp: attempt_def intro: triple_end [OF _ _ prod.collapse [symmetric]])

lemma triple_in_context: "triple P m Q E \<Longrightarrow> triple P (in_context c m) Q E"
  by (rule tripleI)
    (auto simp: in_context_def with_context_Inl_iff split: prod.splits dest: triple_Inr triple_Inl)

lemma triple_if:
  "(b \<Longrightarrow> triple P m Q E) \<Longrightarrow> (\<not> b \<Longrightarrow> triple P n Q E) \<Longrightarrow> triple P (if b then m else n) Q E"
  by simp

lemma triple_option:
  "(x = None \<Longrightarrow> triple P m Q E) \<Longrightarrow> (\<And>y. x = Some y \<Longrightarrow> triple P (f y) Q E) \<Longrightarrow>
     triple P (case x of None \<Rightarrow> m | Some y \<Rightarrow> f y) Q E"
  by (cases x) simp_all

subsection \<open>Invariants\<close>

text \<open>An action keeps \<open>I\<close>, whether it succeeds or fails, and its result satisfies \<open>Q\<close>.\<close>

definition keeps :: "('s \<Rightarrow> bool) \<Rightarrow> ('s, 'a) act \<Rightarrow> ('a \<Rightarrow> bool) \<Rightarrow> bool" where
  "keeps I m Q \<longleftrightarrow> triple I m (\<lambda>x s. I s \<and> Q x) I"

lemma keepsI:
  assumes "\<And>s r t. I s \<Longrightarrow> m s = (r, t) \<Longrightarrow> I t" "\<And>s x t. I s \<Longrightarrow> m s = (Inr x, t) \<Longrightarrow> Q x"
  shows "keeps I m Q"
  unfolding keeps_def by (rule tripleI) (use assms in blast)+

lemma keepsD: "keeps I m Q \<Longrightarrow> I s \<Longrightarrow> m s = (r, t) \<Longrightarrow> I t \<and> (\<forall>x. r = Inr x \<longrightarrow> Q x)"
  by (cases r) (auto simp: keeps_def dest: triple_Inr triple_Inl)

lemma keeps_weaken: "keeps I m Q \<Longrightarrow> (\<And>x. Q x \<Longrightarrow> Q' x) \<Longrightarrow> keeps I m Q'"
  unfolding keeps_def by (erule triple_weaken) auto

lemma keeps_end: "keeps J m Q \<Longrightarrow> (\<And>s. I s \<Longrightarrow> J s) \<Longrightarrow> triple I m (\<lambda>_. J) J"
  by (auto simp: keeps_def elim: triple_weaken)

lemma keeps_then:
  assumes "keeps I m R" "\<And>x. R x \<Longrightarrow> triple I (f x) (\<lambda>_. J) J" "\<And>s. I s \<Longrightarrow> J s"
  shows "triple I (sbind m f) (\<lambda>_. J) J"
proof (rule triple_sbind [where R = "\<lambda>x s. I s \<and> R x"])
  show "triple I m (\<lambda>x s. I s \<and> R x) J"
    using assms(1,3) by (auto simp: keeps_def intro: triple_weaken)
  show "triple (\<lambda>s. I s \<and> R x) (f x) (\<lambda>_. J) J" for x
    using assms(2) [of x] by (auto simp: triple_def)
qed

lemma keeps_pure [triple_rules]:
  "Q x \<Longrightarrow> keeps I (ret x) Q" "keeps I (fail e) Q" "(\<And>s. I s \<Longrightarrow> Q' (f s)) \<Longrightarrow> keeps I (gets f) Q'"
  "(\<And>x. r = Inr x \<Longrightarrow> Q'' x) \<Longrightarrow> keeps I (lift_res r) Q''"
  by (auto intro!: keepsI simp: act_simps)

lemma keeps_sbind:
  assumes "keeps I m R" "\<And>x. R x \<Longrightarrow> keeps I (f x) Q"
  shows "keeps I (sbind m f) Q"
  unfolding keeps_def
proof (rule triple_sbind [where R = "\<lambda>x s. I s \<and> R x"])
  show "triple I m (\<lambda>x s. I s \<and> R x) I" using assms(1) by (simp add: keeps_def)
  show "triple (\<lambda>s. I s \<and> R x) (f x) (\<lambda>y s. I s \<and> Q y) I" for x
    using assms(2) [of x] by (auto simp: keeps_def triple_def)
qed

lemma keeps_on_result:
  assumes "keeps I m R" "\<And>e. keeps I (h e) Q" "\<And>x. R x \<Longrightarrow> keeps I (k x) Q"
  shows "keeps I (on_result m h k) Q"
  unfolding keeps_def
proof (rule triple_on_result [where R = "\<lambda>x s. I s \<and> R x"])
  show "triple I m (\<lambda>x s. I s \<and> R x) I" using assms(1) by (simp add: keeps_def)
  show "triple (\<lambda>s. I s \<and> R x) (k x) (\<lambda>y s. I s \<and> Q y) I" for x
    using assms(3) [of x] by (auto simp: keeps_def triple_def)
  show "triple I (h e) (\<lambda>y s. I s \<and> Q y) I" for e using assms(2) by (simp add: keeps_def)
qed

text \<open>The same with nothing to know of the intermediate result, so that proof search can apply them.\<close>

lemma keeps_sbind_any [triple_rules]:
  "keeps I m (\<lambda>_. True) \<Longrightarrow> (\<And>x. keeps I (f x) Q) \<Longrightarrow> keeps I (sbind m f) Q"
  by (rule keeps_sbind)

lemma keeps_on_result_any [triple_rules]:
  "keeps I m (\<lambda>_. True) \<Longrightarrow> (\<And>e. keeps I (h e) Q) \<Longrightarrow> (\<And>x. keeps I (k x) Q) \<Longrightarrow>
     keeps I (on_result m h k) Q"
  by (rule keeps_on_result)

lemma keeps_attempt [triple_rules]: "keeps I m (\<lambda>_. True) \<Longrightarrow> keeps I (attempt m) (\<lambda>_. True)"
  by (auto intro!: keepsI simp: attempt_def dest: keepsD) (metis keepsD prod.collapse)

lemma keeps_in_context [triple_rules]: "keeps I m Q \<Longrightarrow> keeps I (in_context c m) Q"
  by (simp add: keeps_def triple_in_context)

lemma keeps_if [triple_rules]:
  "(b \<Longrightarrow> keeps I m Q) \<Longrightarrow> (\<not> b \<Longrightarrow> keeps I n Q) \<Longrightarrow> keeps I (if b then m else n) Q"
  by simp

lemma keeps_sum [triple_rules]:
  "(\<And>e. x = Inl e \<Longrightarrow> keeps I (f e) Q) \<Longrightarrow> (\<And>y. x = Inr y \<Longrightarrow> keeps I (g y) Q) \<Longrightarrow>
     keeps I (case x of Inl e \<Rightarrow> f e | Inr y \<Rightarrow> g y) Q"
  by (cases x) simp_all

lemma keeps_option [triple_rules]:
  "(x = None \<Longrightarrow> keeps I m Q) \<Longrightarrow> (\<And>y. x = Some y \<Longrightarrow> keeps I (f y) Q) \<Longrightarrow>
     keeps I (case x of None \<Rightarrow> m | Some y \<Rightarrow> f y) Q"
  by (cases x) simp_all

end
