(* ===== verification/Bpf_Pins.thy ===== *)
theory Bpf_Pins
  imports State_Files Act_Logic
begin

text \<open>
  Kernel objects pinned in the BPF file system and the operations of \<open>rust/loader/src/pin.rs\<close> on
  them. A pin names a map, a program or a link; a link runs a program until it is detached, and the
  link of a removed pin stays, since a process may hold its descriptor. Every system call that can
  change something is one step at a time \<open>bw_clock\<close>: \<open>bw_fault\<close> says at which times the step fails
  and \<open>bw_halt\<close> at which time the process is killed. A statement for all of them covers every
  failure and every kill; after it no step has an effect, while pins, pinned links and files stay.
\<close>

type_synonym prog = nat
type_synonym map_id = nat

datatype pinned = MapPin map_id | ProgPin prog | LinkPin nat

record bpf_world =
  bw_pins :: "path \<Rightarrow> pinned option"
  bw_links :: "nat \<Rightarrow> prog option"
  bw_fresh :: nat
  bw_files :: "path \<Rightarrow> string option"
  bw_clock :: nat
  bw_halt :: "nat \<Rightarrow> bool"
  bw_fault :: "nat \<Rightarrow> bool"

type_synonym 'a bpf_act = "(bpf_world, 'a) act"

subsection \<open>System calls\<close>

definition sys :: "path \<Rightarrow> (bpf_world \<Rightarrow> err + 'a \<times> bpf_world) \<Rightarrow> 'a bpf_act" where
  "sys p f w =
     (if bw_halt w (bw_clock w) then (Inl (UpgradeE Stopped), w)
      else let w1 = w\<lparr>bw_clock := bw_clock w + 1\<rparr> in
        if bw_fault w (bw_clock w) then (Inl (IoE (IoFault p)), w1)
        else (case f w1 of Inl e \<Rightarrow> (Inl e, w1) | Inr (x, w2) \<Rightarrow> (Inr x, w2)))"

definition pin_exists :: "path \<Rightarrow> bpf_world \<Rightarrow> bool" where
  "pin_exists p w \<longleftrightarrow> bw_pins w p \<noteq> None"

definition pin_remove :: "path \<Rightarrow> unit bpf_act" where
  "pin_remove p = sys p (\<lambda>w.
     if bw_pins w p = None then Inl (IoE (NotFound p))
     else Inr ((), w\<lparr>bw_pins := (bw_pins w)(p := None)\<rparr>))"

definition pin_rename :: "path \<Rightarrow> path \<Rightarrow> unit bpf_act" where
  "pin_rename p q = sys p (\<lambda>w.
     case bw_pins w p of
       None \<Rightarrow> Inl (IoE (NotFound p))
     | Some x \<Rightarrow> Inr ((), w\<lparr>bw_pins := (bw_pins w)(p := None, q := Some x)\<rparr>))"

definition pin_object :: "path \<Rightarrow> pinned \<Rightarrow> unit bpf_act" where
  "pin_object p x = sys p (\<lambda>w.
     if bw_pins w p \<noteq> None then Inl (IoE (IoFault p))
     else Inr ((), w\<lparr>bw_pins := (bw_pins w)(p := Some x)\<rparr>))"

definition open_pinned :: "path \<Rightarrow> pinned bpf_act" where
  "open_pinned p = sys p (\<lambda>w. case bw_pins w p of Some x \<Rightarrow> Inr (x, w) | None \<Rightarrow> Inl (PinE (PinMissing p)))"

definition open_map :: "path \<Rightarrow> map_id bpf_act" where
  "open_map p = sys p (\<lambda>w. case bw_pins w p of Some (MapPin m) \<Rightarrow> Inr (m, w) | _ \<Rightarrow> Inl (PinE (PinMissing p)))"

definition open_link :: "path \<Rightarrow> nat bpf_act" where
  "open_link p = sys p (\<lambda>w. case bw_pins w p of Some (LinkPin i) \<Rightarrow> Inr (i, w) | _ \<Rightarrow> Inl (PinE (PinMissing p)))"

text \<open>
  \<open>bpf_link_update\<close> replaces the program of an attached link, without a gap; the descriptor it is
  given must be a program's.
\<close>

definition link_update :: "path \<Rightarrow> nat \<Rightarrow> pinned \<Rightarrow> unit bpf_act" where
  "link_update p i x = sys p (\<lambda>w.
     case (bw_links w i, x) of
       (Some _, ProgPin g) \<Rightarrow> Inr ((), w\<lparr>bw_links := (bw_links w)(i := Some g)\<rparr>)
     | _ \<Rightarrow> Inl (IoE (IoFault p)))"

definition link_detach :: "path \<Rightarrow> nat \<Rightarrow> unit bpf_act" where
  "link_detach p i = sys p (\<lambda>w. Inr ((), w\<lparr>bw_links := (bw_links w)(i := None)\<rparr>))"

definition attach_netns :: "prog \<Rightarrow> nat bpf_act" where
  "attach_netns g = sys [''netns''] (\<lambda>w.
     Inr (bw_fresh w, w\<lparr>bw_links := (bw_links w)(bw_fresh w := Some g), bw_fresh := bw_fresh w + 1\<rparr>))"

definition file_step :: "fs_step \<Rightarrow> unit bpf_act" where
  "file_step st = sys (step_path st) (\<lambda>w.
     case step_files st (bw_files w) of
       None \<Rightarrow> Inl (IoE (NotFound (step_path st)))
     | Some fs \<Rightarrow> Inr ((), w\<lparr>bw_files := fs\<rparr>))"

fun file_steps :: "fs_step list \<Rightarrow> unit bpf_act" where
  "file_steps [] = ret ()"
| "file_steps (st # sts) = sbind (file_step st) (\<lambda>_. file_steps sts)"

subsection \<open>What is pinned\<close>

definition maps_pinned :: "path \<Rightarrow> bpf_world \<Rightarrow> bool" where
  "maps_pinned dir w \<longleftrightarrow> pin_exists (open_ports_path dir) w \<and> pin_exists (redir_socket_path dir) w"

definition link_pinned :: "path \<Rightarrow> bpf_world \<Rightarrow> bool" where
  "link_pinned dir w \<longleftrightarrow> pin_exists (sk_lookup_link_path dir) w"

definition backup_link_pinned :: "path \<Rightarrow> bpf_world \<Rightarrow> bool" where
  "backup_link_pinned dir w \<longleftrightarrow> pin_exists (sk_lookup_backup_link_path dir) w"

definition dataplane_pinned :: "path \<Rightarrow> bpf_world \<Rightarrow> bool" where
  "dataplane_pinned dir w \<longleftrightarrow> maps_pinned dir w \<and> link_pinned dir w \<and> backup_link_pinned dir w"

text \<open>The maps of a loaded object are pinned unless the pins are there; both object kinds alike.\<close>

definition pin_if_absent :: "path \<Rightarrow> map_id option \<Rightarrow> string \<Rightarrow> unit bpf_act" where
  "pin_if_absent p loaded name =
     sbind (gets (pin_exists p)) (\<lambda>there.
       if there then ret ()
       else (case loaded of
           None \<Rightarrow> fail (UpgradeE (MissingMap name))
         | Some m \<Rightarrow> pin_object p (MapPin m)))"

definition ensure_maps_pinned :: "path \<Rightarrow> map_id option \<Rightarrow> map_id option \<Rightarrow> unit bpf_act" where
  "ensure_maps_pinned dir open_ports redir_socket =
     sbind (file_step (Mkdir dir)) (\<lambda>_.
     sbind (pin_if_absent (open_ports_path dir) open_ports ''open_ports'') (\<lambda>_.
       pin_if_absent (redir_socket_path dir) redir_socket ''redir_socket''))"

subsection \<open>Detaching and unpinning\<close>

text \<open>\<open>Link::unpin\<close> removes the pin, so the last removal of the file usually finds nothing.\<close>

definition detach_pinned_link :: "path \<Rightarrow> unit bpf_act" where
  "detach_pinned_link p =
     sbind (gets (pin_exists p)) (\<lambda>there.
       if \<not> there then ret ()
       else sbind (on_result (open_link p) (\<lambda>_. ret ()) (\<lambda>i.
              sbind (attempt (link_detach p i)) (\<lambda>_. attempt (pin_remove p)))) (\<lambda>_.
            attempt (pin_remove p)))"

fun remove_all :: "path list \<Rightarrow> unit bpf_act" where
  "remove_all [] = ret ()"
| "remove_all (p # ps) = sbind (attempt (pin_remove p)) (\<lambda>_. remove_all ps)"

definition unpin_dataplane :: "path \<Rightarrow> unit bpf_act" where
  "unpin_dataplane dir =
     sbind (detach_pinned_link (sk_lookup_link_path dir)) (\<lambda>_.
     sbind (detach_pinned_link (sk_lookup_backup_link_path dir)) (\<lambda>_.
     sbind (remove_all [prog_path dir, prog_previous_path dir, prog_candidate_path dir, open_ports_path dir,
              redir_socket_path dir]) (\<lambda>_.
       attempt (pin_remove dir))))"

definition detach_primary_link :: "path \<Rightarrow> unit bpf_act" where
  "detach_primary_link dir =
     sbind (gets (pin_exists (sk_lookup_link_path dir))) (\<lambda>there.
       if \<not> there then fail (PinE (PrimaryNotPinned (sk_lookup_link_path dir)))
       else detach_pinned_link (sk_lookup_link_path dir))"

subsection \<open>What a step can change\<close>

lemma sys_cases:
  assumes "sys p f w = (r, t)"
  obtains "t = w" "r = Inl (UpgradeE Stopped)"
  | e where "t = w\<lparr>bw_clock := bw_clock w + 1\<rparr>" "r = Inl e"
  | x where "f (w\<lparr>bw_clock := bw_clock w + 1\<rparr>) = Inr (x, t)" "r = Inr x"
  using assms by (auto simp: sys_def Let_def split: if_splits sum.splits)

text \<open>
  An invariant of the world that does not look at the clock is kept by every step whose effect
  keeps it, whatever fails and whenever the process is killed.
\<close>

definition timeless :: "(bpf_world \<Rightarrow> bool) \<Rightarrow> bool" where
  "timeless I \<longleftrightarrow> (\<forall>w n. I w \<longrightarrow> I (w\<lparr>bw_clock := n\<rparr>))"

lemma timelessD: "timeless I \<Longrightarrow> I w \<Longrightarrow> I (w\<lparr>bw_clock := n\<rparr>)"
  by (simp add: timeless_def)

lemma keeps_sys:
  assumes "timeless I" "\<And>w x t. I w \<Longrightarrow> f w = Inr (x, t) \<Longrightarrow> I t \<and> Q x"
  shows "keeps I (sys p f) Q"
proof (rule keepsI)
  fix s r t assume "I s" "sys p f s = (r, t)"
  then show "I t"
    by (elim sys_cases) (use assms timelessD in blast)+
next
  fix s x t assume s: "I s" "sys p f s = (Inr x, t)"
  from s(2) show "Q x"
    by (rule sys_cases) (use s(1) assms timelessD in \<open>auto, blast\<close>)
qed

lemma keeps_file_steps:
  "(\<And>st. keeps I (file_step st) (\<lambda>_. True)) \<Longrightarrow> keeps I (file_steps sts) (\<lambda>_. True)"
  by (induction sts) (auto intro!: triple_rules)

text \<open>From now on no step fails and the process is not killed.\<close>

definition calm :: "bpf_world \<Rightarrow> bool" where
  "calm w \<longleftrightarrow> (\<forall>n \<ge> bw_clock w. \<not> bw_halt w n \<and> \<not> bw_fault w n)"

lemma sys_calm:
  "calm w \<Longrightarrow> sys p f w = (let w1 = w\<lparr>bw_clock := bw_clock w + 1\<rparr> in
     case f w1 of Inl e \<Rightarrow> (Inl e, w1) | Inr (x, w2) \<Rightarrow> (Inr x, w2))"
  by (simp add: sys_def calm_def)

end
