(* ===== verification/Upgrade.thy ===== *)
theory Upgrade
  imports Bpf_Pins Nginx_Listen
begin

text \<open>
  \<open>rust/loader/src/upgrade.rs\<close>: replacing the program of the pinned primary link by a candidate's,
  with a journal of phases and a way back. What libbpf, the JSON library, the hasher and the
  environment answer are the fields of one record of parameters; a health window is a number of
  nanoseconds. No other process changes pins or links during a run; the failure of a call, which any
  call may have, stands for what such a change would make it return.
\<close>

subsection \<open>Phases and the journal\<close>

datatype phase = Prepared | Activating | Healthy | RollingBack | RolledBack | Committed | Failed

definition terminal :: "phase \<Rightarrow> bool" where
  "terminal ph \<longleftrightarrow> ph \<in> {RolledBack, Committed, Failed}"

record journal =
  j_schema_version :: nat
  j_phase :: phase
  j_pin_dir :: string
  j_candidate :: string
  j_health_window_ms :: nat
  j_detail :: string

record map_abi =
  abi_name :: string
  abi_key_size :: nat
  abi_value_size :: nat
  abi_max_entries :: nat

record bpf_object =
  bo_maps :: "(string \<times> map_id) list"
  bo_progs :: "(string \<times> prog) list"

record upgrade_env =
  ue_ops :: "map_id kops"
  ue_is_file :: "path \<Rightarrow> bool"
  ue_open :: "path \<Rightarrow> err + bpf_object"
  ue_load :: "bpf_object \<Rightarrow> err + bpf_object"
  ue_key :: "path \<Rightarrow> string"
  ue_print :: "journal \<Rightarrow> string"
  ue_parse :: "string \<Rightarrow> journal option"
  ue_show :: "err \<Rightarrow> string"
  ue_fail_health :: "string option"

definition schema_version :: nat where "schema_version = 1"

definition default_journal_dir :: path where
  "default_journal_dir = [''/'', ''run'', ''waf-sklookup'', ''upgrades'']"

definition max_health_window :: nat where "max_health_window = 300 * 1000000000"

definition millis :: "nat \<Rightarrow> nat" where
  "millis ns = (ns div 1000000) mod 2 ^ 64"

definition expected_map_names :: "string list" where
  "expected_map_names = [''open_ports'', ''redir_socket'']"

definition expected_open_ports_abi :: map_abi where
  "expected_open_ports_abi = \<lparr>abi_name = ''open_ports'', abi_key_size = open_ports_key_size,
     abi_value_size = open_ports_value_size, abi_max_entries = open_ports_max_entries\<rparr>"

definition expected_redir_socket_abi :: map_abi where
  "expected_redir_socket_abi = \<lparr>abi_name = ''redir_socket'', abi_key_size = redir_socket_key_size,
     abi_value_size = redir_socket_value_size, abi_max_entries = redir_socket_max_entries\<rparr>"

subsection \<open>The journal file\<close>

definition journal_path_in :: "upgrade_env \<Rightarrow> path \<Rightarrow> path \<Rightarrow> path" where
  "journal_path_in env journal_dir pin_dir = journal_dir @ [ue_key env pin_dir @ ''.json'']"

definition journal_path :: "upgrade_env \<Rightarrow> path \<Rightarrow> path" where
  "journal_path env pin_dir = journal_path_in env default_journal_dir pin_dir"

text \<open>\<open>Path::with_extension\<close>: the text after the last dot is replaced, unless the dot comes first.\<close>

definition file_stem :: "string \<Rightarrow> string" where
  "file_stem n = (let r = dropWhile (\<lambda>c. c \<noteq> CHR ''.'') (rev n) in if length r \<le> 1 then n else rev (tl r))"

definition with_extension :: "path \<Rightarrow> string \<Rightarrow> path" where
  "with_extension p ext =
     (case path_file_name p of None \<Rightarrow> p | Some n \<Rightarrow> butlast p @ [file_stem n @ ''.'' @ ext])"

definition read_journal_at :: "upgrade_env \<Rightarrow> path \<Rightarrow> journal option bpf_act" where
  "read_journal_at env p = sys p (\<lambda>w.
     case bw_files w (resolve p) of
       None \<Rightarrow> Inr (None, w)
     | Some raw \<Rightarrow> (case ue_parse env raw of
           None \<Rightarrow> Inl (UpgradeE (JournalParse p))
         | Some j \<Rightarrow> Inr (Some j, w)))"

definition read_journal :: "upgrade_env \<Rightarrow> path \<Rightarrow> journal option bpf_act" where
  "read_journal env pin_dir = read_journal_at env (journal_path env pin_dir)"

definition journal_steps :: "path \<Rightarrow> path \<Rightarrow> string \<Rightarrow> fs_step list" where
  "journal_steps parent p data =
     (let temp = with_extension p ''json.tmp''
      in [Mkdir parent, Create temp] @ map (\<lambda>c. Append temp [c]) (data @ [CHR 0x0A]) @ [Sync temp, Rename temp p])"

definition write_journal_at :: "upgrade_env \<Rightarrow> path \<Rightarrow> journal \<Rightarrow> unit bpf_act" where
  "write_journal_at env p j =
     (case path_parent p of
        None \<Rightarrow> fail (IoE (NotFound p))
      | Some parent \<Rightarrow> file_steps (journal_steps parent p (ue_print env j)))"

definition write_journal :: "upgrade_env \<Rightarrow> path \<Rightarrow> journal \<Rightarrow> unit bpf_act" where
  "write_journal env pin_dir j = write_journal_at env (journal_path env pin_dir) j"

definition mark :: "upgrade_env \<Rightarrow> path \<Rightarrow> journal \<Rightarrow> phase \<Rightarrow> string \<Rightarrow> journal bpf_act" where
  "mark env pin_dir j ph detail =
     (let j1 = j\<lparr>j_phase := ph, j_detail := detail\<rparr>
      in sbind (write_journal env pin_dir j1) (\<lambda>_. ret j1))"

subsection \<open>The candidate\<close>

definition validate_abi :: "map_abi \<Rightarrow> map_abi \<Rightarrow> err + unit" where
  "validate_abi candidate expected =
     (if candidate \<noteq> expected then Inl (UpgradeE (AbiMismatch (abi_name expected))) else Inr ())"

definition abi_of :: "upgrade_env \<Rightarrow> string \<Rightarrow> map_id \<Rightarrow> map_abi" where
  "abi_of env name m = \<lparr>abi_name = name, abi_key_size = k_key_size (ue_ops env) m,
     abi_value_size = k_value_size (ue_ops env) m, abi_max_entries = k_max_entries (ue_ops env) m\<rparr>"

definition abi_of_pinned :: "upgrade_env \<Rightarrow> path \<Rightarrow> string \<Rightarrow> map_abi bpf_act" where
  "abi_of_pinned env p expected_name = sbind (open_map p) (\<lambda>m. ret (abi_of env expected_name m))"

definition wanted_map :: "path \<Rightarrow> string \<Rightarrow> path \<times> map_abi" where
  "wanted_map pin_dir name =
     (if name = ''open_ports'' then (open_ports_path pin_dir, expected_open_ports_abi)
      else (redir_socket_path pin_dir, expected_redir_socket_abi))"

text \<open>The loop over the candidate's maps: the maps with the reused ones in place.\<close>

fun reuse_audited_maps ::
  "upgrade_env \<Rightarrow> path \<Rightarrow> (string \<times> map_id) list \<Rightarrow> (string \<times> map_id) list bpf_act" where
  "reuse_audited_maps env pin_dir [] = ret []"
| "reuse_audited_maps env pin_dir ((name, m) # maps) =
     (if name \<notin> set expected_map_names then fail (UpgradeE (UnsupportedMap name))
      else let (live_path, expected) = wanted_map pin_dir name
        in sbind (lift_res (validate_abi (abi_of env name m) expected)) (\<lambda>_.
           sbind (abi_of_pinned env live_path name) (\<lambda>live.
           sbind (lift_res (validate_abi live expected)) (\<lambda>_.
           sbind (open_map live_path) (\<lambda>reused.
           sbind (reuse_audited_maps env pin_dir maps) (\<lambda>rest. ret ((name, reused) # rest)))))))"

fun require_maps :: "string list \<Rightarrow> (string \<times> 'm) list \<Rightarrow> err + unit" where
  "require_maps [] seen = Inr ()"
| "require_maps (name # names) seen =
     (if name \<notin> fst ` set seen then Inl (UpgradeE (MissingMap name)) else require_maps names seen)"

definition find_map :: "string \<Rightarrow> bpf_object \<Rightarrow> err + map_id" where
  "find_map name obj =
     (case map_of (bo_maps obj) name of None \<Rightarrow> Inl (UpgradeE (MissingMap name)) | Some m \<Rightarrow> Inr m)"

definition load_candidate :: "upgrade_env \<Rightarrow> path \<Rightarrow> path \<Rightarrow> bpf_object bpf_act" where
  "load_candidate env candidate pin_dir =
     (if \<not> ue_is_file env candidate then fail (UpgradeE (NoCandidateFile candidate))
      else sbind (lift_res (ue_open env candidate)) (\<lambda>obj.
        sbind (reuse_audited_maps env pin_dir (bo_maps obj)) (\<lambda>maps.
        sbind (lift_res (require_maps expected_map_names maps)) (\<lambda>_.
        sbind (lift_res (ue_load env (obj\<lparr>bo_maps := maps\<rparr>))) (\<lambda>loaded.
        sbind (lift_res (find_map ''open_ports'' loaded)) (\<lambda>open_ports.
        sbind (lift_res (assert_open_ports_layout (ue_ops env) open_ports)) (\<lambda>_.
        sbind (lift_res (find_map ''redir_socket'' loaded)) (\<lambda>redir.
        sbind (lift_res (assert_redir_socket_layout (ue_ops env) redir)) (\<lambda>_.
          ret loaded)))))))))"

subsection \<open>Checks before and after\<close>

definition health_check :: "upgrade_env \<Rightarrow> path \<Rightarrow> nat \<Rightarrow> unit bpf_act" where
  "health_check env pin_dir window =
     (if ue_fail_health env = Some ''1'' then fail (UpgradeE ForcedHealth)
      else if window > max_health_window then fail (UpgradeE HealthWindow)
      else sbind (gets (link_pinned pin_dir)) (\<lambda>linked.
        if \<not> linked then fail (PinE (PinMissing (sk_lookup_link_path pin_dir)))
        else sbind (open_map (open_ports_path pin_dir)) (\<lambda>open_ports.
          sbind (lift_res (assert_open_ports_layout (ue_ops env) open_ports)) (\<lambda>_.
          sbind (open_map (redir_socket_path pin_dir)) (\<lambda>redir.
          sbind (lift_res (assert_redir_socket_layout (ue_ops env) redir)) (\<lambda>_.
          sbind (open_pinned (prog_path pin_dir)) (\<lambda>_. ret ())))))))"

definition require_live_pins :: "path \<Rightarrow> unit bpf_act" where
  "require_live_pins pin_dir =
     getr (\<lambda>w.
       if \<not> maps_pinned pin_dir w then Inl (UpgradeE (MapsMissing pin_dir))
       else if \<not> link_pinned pin_dir w then Inl (PinE (PinMissing (sk_lookup_link_path pin_dir)))
       else if \<not> pin_exists (prog_path pin_dir) w then Inl (UpgradeE (ProgMissing (prog_path pin_dir)))
       else Inr ())"

subsection \<open>Activation\<close>

definition new_journal :: "path \<Rightarrow> path \<Rightarrow> nat \<Rightarrow> phase \<Rightarrow> string \<Rightarrow> journal" where
  "new_journal pin_dir candidate window ph detail =
     \<lparr>j_schema_version = schema_version, j_phase = ph, j_pin_dir = display_path pin_dir,
      j_candidate = display_path candidate, j_health_window_ms = millis window, j_detail = detail\<rparr>"

definition not_in_progress :: "upgrade_env \<Rightarrow> path \<Rightarrow> unit bpf_act" where
  "not_in_progress env pin_dir =
     sbind (read_journal env pin_dir) (\<lambda>existing.
       case existing of
         None \<Rightarrow> ret ()
       | Some j \<Rightarrow> if terminal (j_phase j) then ret () else fail (UpgradeE NonTerminal))"

text \<open>The candidate loaded; when that fails a journal says so and the failure is returned.\<close>

definition preflight :: "upgrade_env \<Rightarrow> path \<Rightarrow> path \<Rightarrow> nat \<Rightarrow> bpf_object bpf_act" where
  "preflight env pin_dir candidate window =
     on_result (load_candidate env candidate pin_dir)
       (\<lambda>e. sbind (attempt (write_journal env pin_dir
              (new_journal pin_dir candidate window Failed (''preflight failed: '' @ ue_show env e)))) (\<lambda>_.
            fail (Ctx (Doing ''candidate preflight (live link unchanged)'') e)))
       ret"

definition dispatch_prog :: "bpf_object \<Rightarrow> err + prog" where
  "dispatch_prog obj = (case map_of (bo_progs obj) ''dispatch'' of None \<Rightarrow> Inl (UpgradeE NoDispatch) | Some g \<Rightarrow> Inr g)"

text \<open>The program pins change places: live becomes previous, the candidate becomes live.\<close>

definition swap_pins :: "path \<Rightarrow> unit bpf_act" where
  "swap_pins pin_dir =
     sbind (pin_rename (prog_path pin_dir) (prog_previous_path pin_dir)) (\<lambda>_.
       pin_rename (prog_candidate_path pin_dir) (prog_path pin_dir))"

definition undo_swap :: "upgrade_env \<Rightarrow> path \<Rightarrow> nat \<Rightarrow> pinned \<Rightarrow> journal \<Rightarrow> err \<Rightarrow> journal bpf_act" where
  "undo_swap env pin_dir link old_fd j e =
     sbind (attempt (link_update (sk_lookup_link_path pin_dir) link old_fd)) (\<lambda>_.
     sbind (attempt (pin_rename (prog_previous_path pin_dir) (prog_path pin_dir))) (\<lambda>_.
     sbind (attempt (pin_remove (prog_candidate_path pin_dir))) (\<lambda>_.
     sbind (mark env pin_dir j RolledBack (''pin swap failed: '' @ ue_show env e)) (\<lambda>_.
       fail (Ctx (Doing ''swap program pins'') e)))))"

definition undo_health :: "upgrade_env \<Rightarrow> path \<Rightarrow> nat \<Rightarrow> pinned \<Rightarrow> journal \<Rightarrow> err \<Rightarrow> journal bpf_act" where
  "undo_health env pin_dir link old_fd j e =
     sbind (mark env pin_dir j RollingBack (''health failed: '' @ ue_show env e)) (\<lambda>j1.
       let finish = (\<lambda>r.
         sbind (attempt (pin_rename (prog_path pin_dir) (prog_candidate_path pin_dir))) (\<lambda>_.
         sbind (attempt (pin_rename (prog_previous_path pin_dir) (prog_path pin_dir))) (\<lambda>_.
         sbind (attempt (pin_remove (prog_candidate_path pin_dir))) (\<lambda>_.
         sbind (case r of
              Inr () \<Rightarrow> mark env pin_dir j1 RolledBack (''health rollback: '' @ ue_show env e)
            | Inl re \<Rightarrow> mark env pin_dir j1 Failed
                (''health='' @ ue_show env e @ ''; rollback='' @ ue_show env re)) (\<lambda>_.
           fail (Ctx (Doing ''candidate health window'') e))))))
       in on_result (link_update (sk_lookup_link_path pin_dir) link old_fd)
            (\<lambda>re. finish (Inl re)) (\<lambda>_. finish (Inr ())))"

definition promote :: "upgrade_env \<Rightarrow> path \<Rightarrow> nat \<Rightarrow> nat \<Rightarrow> pinned \<Rightarrow> journal \<Rightarrow> journal bpf_act" where
  "promote env pin_dir window link old_fd j =
     sbind (mark env pin_dir j Healthy ''candidate link active; health window running'') (\<lambda>j1.
       on_result (health_check env pin_dir window)
         (undo_health env pin_dir link old_fd j1)
         (\<lambda>_. mark env pin_dir j1 Committed
            ''candidate promoted after health window (prog_previous retained)''))"

definition switch_link :: "upgrade_env \<Rightarrow> path \<Rightarrow> nat \<Rightarrow> nat \<Rightarrow> pinned \<Rightarrow> prog \<Rightarrow> journal \<Rightarrow> journal bpf_act" where
  "switch_link env pin_dir window link old_fd g j =
     sbind (mark env pin_dir j Activating ''updating pinned primary netns link'') (\<lambda>j1.
       on_result (link_update (sk_lookup_link_path pin_dir) link (ProgPin g))
         (\<lambda>e. sbind (attempt (pin_remove (prog_candidate_path pin_dir))) (\<lambda>_.
              sbind (mark env pin_dir j1 Failed (''link update failed: '' @ ue_show env e)) (\<lambda>_.
                fail (Ctx (Doing ''activate candidate link'') e))))
         (\<lambda>_. on_result (swap_pins pin_dir)
            (undo_swap env pin_dir link old_fd j1)
            (\<lambda>_. promote env pin_dir window link old_fd j1)))"

definition pin_candidate :: "upgrade_env \<Rightarrow> path \<Rightarrow> nat \<Rightarrow> pinned \<Rightarrow> prog \<Rightarrow> journal \<Rightarrow> journal bpf_act" where
  "pin_candidate env pin_dir window old_fd g j =
     sbind (attempt (pin_remove (prog_candidate_path pin_dir))) (\<lambda>_.
     sbind (in_context (Doing ''open live link'') (open_link (sk_lookup_link_path pin_dir))) (\<lambda>link.
       on_result (pin_object (prog_candidate_path pin_dir) (ProgPin g))
         (\<lambda>e. sbind (mark env pin_dir j Failed (''candidate pin preflight failed: '' @ ue_show env e)) (\<lambda>_.
                fail (Ctx (Doing ''pin candidate before link update'') e)))
         (\<lambda>_. switch_link env pin_dir window link old_fd g j)))"

definition activate :: "upgrade_env \<Rightarrow> path \<Rightarrow> path \<Rightarrow> nat \<Rightarrow> journal bpf_act" where
  "activate env pin_dir candidate window =
     sbind (not_in_progress env pin_dir) (\<lambda>_.
     sbind (require_live_pins pin_dir) (\<lambda>_.
     sbind (open_pinned (prog_path pin_dir)) (\<lambda>old_fd.
     sbind (preflight env pin_dir candidate window) (\<lambda>obj.
     sbind (lift_res (dispatch_prog obj)) (\<lambda>g.
       let j = new_journal pin_dir candidate window Prepared ''candidate ABI preflight passed''
       in sbind (write_journal env pin_dir j) (\<lambda>_. pin_candidate env pin_dir window old_fd g j))))))"

subsection \<open>Rollback and status\<close>

definition restore_previous :: "upgrade_env \<Rightarrow> path \<Rightarrow> nat \<Rightarrow> pinned \<Rightarrow> journal \<Rightarrow> journal bpf_act" where
  "restore_previous env pin_dir link old_fd j =
     on_result (link_update (sk_lookup_link_path pin_dir) link old_fd)
       (\<lambda>e. sbind (mark env pin_dir j Failed (''explicit rollback bpf_link_update failed: '' @ ue_show env e)) (\<lambda>_.
              fail e))
       (\<lambda>_. sbind (gets (pin_exists (prog_path pin_dir))) (\<lambda>there.
          sbind (if there then attempt (pin_rename (prog_path pin_dir) (prog_candidate_path pin_dir)) else ret ()) (\<lambda>_.
          sbind (in_context (Doing ''restore'') (pin_rename (prog_previous_path pin_dir) (prog_path pin_dir))) (\<lambda>_.
          sbind (attempt (pin_remove (prog_candidate_path pin_dir))) (\<lambda>_.
            mark env pin_dir j RolledBack ''primary link restored to prog_previous'')))))"

definition rollback :: "upgrade_env \<Rightarrow> path \<Rightarrow> journal bpf_act" where
  "rollback env pin_dir =
     sbind (read_journal env pin_dir) (\<lambda>existing.
       let j = (case existing of
             Some j \<Rightarrow> j
           | None \<Rightarrow> \<lparr>j_schema_version = schema_version, j_phase = Prepared, j_pin_dir = display_path pin_dir,
                j_candidate = [], j_health_window_ms = 0, j_detail = ''no journal; explicit rollback''\<rparr>)
       in sbind (gets (pin_exists (prog_previous_path pin_dir))) (\<lambda>have_previous.
         if \<not> have_previous then
           sbind (attempt (pin_remove (prog_candidate_path pin_dir))) (\<lambda>_.
             mark env pin_dir j RolledBack ''no prog_previous; candidate pin cleared (live link unchanged)'')
         else sbind (gets (link_pinned pin_dir)) (\<lambda>linked.
           if \<not> linked then fail (PinE (PinMissing (sk_lookup_link_path pin_dir)))
           else sbind (mark env pin_dir j RollingBack ''explicit rollback to prog_previous'') (\<lambda>j1.
             sbind (open_pinned (prog_previous_path pin_dir)) (\<lambda>old_fd.
             sbind (open_link (sk_lookup_link_path pin_dir)) (\<lambda>link.
               restore_previous env pin_dir link old_fd j1))))))"

record upgrade_report =
  ur_pin_dir :: string
  ur_primary_link :: bool
  ur_backup_link :: bool
  ur_maps :: bool
  ur_prog :: bool
  ur_prog_previous :: bool
  ur_journal :: "journal option"
  ur_abi :: "nat \<times> nat \<times> nat"

definition upgrade_status :: "upgrade_env \<Rightarrow> path \<Rightarrow> upgrade_report bpf_act" where
  "upgrade_status env pin_dir =
     sbind (read_journal env pin_dir) (\<lambda>j. gets (\<lambda>w.
       \<lparr>ur_pin_dir = display_path pin_dir, ur_primary_link = link_pinned pin_dir w,
        ur_backup_link = backup_link_pinned pin_dir w, ur_maps = maps_pinned pin_dir w,
        ur_prog = pin_exists (prog_path pin_dir) w, ur_prog_previous = pin_exists (prog_previous_path pin_dir) w,
        ur_journal = j, ur_abi = (open_ports_key_size, open_ports_value_size, redir_socket_max_entries)\<rparr>))"

end
