(* ===== verification/Upgrade_Safe.thy ===== *)
theory Upgrade_Safe
  imports Upgrade
begin

text \<open>
  What an upgrade and a rollback can change, at every point where a step fails or the process is
  killed: the three program pins, the journal and its temporary file, and the program of the primary
  link, which always runs one of a known set of programs.
\<close>

definition prog_pins :: "path \<Rightarrow> path set" where
  "prog_pins dir = {prog_path dir, prog_previous_path dir, prog_candidate_path dir}"

definition journal_files :: "upgrade_env \<Rightarrow> path \<Rightarrow> path set" where
  "journal_files env dir =
     {resolve (journal_path env dir), resolve (with_extension (journal_path env dir) ''json.tmp'')}"

text \<open>
  \<open>t\<close> differs from \<open>w\<close> at most there, and a link whose program changed is the primary link, was
  attached before, and runs one of the programs \<open>G\<close>.
\<close>

definition only_switches :: "upgrade_env \<Rightarrow> path \<Rightarrow> prog set \<Rightarrow> bpf_world \<Rightarrow> bpf_world \<Rightarrow> bool" where
  "only_switches env dir G w t \<longleftrightarrow>
     (\<forall>p. p \<notin> prog_pins dir \<longrightarrow> bw_pins t p = bw_pins w p) \<and>
     (\<forall>q. q \<notin> journal_files env dir \<longrightarrow> bw_files t q = bw_files w q) \<and>
     (\<forall>i. bw_links t i \<noteq> bw_links w i \<longrightarrow>
        bw_pins w (sk_lookup_link_path dir) = Some (LinkPin i) \<and> bw_links w i \<noteq> None \<and>
        (\<exists>g \<in> G. bw_links t i = Some g))"

text \<open>Nothing changed yet but the journal.\<close>

definition untouched :: "upgrade_env \<Rightarrow> path \<Rightarrow> bpf_world \<Rightarrow> bpf_world \<Rightarrow> bool" where
  "untouched env dir w t \<longleftrightarrow> bw_pins t = bw_pins w \<and> bw_links t = bw_links w \<and>
     (\<forall>q. q \<notin> journal_files env dir \<longrightarrow> bw_files t q = bw_files w q)"

lemma untouched_switches: "untouched env dir w t \<Longrightarrow> only_switches env dir G w t"
  by (simp add: untouched_def only_switches_def)

lemma untouched_refl [simp]: "untouched env dir w w"
  by (simp add: untouched_def)

lemma timeless_frames [simp]: "timeless (only_switches env dir G w)" "timeless (untouched env dir w)"
  by (simp_all add: timeless_def only_switches_def untouched_def)

lemma link_not_prog [simp]:
  "sk_lookup_link_path dir \<notin> prog_pins dir" "open_ports_path dir \<notin> prog_pins dir"
  "redir_socket_path dir \<notin> prog_pins dir" "sk_lookup_backup_link_path dir \<notin> prog_pins dir"
  by (simp_all add: prog_pins_def sk_lookup_link_path_def open_ports_path_def redir_socket_path_def
      sk_lookup_backup_link_path_def prog_path_def prog_previous_path_def prog_candidate_path_def)

lemma prog_in_pins [simp]:
  "prog_path dir \<in> prog_pins dir" "prog_previous_path dir \<in> prog_pins dir" "prog_candidate_path dir \<in> prog_pins dir"
  by (simp_all add: prog_pins_def)

subsection \<open>Steps\<close>

named_theorems step_keeps \<open>what the system calls of an upgrade keep\<close>

lemma keeps_open [step_keeps]:
  "timeless I \<Longrightarrow> keeps I (open_pinned p) (\<lambda>_. True)"
  "timeless I \<Longrightarrow> keeps I (open_map p) (\<lambda>_. True)"
  by (auto simp: open_pinned_def open_map_def intro!: keeps_sys split: option.splits pinned.splits)

lemma keeps_open_link [step_keeps]:
  "keeps (only_switches env dir G w) (open_link (sk_lookup_link_path dir))
     (\<lambda>i. bw_pins w (sk_lookup_link_path dir) = Some (LinkPin i))"
  by (auto simp: open_link_def only_switches_def intro!: keeps_sys split: option.splits pinned.splits)

lemma keeps_pin_step [step_keeps]:
  "p \<in> prog_pins dir \<Longrightarrow> keeps (only_switches env dir G w) (pin_remove p) (\<lambda>_. True)"
  "p \<in> prog_pins dir \<Longrightarrow> q \<in> prog_pins dir \<Longrightarrow> keeps (only_switches env dir G w) (pin_rename p q) (\<lambda>_. True)"
  "p \<in> prog_pins dir \<Longrightarrow> keeps (only_switches env dir G w) (pin_object p x) (\<lambda>_. True)"
  by (auto simp: pin_remove_def pin_rename_def pin_object_def intro!: keeps_sys split: option.splits if_splits)
    (auto simp: only_switches_def)

lemma keeps_link_update [step_keeps]:
  assumes "bw_pins w (sk_lookup_link_path dir) = Some (LinkPin i)" "\<And>g. x = ProgPin g \<Longrightarrow> g \<in> G"
  shows "keeps (only_switches env dir G w) (link_update p i x) (\<lambda>_. True)"
  unfolding link_update_def
proof (rule keeps_sys)
  fix u y t
  assume I: "only_switches env dir G w u"
    and "(case (bw_links u i, x) of
       (Some _, ProgPin g) \<Rightarrow> Inr ((), u\<lparr>bw_links := (bw_links u)(i := Some g)\<rparr>)
     | _ \<Rightarrow> Inl (IoE (IoFault p))) = Inr (y, t)"
  then obtain g where "x = ProgPin g" "bw_links u i \<noteq> None" "t = u\<lparr>bw_links := (bw_links u)(i := Some g)\<rparr>"
    by (auto split: option.splits pinned.splits)
  moreover have "bw_links w i \<noteq> None" using I calculation(2) by (metis only_switches_def)
  ultimately show "only_switches env dir G w t \<and> True" using I assms by (auto simp: only_switches_def)
qed simp

text \<open>The journal is rewritten through its temporary file.\<close>

definition journal_stable :: "upgrade_env \<Rightarrow> path \<Rightarrow> (bpf_world \<Rightarrow> bool) \<Rightarrow> bool" where
  "journal_stable env dir I \<longleftrightarrow> timeless I \<and>
     (\<forall>w fs. I w \<longrightarrow> (\<forall>q. q \<notin> journal_files env dir \<longrightarrow> fs q = bw_files w q) \<longrightarrow> I (w\<lparr>bw_files := fs\<rparr>))"

lemma journal_stable_frames [simp]:
  "journal_stable env dir (only_switches env dir G w)" "journal_stable env dir (untouched env dir w)"
  by (auto simp: journal_stable_def only_switches_def untouched_def timeless_def)

lemma journal_stable_timeless [simp]: "journal_stable env dir I \<Longrightarrow> timeless I"
  by (simp add: journal_stable_def)

lemma keeps_file_step:
  assumes "journal_stable env dir I"
    and "\<And>m n q. step_files st m = Some n \<Longrightarrow> q \<notin> journal_files env dir \<Longrightarrow> n q = m q"
  shows "keeps I (file_step st) (\<lambda>_. True)"
  unfolding file_step_def
proof (rule keeps_sys)
  show "timeless I" using assms(1) by simp
next
  fix w x t
  assume I: "I w" and "(case step_files st (bw_files w) of
       None \<Rightarrow> Inl (IoE (NotFound (step_path st)))
     | Some fs \<Rightarrow> Inr ((), w\<lparr>bw_files := fs\<rparr>)) = Inr (x, t)"
  then obtain fs where "step_files st (bw_files w) = Some fs" "t = w\<lparr>bw_files := fs\<rparr>"
    by (auto split: option.splits)
  then show "I t \<and> True" using I assms by (auto simp: journal_stable_def)
qed

lemma keeps_journal [step_keeps]:
  assumes "journal_stable env dir I"
  shows "keeps I (write_journal env dir j) (\<lambda>_. True)" "keeps I (mark env dir j ph d) (\<lambda>_. True)"
    "keeps I (read_journal env dir) (\<lambda>_. True)"
proof -
  have steps: "keeps I (file_steps sts) (\<lambda>_. True)"
    if "set sts \<subseteq> set (journal_steps d (journal_path env dir) ys)" for sts d ys
    using that
  proof (induction sts)
    case (Cons st sts)
    have "keeps I (file_step st) (\<lambda>_. True)"
      using Cons.prems
      by (intro keeps_file_step [OF assms])
        (auto simp: journal_steps_def journal_files_def Let_def split: option.splits)
    then show ?case using Cons by (auto intro!: triple_rules)
  qed (auto intro!: triple_rules)
  show wr: "keeps I (write_journal env dir j) (\<lambda>_. True)" for j
    by (auto simp: write_journal_def write_journal_at_def intro!: triple_rules steps [OF subset_refl])
  show "keeps I (mark env dir j ph d) (\<lambda>_. True)"
    by (auto simp: mark_def Let_def intro!: triple_rules wr)
  show "keeps I (read_journal env dir) (\<lambda>_. True)"
    using assms by (auto simp: read_journal_def read_journal_at_def intro!: keeps_sys split: option.splits)
qed

subsection \<open>The operations\<close>

lemma keeps_load_candidate [step_keeps]:
  assumes "timeless I"
  shows "keeps I (load_candidate env candidate dir)
     (\<lambda>obj. \<exists>o1 maps. ue_open env candidate = Inr o1 \<and> ue_load env (o1\<lparr>bo_maps := maps\<rparr>) = Inr obj)"
proof -
  have maps: "keeps I (reuse_audited_maps env dir maps) (\<lambda>_. True)" for maps
    by (induction maps)
      (auto simp: abi_of_pinned_def wanted_map_def Let_def intro!: triple_rules step_keeps assms)
  have "keeps I (sbind (reuse_audited_maps env dir (bo_maps o1)) (\<lambda>maps.
        sbind (lift_res (require_maps expected_map_names maps)) (\<lambda>_.
        sbind (lift_res (ue_load env (o1\<lparr>bo_maps := maps\<rparr>))) (\<lambda>loaded.
        sbind (lift_res (find_map ''open_ports'' loaded)) (\<lambda>open_ports.
        sbind (lift_res (assert_open_ports_layout (ue_ops env) open_ports)) (\<lambda>_.
        sbind (lift_res (find_map ''redir_socket'' loaded)) (\<lambda>redir.
        sbind (lift_res (assert_redir_socket_layout (ue_ops env) redir)) (\<lambda>_.
          ret loaded))))))))
     (\<lambda>obj. \<exists>maps. ue_load env (o1\<lparr>bo_maps := maps\<rparr>) = Inr obj)" for o1
    by (rule keeps_sbind_any [OF maps], rule keeps_sbind_any, rule keeps_pure, simp,
        rule keeps_sbind [OF keeps_pure(4) [where Q'' = "\<lambda>x. \<exists>maps. ue_load env (o1\<lparr>bo_maps := maps\<rparr>) = Inr x"]])
      (auto intro!: triple_rules)
  then show ?thesis
    unfolding load_candidate_def
    by (intro keeps_if keeps_pure keeps_sbind [OF keeps_pure(4) [where Q'' = "\<lambda>x. ue_open env candidate = Inr x"]])
      (auto elim: keeps_weaken)
qed

text \<open>The programs a candidate may bring: those of its object, whatever maps are put in place.\<close>

definition candidate_progs :: "upgrade_env \<Rightarrow> path \<Rightarrow> prog set" where
  "candidate_progs env candidate =
     {g. \<exists>o1 maps obj. ue_open env candidate = Inr o1 \<and> ue_load env (o1\<lparr>bo_maps := maps\<rparr>) = Inr obj \<and>
           dispatch_prog obj = Inr g}"

definition pinned_progs :: "path \<Rightarrow> bpf_world \<Rightarrow> prog set" where
  "pinned_progs p w = {g. bw_pins w p = Some (ProgPin g)}"

lemma keeps_health_check [step_keeps]: "timeless I \<Longrightarrow> keeps I (health_check env dir window) (\<lambda>_. True)"
  by (auto simp: health_check_def intro!: triple_rules step_keeps)

lemma keeps_switch_link:
  assumes link: "bw_pins w (sk_lookup_link_path dir) = Some (LinkPin i)"
    and G: "\<And>h. old_fd = ProgPin h \<Longrightarrow> h \<in> G" "g \<in> G"
  shows "keeps (only_switches env dir G w) (switch_link env dir window i old_fd g j) (\<lambda>_. True)"
  using assms
  by (auto simp: switch_link_def swap_pins_def undo_swap_def promote_def undo_health_def Let_def
      intro!: triple_rules step_keeps split: unit.splits)

lemma keeps_pin_candidate:
  assumes G: "\<And>h. old_fd = ProgPin h \<Longrightarrow> h \<in> G" "g \<in> G"
  shows "keeps (only_switches env dir G w) (pin_candidate env dir window old_fd g j) (\<lambda>_. True)"
  unfolding pin_candidate_def
  by (intro keeps_sbind_any [of _ "attempt m" for m] keeps_sbind [OF keeps_in_context [OF keeps_open_link]]
      keeps_on_result_any triple_rules step_keeps keeps_switch_link) (use assms in auto)

lemma activate_switches:
  "activate env dir candidate window w = (r, t) \<Longrightarrow>
     only_switches env dir (pinned_progs (prog_path dir) w \<union> candidate_progs env candidate) w t"
proof (rule triple_end [where P = "untouched env dir w"])
  show "triple (untouched env dir w) (activate env dir candidate window)
     (\<lambda>_. only_switches env dir (pinned_progs (prog_path dir) w \<union> candidate_progs env candidate) w)
     (only_switches env dir (pinned_progs (prog_path dir) w \<union> candidate_progs env candidate) w)"
    unfolding activate_def Let_def
  proof (intro keeps_then untouched_switches)
    show "keeps (untouched env dir w) (not_in_progress env dir) (\<lambda>_. True)"
      by (auto simp: not_in_progress_def intro!: triple_rules step_keeps)
    show "keeps (untouched env dir w) (require_live_pins dir) (\<lambda>_. True)"
      by (auto simp: require_live_pins_def getr_def intro!: keepsI)
    show "keeps (untouched env dir w) (open_pinned (prog_path dir)) (\<lambda>x. bw_pins w (prog_path dir) = Some x)"
      by (auto simp: open_pinned_def untouched_def intro!: keeps_sys split: option.splits)
    show "keeps (untouched env dir w) (preflight env dir candidate window)
       (\<lambda>obj. \<exists>o1 maps. ue_open env candidate = Inr o1 \<and> ue_load env (o1\<lparr>bo_maps := maps\<rparr>) = Inr obj)"
      unfolding preflight_def
      by (rule keeps_on_result [OF keeps_load_candidate]) (auto intro!: triple_rules step_keeps)
    show "keeps (untouched env dir w) (lift_res (dispatch_prog obj)) (\<lambda>g. dispatch_prog obj = Inr g)" for obj
      by (rule keeps_pure)
    show "keeps (untouched env dir w) (write_journal env dir j) (\<lambda>_. True)" for j
      by (intro step_keeps) simp
  next
    fix old_fd obj g j
    assume "bw_pins w (prog_path dir) = Some old_fd"
      "\<exists>o1 maps. ue_open env candidate = Inr o1 \<and> ue_load env (o1\<lparr>bo_maps := maps\<rparr>) = Inr obj"
      "dispatch_prog obj = Inr g"
    then show "triple (untouched env dir w) (pin_candidate env dir window old_fd g j)
       (\<lambda>_. only_switches env dir (pinned_progs (prog_path dir) w \<union> candidate_progs env candidate) w)
       (only_switches env dir (pinned_progs (prog_path dir) w \<union> candidate_progs env candidate) w)"
      by (intro keeps_end [OF keeps_pin_candidate])
        (auto simp: pinned_progs_def candidate_progs_def intro: untouched_switches)
  qed
qed simp_all

lemma keeps_restore_previous:
  assumes "bw_pins w (sk_lookup_link_path dir) = Some (LinkPin i)" "\<And>h. old_fd = ProgPin h \<Longrightarrow> h \<in> G"
  shows "keeps (only_switches env dir G w) (restore_previous env dir i old_fd j) (\<lambda>_. True)"
  using assms by (auto simp: restore_previous_def intro!: triple_rules step_keeps)

lemma rollback_switches:
  "rollback env dir w = (r, t) \<Longrightarrow> only_switches env dir (pinned_progs (prog_previous_path dir) w) w t"
proof (rule triple_end [where P = "untouched env dir w"])
  let ?J = "only_switches env dir (pinned_progs (prog_previous_path dir) w) w"
  have clear: "keeps ?J (sbind (attempt (pin_remove (prog_candidate_path dir))) (\<lambda>_. mark env dir j ph d)) (\<lambda>_. True)"
    for j ph d
    by (auto intro!: triple_rules step_keeps)
  have link: "keeps ?J (sbind (open_link (sk_lookup_link_path dir)) (\<lambda>link. restore_previous env dir link old_fd j))
      (\<lambda>_. True)"
    if "bw_pins w (prog_previous_path dir) = Some old_fd" for old_fd j
    by (rule keeps_sbind [OF keeps_open_link keeps_restore_previous]) (use that in \<open>auto simp: pinned_progs_def\<close>)
  have mk: "keeps (untouched env dir w) (mark env dir j ph d) (\<lambda>_. True)" for j ph d
    by (intro step_keeps) simp
  have op: "keeps (untouched env dir w) (open_pinned (prog_previous_path dir))
      (\<lambda>x. bw_pins w (prog_previous_path dir) = Some x)"
    by (auto simp: open_pinned_def untouched_def intro!: keeps_sys split: option.splits)
  have prev: "triple (untouched env dir w) (sbind (mark env dir j ph d) (\<lambda>j1.
      sbind (open_pinned (prog_previous_path dir)) (\<lambda>old_fd.
      sbind (open_link (sk_lookup_link_path dir)) (\<lambda>link. restore_previous env dir link old_fd j1))))
      (\<lambda>_. ?J) ?J" for j ph d
    by (rule keeps_then [OF mk keeps_then [OF op keeps_end [OF link]]]) (auto intro: untouched_switches)
  have unlinked: "triple (untouched env dir w) (fail e :: journal bpf_act) (\<lambda>_. ?J) ?J" for e
    by (auto simp: fail_def intro!: tripleI untouched_switches)
  show "triple (untouched env dir w) (rollback env dir) (\<lambda>_. ?J) ?J"
    unfolding rollback_def Let_def
    by (rule keeps_then [where R = "\<lambda>_. True"], intro step_keeps, simp,
        rule keeps_then [where R = "\<lambda>_. True", OF keeps_pure(3)], rule TrueI, rule triple_if,
        rule keeps_end [OF clear], erule untouched_switches,
        rule keeps_then [where R = "\<lambda>_. True", OF keeps_pure(3)], rule TrueI, rule triple_if,
        rule unlinked, rule prev, (erule untouched_switches)+)
qed simp_all

end
