(* ===== verification/Load.thy ===== *)
theory Load
  imports Upgrade_Safe Cli
begin

text \<open>
  \<open>rust/loader/src/load.rs\<close>: loading the C or the Rust object with the pinned maps in place,
  attaching the backup link once, attaching or updating the primary link, pinning the program; and
  the two writes to the maps of a running loader. What the object loader answers is a record of
  parameters. A link whose pin fails is dropped, which detaches it.
\<close>

subsection \<open>Loaded objects\<close>

record skel =
  sk_open_ports :: map_id
  sk_redir_socket :: map_id
  sk_dispatch :: prog

datatype loaded_bpf = LoadedC skel | LoadedRust bpf_object

record load_env =
  le_ops :: "map_id kops"
  le_skel :: "err + skel"
  le_load_skel :: "skel \<Rightarrow> err + skel"
  le_rust_path :: path
  le_is_file :: "path \<Rightarrow> bool"
  le_open :: "path \<Rightarrow> err + bpf_object"
  le_load :: "bpf_object \<Rightarrow> err + bpf_object"

definition with_maps :: "loaded_bpf \<Rightarrow> (map_id \<Rightarrow> map_id \<Rightarrow> err + 'a) \<Rightarrow> err + 'a" where
  "with_maps bpf f =
     (case bpf of
        LoadedC sk \<Rightarrow> f (sk_open_ports sk) (sk_redir_socket sk)
      | LoadedRust obj \<Rightarrow>
          rbind (find_map ''open_ports'' obj) (\<lambda>open_ports.
          rbind (find_map ''redir_socket'' obj) (\<lambda>redir_socket. f open_ports redir_socket)))"

definition with_open_ports :: "loaded_bpf \<Rightarrow> (map_id \<Rightarrow> err + 'a) \<Rightarrow> err + 'a" where
  "with_open_ports bpf f = with_maps bpf (\<lambda>open_ports _. f open_ports)"

definition with_dispatch_prog :: "loaded_bpf \<Rightarrow> err + prog" where
  "with_dispatch_prog bpf = (case bpf of LoadedC sk \<Rightarrow> Inr (sk_dispatch sk) | LoadedRust obj \<Rightarrow> dispatch_prog obj)"

definition attach_dispatch :: "loaded_bpf \<Rightarrow> nat bpf_act" where
  "attach_dispatch bpf =
     (case bpf of
        LoadedC sk \<Rightarrow> in_context (Doing ''attach sk_lookup'') (attach_netns (sk_dispatch sk))
      | LoadedRust obj \<Rightarrow> sbind (lift_res (dispatch_prog obj)) (\<lambda>g.
          in_context (Doing ''attach Rust sk_lookup'') (attach_netns g)))"

subsection \<open>Loading\<close>

definition reuse_or :: "path \<Rightarrow> map_id \<Rightarrow> map_id bpf_act" where
  "reuse_or p m = sbind (gets (pin_exists p)) (\<lambda>there.
     if there then in_context (Doing ''reuse pinned map'') (open_map p) else ret m)"

fun reuse_pinned_maps_if_present :: "path \<Rightarrow> (string \<times> map_id) list \<Rightarrow> (string \<times> map_id) list bpf_act" where
  "reuse_pinned_maps_if_present pin_dir [] = ret []"
| "reuse_pinned_maps_if_present pin_dir ((name, m) # maps) =
     sbind (if name = ''open_ports'' then reuse_or (open_ports_path pin_dir) m
            else if name = ''redir_socket'' then reuse_or (redir_socket_path pin_dir) m
            else ret m) (\<lambda>m1.
     sbind (reuse_pinned_maps_if_present pin_dir maps) (\<lambda>rest. ret ((name, m1) # rest)))"

definition load_c :: "load_env \<Rightarrow> path \<Rightarrow> loaded_bpf bpf_act" where
  "load_c env pin_dir =
     sbind (lift_res (with_context (Doing ''open BPF object'') (le_skel env))) (\<lambda>sk.
     sbind (reuse_or (open_ports_path pin_dir) (sk_open_ports sk)) (\<lambda>open_ports.
     sbind (reuse_or (redir_socket_path pin_dir) (sk_redir_socket sk)) (\<lambda>redir_socket.
     sbind (lift_res (le_load_skel env
         (sk\<lparr>sk_open_ports := open_ports, sk_redir_socket := redir_socket\<rparr>))) (\<lambda>loaded.
     sbind (lift_res (assert_open_ports_max_entries (le_ops env) (sk_open_ports loaded))) (\<lambda>_.
       ret (LoadedC loaded))))))"

definition load_rust :: "load_env \<Rightarrow> path \<Rightarrow> loaded_bpf bpf_act" where
  "load_rust env pin_dir =
     (if \<not> le_is_file env (le_rust_path env) then fail (UpgradeE (NoCandidateFile (le_rust_path env)))
      else sbind (lift_res (with_context (Doing ''open Rust BPF object'') (le_open env (le_rust_path env)))) (\<lambda>obj.
        sbind (reuse_pinned_maps_if_present pin_dir (bo_maps obj)) (\<lambda>maps.
        sbind (lift_res (le_load env (obj\<lparr>bo_maps := maps\<rparr>))) (\<lambda>loaded.
        sbind (lift_res (find_map ''open_ports'' loaded)) (\<lambda>open_ports.
        sbind (lift_res (assert_open_ports_max_entries (le_ops env) open_ports)) (\<lambda>_.
          ret (LoadedRust loaded)))))))"

subsection \<open>Attaching\<close>

definition open_netns :: "unit bpf_act" where
  "open_netns = sys [''/'', ''proc'', ''self'', ''ns'', ''net''] (\<lambda>w. Inr ((), w))"

definition attach_and_pin :: "loaded_bpf \<Rightarrow> path \<Rightarrow> unit bpf_act" where
  "attach_and_pin bpf p =
     sbind (in_context (Doing ''open netns'') open_netns) (\<lambda>_.
     sbind (attach_dispatch bpf) (\<lambda>link.
       on_result (pin_object p (LinkPin link))
         (\<lambda>e. sbind (attempt (link_detach p link)) (\<lambda>_. fail (Ctx (Doing ''pin sk_lookup link'') e)))
         ret))"

definition ensure_backup_sk_lookup :: "loaded_bpf \<Rightarrow> path \<Rightarrow> unit bpf_act" where
  "ensure_backup_sk_lookup bpf pin_dir =
     sbind (gets (pin_exists (sk_lookup_backup_link_path pin_dir))) (\<lambda>there.
       if there then ret () else attach_and_pin bpf (sk_lookup_backup_link_path pin_dir))"

definition attach_or_upgrade_sk_lookup :: "loaded_bpf \<Rightarrow> path \<Rightarrow> unit bpf_act" where
  "attach_or_upgrade_sk_lookup bpf pin_dir =
     (let link_path = sk_lookup_link_path pin_dir in
      sbind (gets (pin_exists link_path)) (\<lambda>there.
        if there then
          sbind (in_context (Doing ''open pinned sk_lookup link'') (open_link link_path)) (\<lambda>link.
          sbind (lift_res (with_dispatch_prog bpf)) (\<lambda>g.
            in_context (Doing ''bpf_link_update'') (link_update link_path link (ProgPin g))))
        else attach_and_pin bpf link_path))"

definition pin_dispatch_prog :: "loaded_bpf \<Rightarrow> path \<Rightarrow> unit bpf_act" where
  "pin_dispatch_prog bpf pin_dir =
     sbind (gets (pin_exists (prog_path pin_dir))) (\<lambda>there.
       if there then ret ()
       else sbind (lift_res (with_dispatch_prog bpf)) (\<lambda>g. pin_object (prog_path pin_dir) (ProgPin g)))"

definition load_and_attach :: "load_env \<Rightarrow> bpf_impl \<Rightarrow> path \<Rightarrow> loaded_bpf bpf_act" where
  "load_and_attach env implementation pin_dir =
     sbind (case implementation of BpfC \<Rightarrow> load_c env pin_dir | BpfRust \<Rightarrow> load_rust env pin_dir) (\<lambda>bpf.
     sbind (file_step (Mkdir pin_dir)) (\<lambda>_.
     sbind (ensure_backup_sk_lookup bpf pin_dir) (\<lambda>_.
     sbind (attach_or_upgrade_sk_lookup bpf pin_dir) (\<lambda>_.
     sbind (pin_dispatch_prog bpf pin_dir) (\<lambda>_. ret bpf)))))"

text \<open>The maps of the loaded object, for \<open>ensure_maps_pinned\<close>; a failure is fatal or a warning.\<close>

definition loaded_map :: "string \<Rightarrow> loaded_bpf \<Rightarrow> map_id option" where
  "loaded_map name bpf =
     (case bpf of
        LoadedC sk \<Rightarrow> Some (if name = ''open_ports'' then sk_open_ports sk else sk_redir_socket sk)
      | LoadedRust obj \<Rightarrow> map_of (bo_maps obj) name)"

definition pin_or_warn :: "loaded_bpf \<Rightarrow> path \<Rightarrow> bool \<Rightarrow> bool bpf_act" where
  "pin_or_warn bpf pin_dir fatal =
     on_result (ensure_maps_pinned pin_dir (loaded_map ''open_ports'' bpf) (loaded_map ''redir_socket'' bpf))
       (\<lambda>e. if fatal then fail (Ctx (Doing ''pin maps (M2/M3 need the pin)'') e) else ret False)
       (\<lambda>_. ret True)"

subsection \<open>Writing to the maps\<close>

text \<open>The bytes of an integer in the machine's order.\<close>

definition ne_bytes :: "bool \<Rightarrow> nat \<Rightarrow> 'a::len word \<Rightarrow> bytes" where
  "ne_bytes le n x = (let bs = map (\<lambda>k. ucast (drop_bit (8 * k) x)) [0..<n] in if le then bs else rev bs)"

definition register_listen_fd :: "'m kops \<Rightarrow> 32 word \<Rightarrow> u32 \<Rightarrow> ('m, unit) act" where
  "register_listen_fd ops fd slot redir =
     (if slot > 1 then (Inl (UpgradeE (SlotRange slot)), redir)
      else let key = ne_bytes (k_le ops) 4 slot;
               vsz = k_value_size ops redir;
               fd_bytes = ne_bytes (k_le ops) 8 (scast fd :: u64);
               n = min vsz (length fd_bytes);
               val = take n fd_bytes @ replicate (vsz - n) 0
        in (case k_update ops key val redir of
              (Inl e, m) \<Rightarrow> (Inl (Ctx (Doing ''sockmap put slot'') (KernE e)), m)
            | (Inr _, m) \<Rightarrow> (Inr (), m)))"

fun open_steered_ports :: "'m kops \<Rightarrow> port list \<Rightarrow> slot \<Rightarrow> ('m, unit) act" where
  "open_steered_ports ops [] slot m = (Inr (), m)"
| "open_steered_ports ops (p # ps) slot m =
     (case k_update ops (port_key_bytes ops m p) (slot_value_bytes ops m slot) m of
        (Inl e, n) \<Rightarrow> (Inl (Ctx (InPut p) (KernE e)), n)
      | (Inr _, n) \<Rightarrow> open_steered_ports ops ps slot n)"

end
