(* ===== verification/Load_Facts.thy ===== *)
theory Load_Facts
  imports Load
begin

text \<open>
  What a start of the loader does to the pins and links, at every point where a step fails or the
  process is killed, and what a successful start leaves.
\<close>

text \<open>
  Pins are added under three names and never moved or removed; links attached before keep their
  program, except that the pinned primary link may get another; new links are pinned as such.
\<close>

definition boots :: "path \<Rightarrow> bpf_world \<Rightarrow> bpf_world \<Rightarrow> bool" where
  "boots dir w t \<longleftrightarrow>
     (\<forall>p. bw_pins w p \<noteq> None \<longrightarrow> bw_pins t p = bw_pins w p) \<and>
     (\<forall>p. p \<notin> {sk_lookup_link_path dir, sk_lookup_backup_link_path dir, prog_path dir} \<longrightarrow> bw_pins t p = bw_pins w p) \<and>
     (\<forall>p i. bw_pins w p = None \<longrightarrow> bw_pins t p = Some (LinkPin i) \<longrightarrow> bw_fresh w \<le> i) \<and>
     bw_fresh w \<le> bw_fresh t \<and>
     (\<forall>i. i < bw_fresh w \<longrightarrow> bw_pins w (sk_lookup_link_path dir) \<noteq> Some (LinkPin i) \<longrightarrow> bw_links t i = bw_links w i) \<and>
     (\<forall>i. i < bw_fresh w \<longrightarrow> bw_links w i \<noteq> None \<longrightarrow> bw_links t i \<noteq> None)"

lemma boots_refl [simp]: "boots dir w w"
  by (simp add: boots_def)

lemma timeless_boots [simp]: "timeless (boots dir w)"
  by (simp add: timeless_def boots_def)

named_theorems boot_keeps \<open>what the steps of a start keep\<close>

lemma keeps_pure_sys [boot_keeps]:
  "timeless I \<Longrightarrow> keeps I (open_map p) (\<lambda>_. True)" "timeless I \<Longrightarrow> keeps I (open_link p) (\<lambda>_. True)"
  "timeless I \<Longrightarrow> keeps I open_netns (\<lambda>_. True)"
  by (auto simp: open_map_def open_link_def open_netns_def intro!: keeps_sys split: option.splits pinned.splits)

lemma keeps_reuse_or [boot_keeps]: "timeless I \<Longrightarrow> keeps I (reuse_or p m) (\<lambda>_. True)"
  by (auto simp: reuse_or_def intro!: triple_rules boot_keeps)

lemma keeps_reuse_maps [boot_keeps]: "timeless I \<Longrightarrow> keeps I (reuse_pinned_maps_if_present dir maps) (\<lambda>_. True)"
  by (induction maps) (auto intro!: triple_rules boot_keeps)

lemma keeps_load [boot_keeps]:
  "timeless I \<Longrightarrow> keeps I (load_c env dir) (\<lambda>_. True)" "timeless I \<Longrightarrow> keeps I (load_rust env dir) (\<lambda>_. True)"
  by (auto simp: load_c_def load_rust_def intro!: triple_rules boot_keeps)

lemma keeps_mkdir [boot_keeps]:
  "(\<And>w fs. I w \<Longrightarrow> I (w\<lparr>bw_files := fs\<rparr>)) \<Longrightarrow> timeless I \<Longrightarrow> keeps I (file_step st) (\<lambda>_. True)"
  by (auto simp: file_step_def intro!: keeps_sys split: option.splits)

lemma boots_files [simp]: "boots dir w t \<Longrightarrow> boots dir w (t\<lparr>bw_files := fs\<rparr>)"
  by (simp add: boots_def)

lemma keeps_attach_dispatch:
  "keeps (boots dir w) (attach_dispatch bpf) (\<lambda>i. bw_fresh w \<le> i)"
proof -
  have "keeps (boots dir w) (attach_netns g) (\<lambda>i. bw_fresh w \<le> i)" for g
    unfolding attach_netns_def by (rule keeps_sys) (auto simp: boots_def)
  then show ?thesis
    by (auto simp: attach_dispatch_def intro!: triple_rules split: loaded_bpf.splits)
qed

lemma keeps_pin_link:
  assumes "p \<in> {sk_lookup_link_path dir, sk_lookup_backup_link_path dir}" "bw_fresh w \<le> i"
  shows "keeps (boots dir w) (pin_object p (LinkPin i)) (\<lambda>_. True)"
  unfolding pin_object_def
  by (rule keeps_sys) (use assms in \<open>auto simp: boots_def split: if_splits\<close>)

lemma keeps_drop_link: "bw_fresh w \<le> i \<Longrightarrow> keeps (boots dir w) (link_detach p i) (\<lambda>_. True)"
  unfolding link_detach_def by (rule keeps_sys) (auto simp: boots_def)

lemma keeps_attach_and_pin [boot_keeps]:
  assumes "p \<in> {sk_lookup_link_path dir, sk_lookup_backup_link_path dir}"
  shows "keeps (boots dir w) (attach_and_pin bpf p) (\<lambda>_. True)"
proof -
  have "keeps (boots dir w) (on_result (pin_object p (LinkPin i))
         (\<lambda>e. sbind (attempt (link_detach p i)) (\<lambda>_. fail (Ctx (Doing ''pin sk_lookup link'') e))) ret) (\<lambda>_. True)"
    if "bw_fresh w \<le> i" for i
    using that by (intro keeps_on_result_any keeps_pin_link [OF assms] keeps_sbind_any keeps_attempt keeps_drop_link keeps_pure) simp_all
  then show ?thesis
    unfolding attach_and_pin_def
    by (intro keeps_sbind_any [of _ "in_context c m" for c m] keeps_sbind [OF keeps_attach_dispatch] keeps_in_context
        boot_keeps(3)) simp_all
qed

lemma keeps_update_primary:
  "keeps (boots dir w) (sbind (in_context c (open_link (sk_lookup_link_path dir))) (\<lambda>i.
      sbind (lift_res r) (\<lambda>g. in_context d (link_update p i (ProgPin g))))) (\<lambda>_. True)"
proof -
  have link: "keeps (boots dir w) (open_link (sk_lookup_link_path dir))
      (\<lambda>i. bw_pins w (sk_lookup_link_path dir) = Some (LinkPin i) \<or> bw_fresh w \<le> i)"
    unfolding open_link_def
    by (rule keeps_sys) (auto simp: boots_def split: option.splits pinned.splits, metis not_None_eq)
  have "keeps (boots dir w) (link_update p i (ProgPin g)) (\<lambda>_. True)"
    if "bw_pins w (sk_lookup_link_path dir) = Some (LinkPin i) \<or> bw_fresh w \<le> i" for i g
    unfolding link_update_def by (rule keeps_sys) (use that in \<open>auto simp: boots_def split: option.splits\<close>)
  then show ?thesis
    by (intro keeps_sbind [OF keeps_in_context [OF link]] keeps_sbind_any keeps_in_context keeps_pure) simp_all
qed

lemma keeps_load_and_attach: "keeps (boots dir w) (load_and_attach env impl dir) (\<lambda>_. True)"
proof -
  have prog: "keeps (boots dir w) (pin_object (prog_path dir) (ProgPin g)) (\<lambda>_. True)" for g
    unfolding pin_object_def by (rule keeps_sys) (auto simp: boots_def split: if_splits)
  show ?thesis
    unfolding load_and_attach_def ensure_backup_sk_lookup_def attach_or_upgrade_sk_lookup_def pin_dispatch_prog_def Let_def
    by (cases impl) (auto intro!: triple_rules boot_keeps keeps_update_primary prog
        simp del: insert_iff simp: insert_iff [of "sk_lookup_link_path dir"] insert_iff [of "sk_lookup_backup_link_path dir"])
qed

subsection \<open>A successful start\<close>

text \<open>The primary link is pinned, attached and runs the program of the loaded object.\<close>

definition primary_runs :: "path \<Rightarrow> loaded_bpf \<Rightarrow> bpf_world \<Rightarrow> bool" where
  "primary_runs dir bpf t \<longleftrightarrow> (\<exists>i g. bw_pins t (sk_lookup_link_path dir) = Some (LinkPin i) \<and>
     bw_links t i = Some g \<and> with_dispatch_prog bpf = Inr g)"

lemma triple_sys:
  assumes "\<And>w x t. P w \<Longrightarrow> f (w\<lparr>bw_clock := bw_clock w + 1\<rparr>) = Inr (x, t) \<Longrightarrow> Q x t"
  shows "triple P (sys p f) Q (\<lambda>_. True)"
  using assms by (intro tripleI) (auto elim: sys_cases)

lemma yields_attach_and_pin:
  "triple (\<lambda>_. True) (attach_and_pin bpf p)
     (\<lambda>_ t. \<exists>i g. bw_pins t p = Some (LinkPin i) \<and> bw_links t i = Some g \<and> with_dispatch_prog bpf = Inr g) (\<lambda>_. True)"
proof -
  have attach: "triple (\<lambda>_. True) (attach_dispatch bpf)
      (\<lambda>i t. \<exists>g. bw_links t i = Some g \<and> with_dispatch_prog bpf = Inr g) (\<lambda>_. True)"
  proof (cases bpf)
    case (LoadedC sk)
    then show ?thesis
      unfolding attach_dispatch_def attach_netns_def with_dispatch_prog_def
      by (auto intro!: triple_in_context triple_sys)
  next
    case (LoadedRust obj)
    have "triple (\<lambda>_. with_dispatch_prog bpf = Inr g) (attach_netns g)
      (\<lambda>i t. \<exists>g. bw_links t i = Some g \<and> with_dispatch_prog bpf = Inr g) (\<lambda>_. True)" for g
      unfolding attach_netns_def by (rule triple_sys) auto
    then show ?thesis
      unfolding attach_dispatch_def LoadedRust loaded_bpf.case
      by (intro triple_sbind [where R = "\<lambda>g _. with_dispatch_prog bpf = Inr g"] triple_in_context)
        (auto simp: triple_def lift_res_def with_dispatch_prog_def LoadedRust split: sum.splits)
  qed
  have pin: "triple (\<lambda>t. \<exists>g. bw_links t i = Some g \<and> with_dispatch_prog bpf = Inr g) (pin_object p (LinkPin i))
     (\<lambda>_ t. \<exists>i g. bw_pins t p = Some (LinkPin i) \<and> bw_links t i = Some g \<and> with_dispatch_prog bpf = Inr g) (\<lambda>_. True)" for i
    unfolding pin_object_def by (rule triple_sys) (auto split: if_splits)
  have drop: "triple (\<lambda>_. True) (sbind (attempt m) (\<lambda>_. fail e)) Q (\<lambda>_. True)"
    for m :: "unit bpf_act" and e and Q :: "unit \<Rightarrow> bpf_world \<Rightarrow> bool"
    by (auto simp: triple_def sbind_def fail_def attempt_def split: prod.splits sum.splits)
  have net: "triple (\<lambda>_. True) (in_context c open_netns) (\<lambda>_ _. True) (\<lambda>_. True)" for c
    by (auto simp: triple_def split: prod.splits sum.splits)
  show ?thesis
    unfolding attach_and_pin_def
    by (rule triple_sbind [OF net], rule triple_sbind [OF attach], rule triple_on_result [OF pin])
      (simp add: triple_def ret_def, rule drop)
qed

lemma yields_primary:
  "triple (\<lambda>_. True) (attach_or_upgrade_sk_lookup bpf dir) (\<lambda>_. primary_runs dir bpf) (\<lambda>_. True)"
proof -
  have link: "triple (\<lambda>_. True) (open_link (sk_lookup_link_path dir))
      (\<lambda>i t. bw_pins t (sk_lookup_link_path dir) = Some (LinkPin i)) (\<lambda>_. True)"
    unfolding open_link_def by (rule triple_sys) (auto split: option.splits pinned.splits)
  have prog: "triple (\<lambda>t. bw_pins t (sk_lookup_link_path dir) = Some (LinkPin i)) (lift_res (with_dispatch_prog bpf))
      (\<lambda>g t. bw_pins t (sk_lookup_link_path dir) = Some (LinkPin i) \<and> with_dispatch_prog bpf = Inr g) (\<lambda>_. True)" for i
    by (auto simp: triple_def lift_res_def split: sum.splits)
  have update: "triple (\<lambda>t. bw_pins t (sk_lookup_link_path dir) = Some (LinkPin i) \<and> with_dispatch_prog bpf = Inr g)
      (link_update p i (ProgPin g)) (\<lambda>_. primary_runs dir bpf) (\<lambda>_. True)" for p i g
    unfolding link_update_def by (rule triple_sys) (auto simp: primary_runs_def split: option.splits)
  have there: "triple (\<lambda>_. True) (gets f) (\<lambda>_ _. True) (\<lambda>_. True)" for f :: "bpf_world \<Rightarrow> bool"
    by (simp add: triple_def gets_def)
  show ?thesis
    unfolding attach_or_upgrade_sk_lookup_def Let_def
    by (rule triple_sbind [OF there], rule triple_if, rule triple_sbind [OF triple_in_context [OF link]],
        rule triple_sbind [OF prog], rule triple_in_context [OF update])
      (rule triple_weaken [OF yields_attach_and_pin], auto simp: primary_runs_def)
qed

lemma yields_backup:
  "triple (\<lambda>_. True) (ensure_backup_sk_lookup bpf dir) (\<lambda>_. backup_link_pinned dir) (\<lambda>_. True)"
proof -
  have there: "triple (\<lambda>_. True) (gets (pin_exists p)) (\<lambda>b t. b = pin_exists p t) (\<lambda>_. True)" for p
    by (simp add: triple_def gets_def)
  show ?thesis
    unfolding ensure_backup_sk_lookup_def
    by (rule triple_sbind [OF there], rule triple_if)
      (auto simp: triple_def ret_def backup_link_pinned_def pin_exists_def
        dest: yields_attach_and_pin [THEN triple_Inr, rotated] split: prod.splits sum.splits)
qed

lemma keeps_primary_runs:
  "keeps (\<lambda>t. primary_runs dir bpf t \<and> backup_link_pinned dir t) (pin_dispatch_prog bpf dir) (\<lambda>_. True)"
proof -
  have "keeps (\<lambda>t. primary_runs dir bpf t \<and> backup_link_pinned dir t) (pin_object (prog_path dir) (ProgPin g)) (\<lambda>_. True)" for g
    unfolding pin_object_def
    by (rule keeps_sys) (auto simp: timeless_def primary_runs_def backup_link_pinned_def pin_exists_def
        sk_lookup_link_path_def prog_path_def split: if_splits)
  then show ?thesis unfolding pin_dispatch_prog_def by (auto intro!: triple_rules)
qed

lemma keeps_backup_pinned: "keeps (backup_link_pinned dir) (attach_or_upgrade_sk_lookup bpf dir) (\<lambda>_. True)"
proof (rule keepsI)
  fix s r t assume s: "backup_link_pinned dir s" "attach_or_upgrade_sk_lookup bpf dir s = (r, t)"
  have "keeps (boots dir s) (attach_or_upgrade_sk_lookup bpf dir) (\<lambda>_. True)"
    unfolding attach_or_upgrade_sk_lookup_def Let_def
    by (auto intro!: triple_rules keeps_update_primary keeps_attach_and_pin)
  from keepsD [OF this boots_refl s(2)] show "backup_link_pinned dir t"
    using s(1) by (auto simp: backup_link_pinned_def pin_exists_def boots_def)
qed simp

text \<open>After a successful start both links are pinned, the primary one runs the loaded program, and a
  program pin that was there before is still the one it was.\<close>

lemma load_and_attach_yields:
  assumes "load_and_attach env impl dir w = (Inr bpf, t)"
  shows "primary_runs dir bpf t \<and> backup_link_pinned dir t \<and> boots dir w t"
proof -
  have any: "triple (\<lambda>_. True) m (\<lambda>_ _. True) (\<lambda>_. True)" for m :: "'a bpf_act"
    by (auto simp: triple_def split: prod.splits sum.splits)
  have upgrade: "triple (backup_link_pinned dir) (attach_or_upgrade_sk_lookup b dir)
      (\<lambda>_ t. primary_runs dir b t \<and> backup_link_pinned dir t) (\<lambda>_. True)" for b
    using yields_primary [of b dir] keeps_backup_pinned [of dir b]
    by (auto simp: triple_def keeps_def split: prod.splits sum.splits)
  have prog: "triple (\<lambda>t. primary_runs dir b t \<and> backup_link_pinned dir t) (pin_dispatch_prog b dir)
      (\<lambda>_ t. primary_runs dir b t \<and> backup_link_pinned dir t) (\<lambda>_. True)" for b
    using keeps_primary_runs [of dir b] by (auto simp: triple_def keeps_def split: prod.splits sum.splits)
  have "triple (\<lambda>_. True) (load_and_attach env impl dir)
      (\<lambda>b t. primary_runs dir b t \<and> backup_link_pinned dir t) (\<lambda>_. True)"
    unfolding load_and_attach_def
    by (rule triple_sbind [OF any], rule triple_sbind [OF any], rule triple_sbind [OF yields_backup],
        rule triple_sbind [OF upgrade], rule triple_sbind [OF prog]) (simp add: triple_def ret_def)
  from triple_Inr [OF this _ assms] keepsD [OF keeps_load_and_attach boots_refl assms] show ?thesis by blast
qed

subsection \<open>Writing to the maps\<close>

lemma open_steered_ports_put_each: "open_steered_ports ops ps slot = put_each ops slot ps"
  by (rule ext, induction ps) (auto split: prod.splits sum.splits)

subsection \<open>Unpinning and detaching\<close>

lemma keeps_detach:
  assumes "timeless I" "\<And>w. I w \<Longrightarrow> I (w\<lparr>bw_pins := (bw_pins w)(p := None)\<rparr>)"
    "\<And>w i. I w \<Longrightarrow> bw_pins u p = Some (LinkPin i) \<Longrightarrow> I (w\<lparr>bw_links := (bw_links w)(i := None)\<rparr>)"
    "\<And>w x. I w \<Longrightarrow> bw_pins w p = Some x \<Longrightarrow> bw_pins u p = Some x"
  shows "keeps I (detach_pinned_link p) (\<lambda>_. True)"
proof -
  have rm: "keeps I (pin_remove p) (\<lambda>_. True)"
    unfolding pin_remove_def by (rule keeps_sys) (use assms(1,2) in \<open>auto split: if_splits\<close>)
  have op: "keeps I (open_link p) (\<lambda>i. bw_pins u p = Some (LinkPin i))"
    unfolding open_link_def by (rule keeps_sys) (use assms(1,4) in \<open>auto split: option.splits pinned.splits\<close>)
  have det: "keeps I (link_detach p i) (\<lambda>_. True)" if "bw_pins u p = Some (LinkPin i)" for i
    unfolding link_detach_def by (rule keeps_sys) (use assms(1,3) that in auto)
  show ?thesis
    unfolding detach_pinned_link_def
    by (rule keeps_sbind_any, rule keeps_pure, rule TrueI, rule keeps_if, rule keeps_pure, rule TrueI,
        rule keeps_sbind_any, rule keeps_on_result [OF op], rule keeps_pure, rule TrueI, rule keeps_sbind_any,
        rule keeps_attempt, erule det, (rule keeps_attempt, rule rm)+)
qed

text \<open>Detaching the primary link touches that pin and that link only.\<close>

definition drops_primary :: "path \<Rightarrow> bpf_world \<Rightarrow> bpf_world \<Rightarrow> bool" where
  "drops_primary dir w t \<longleftrightarrow>
     (\<forall>p. p \<noteq> sk_lookup_link_path dir \<longrightarrow> bw_pins t p = bw_pins w p) \<and>
     bw_pins t (sk_lookup_link_path dir) \<in> {None, bw_pins w (sk_lookup_link_path dir)} \<and>
     (\<forall>i. bw_pins w (sk_lookup_link_path dir) \<noteq> Some (LinkPin i) \<longrightarrow> bw_links t i = bw_links w i) \<and>
     bw_files t = bw_files w"

lemma keeps_detach_primary: "keeps (drops_primary dir w) (detach_primary_link dir) (\<lambda>_. True)"
proof -
  have "keeps (drops_primary dir w) (detach_pinned_link (sk_lookup_link_path dir)) (\<lambda>_. True)"
  proof (rule keeps_detach [where u = w])
    show "timeless (drops_primary dir w)" unfolding drops_primary_def timeless_def by simp
    show "drops_primary dir w (v\<lparr>bw_pins := (bw_pins v)(sk_lookup_link_path dir := None)\<rparr>)" if "drops_primary dir w v" for v
      using that unfolding drops_primary_def by simp
    show "drops_primary dir w (v\<lparr>bw_links := (bw_links v)(i := None)\<rparr>)"
      if "drops_primary dir w v" "bw_pins w (sk_lookup_link_path dir) = Some (LinkPin i)" for v i
      using that unfolding drops_primary_def by (auto simp: fun_upd_apply)
    show "bw_pins w (sk_lookup_link_path dir) = Some x"
      if "drops_primary dir w v" "bw_pins v (sk_lookup_link_path dir) = Some x" for v x
      using that unfolding drops_primary_def by auto
  qed
  then show ?thesis unfolding detach_primary_link_def by (auto intro!: triple_rules)
qed

text \<open>When every step succeeds the links of both pins are detached and no pin of the data plane is left.\<close>

definition detached :: "pinned option \<Rightarrow> (nat \<Rightarrow> prog option) \<Rightarrow> nat \<Rightarrow> prog option" where
  "detached x L = (case x of Some (LinkPin i) \<Rightarrow> L(i := None) | _ \<Rightarrow> L)"

definition bare :: "(path \<Rightarrow> pinned option) \<Rightarrow> (nat \<Rightarrow> prog option) \<Rightarrow> bpf_world \<Rightarrow> bool" where
  "bare P L w \<longleftrightarrow> calm w \<and> bw_pins w = P \<and> bw_links w = L"

lemma bare_remove:
  "triple (bare P L) (attempt (pin_remove p)) (\<lambda>_. bare (P(p := None)) L) (\<lambda>_. False)"
  by (auto simp: triple_def attempt_def pin_remove_def bare_def sys_calm Let_def calm_def fun_upd_idem split: if_splits)

lemma bare_detach:
  "triple (bare P L) (detach_pinned_link p) (\<lambda>_. bare (P(p := None)) (detached (P p) L)) (\<lambda>_. False)"
proof (rule tripleI)
  fix s x t assume s: "bare P L s" "detach_pinned_link p s = (Inr x, t)"
  show "bare (P(p := None)) (detached (P p) L) t"
    using s by (cases "P p"; cases "the (P p)")
      (auto simp: detach_pinned_link_def bare_def detached_def calm_def gets_def ret_def sbind_def on_result_def attempt_def
        pin_exists_def pin_remove_def open_link_def link_detach_def sys_calm Let_def fun_upd_idem)
next
  fix s e t assume "bare P L s" "detach_pinned_link p s = (Inl e, t)"
  then show False
    by (auto simp: detach_pinned_link_def gets_def ret_def sbind_def on_result_def attempt_def
        split: prod.splits sum.splits if_splits)
qed

lemma bare_remove_all:
  "triple (bare P L) (remove_all ps) (\<lambda>_. bare (\<lambda>p. if p \<in> set ps then None else P p) L) (\<lambda>_. False)"
proof (induction ps arbitrary: P)
  case Nil
  then show ?case by (simp add: triple_def ret_def)
next
  case (Cons p ps)
  have "(\<lambda>q. if q \<in> set ps then None else (P(p := None)) q) = (\<lambda>q. if q \<in> set (p # ps) then None else P q)" by auto
  with Cons.IH [of "P(p := None)"] show ?case
    unfolding remove_all.simps by (intro triple_sbind [OF bare_remove]) (simp only:)
qed

definition plane_pins :: "path \<Rightarrow> path set" where
  "plane_pins dir = prog_pins dir \<union> {sk_lookup_link_path dir, sk_lookup_backup_link_path dir, open_ports_path dir,
     redir_socket_path dir}"

lemma unpin_dataplane_bare:
  assumes "calm w" "bw_pins w dir = None"
  shows "\<exists>t. unpin_dataplane dir w = (Inr (), t) \<and> bw_pins t = (\<lambda>p. if p \<in> plane_pins dir then None else bw_pins w p) \<and>
     bw_links t = detached (bw_pins w (sk_lookup_backup_link_path dir)) (detached (bw_pins w (sk_lookup_link_path dir)) (bw_links w))"
proof -
  let ?P = "bw_pins w" and ?L = "bw_links w" and ?a = "sk_lookup_link_path dir" and ?b = "sk_lookup_backup_link_path dir"
  let ?ps = "[prog_path dir, prog_previous_path dir, prog_candidate_path dir, open_ports_path dir, redir_socket_path dir]"
  have b: "(?P(?a := None)) ?b = ?P ?b" by (simp add: sk_lookup_link_path_def sk_lookup_backup_link_path_def)
  have end_: "(\<lambda>p. if p \<in> set ?ps then None else (?P(?a := None, ?b := None)) p)(dir := None) =
      (\<lambda>p. if p \<in> plane_pins dir then None else ?P p)"
    by (auto simp: plane_pins_def prog_pins_def assms(2))
  have "triple (bare ?P ?L) (unpin_dataplane dir)
      (\<lambda>_. bare (\<lambda>p. if p \<in> plane_pins dir then None else ?P p) (detached (?P ?b) (detached (?P ?a) ?L))) (\<lambda>_. False)"
    unfolding unpin_dataplane_def
    apply (rule triple_sbind [OF bare_detach]) apply (rule triple_sbind [OF bare_detach]) apply (simp only: b)
        apply (rule triple_sbind [OF bare_remove_all])
    apply (rule triple_weaken [OF bare_remove]) apply assumption apply (simp only: end_) apply assumption done
  moreover have "bare ?P ?L w" using assms(1) by (simp add: bare_def)
  ultimately show ?thesis
    by (cases "unpin_dataplane dir w"; cases "fst (unpin_dataplane dir w)") (auto simp: triple_def bare_def)
qed

end
