(* ===== verification/Openresty.thy ===== *)
theory Openresty
  imports Listen_Facts Load_Facts
begin

text \<open>
  \<open>rust/loader/src/openresty.rs\<close> and \<open>toy.rs\<close>: registering the listening sockets in the two slots of
  \<open>redir_socket\<close>, waiting for them, and finding them anew after a worker died. The state of a rescan
  is the socket map and the list of held sockets, that of a start the two maps. What \<open>/proc\<close>
  answers is an argument, for each turn of a loop anew.
\<close>

subsection \<open>Targets\<close>

definition split_target :: "string \<Rightarrow> err + string \<times> port" where
  "split_target target =
     (case split_host_port target of (host, port_raw) \<Rightarrow>
       (case parse_uint u16_max port_raw of
          None \<Rightarrow> Inl (ListenE (BadListenPort port_raw))
        | Some p \<Rightarrow> Inr (if host = [] then ''0.0.0.0'' else host, of_nat p)))"

subsection \<open>Rescanning\<close>

text \<open>The three conditions under which a held socket is kept; the table is read in every case.\<close>

definition held_is_healthy :: "proc_view \<Rightarrow> string \<Rightarrow> port \<Rightarrow> captured_listen \<Rightarrow> err + bool" where
  "held_is_healthy v host port old =
     rbind (inode_still_listening v host port (cl_inode old)) (\<lambda>inode_ok.
       Inr (owner_still_owns_listener v old \<and> fd_is_listening v (cl_fd old) \<and> inode_ok))"

definition rescan_slot ::
    "'m kops \<Rightarrow> proc_view \<Rightarrow> string \<Rightarrow> u32 \<Rightarrow> captured_listen option \<Rightarrow> ('m, captured_listen option) act" where
  "rescan_slot ops v target slot held =
     sbind (lift_res (split_target target)) (\<lambda>(host, port).
     sbind (lift_res (case held of None \<Rightarrow> Inr False | Some old \<Rightarrow> held_is_healthy v host port old)) (\<lambda>healthy.
       if healthy then ret None
       else sbind (lift_res (find_listen_socket_file v host port)) (\<lambda>fresh.
         if (case held of None \<Rightarrow> False
             | Some old \<Rightarrow> cl_inode old = cl_inode fresh \<and> cl_owner_pid old = cl_owner_pid fresh)
         then ret None
         else sbind (register_listen_fd ops (cl_fd fresh) slot) (\<lambda>_. ret (Some fresh)))))"

text \<open>A fresh socket takes its place in the list, or goes to the end of a list that is too short.\<close>

definition put_held :: "nat \<Rightarrow> captured_listen \<Rightarrow> captured_listen list \<Rightarrow> captured_listen list" where
  "put_held i c held = (if length held \<le> i then held @ [c] else held[i := c])"

definition rescan_at ::
    "'m kops \<Rightarrow> proc_view \<Rightarrow> string \<Rightarrow> nat \<Rightarrow> ('m \<times> captured_listen list, nat) act" where
  "rescan_at ops v target i s =
     (case s of (m, held) \<Rightarrow>
       (case rescan_slot ops v target (of_nat i) (if i < length held then Some (held ! i) else None) m of
          (Inl e, n) \<Rightarrow> (Inl e, (n, held))
        | (Inr None, n) \<Rightarrow> (Inr 0, (n, held))
        | (Inr (Some c), n) \<Rightarrow> (Inr 1, (n, put_held i c held))))"

definition rescan_held ::
    "'m kops \<Rightarrow> proc_view \<Rightarrow> proc_view \<Rightarrow> string \<Rightarrow> string option \<Rightarrow> ('m \<times> captured_listen list, nat) act" where
  "rescan_held ops v v_tls target tls_target =
     sbind (rescan_at ops v target 0) (\<lambda>changed.
       case tls_target of
         None \<Rightarrow> ret changed
       | Some tls \<Rightarrow> sbind (rescan_at ops v_tls tls 1) (\<lambda>more_changed. ret (changed + more_changed)))"

subsection \<open>Waiting\<close>

text \<open>
  The turns of the waiting loop: whether shutdown is requested at a turn, what \<open>/proc\<close> answers, and
  the time after the search, in nanoseconds since the start of the wait. A wait that never ends is
  \<open>None\<close>.
\<close>

record waiting =
  wt_shutdown :: "nat \<Rightarrow> bool"
  wt_view :: "nat \<Rightarrow> proc_view"
  wt_clock :: "nat \<Rightarrow> nat"

partial_function (option) wait_loop ::
    "waiting \<Rightarrow> string \<Rightarrow> string \<Rightarrow> port \<Rightarrow> nat \<Rightarrow> nat \<Rightarrow> (err + captured_listen) option" where
  "wait_loop w target host port wait i =
     (if wt_shutdown w i then Some (Inl (ListenE (WaitCancelled target)))
      else (case find_listen_socket_file (wt_view w i) host port of
          Inr c \<Rightarrow> Some (Inr c)
        | Inl e \<Rightarrow>
            if wt_clock w i > wait then Some (Inl (ListenE (WaitExpired target)))
            else wait_loop w target host port wait (Suc i)))"

definition wait_for_listen_socket :: "waiting \<Rightarrow> string \<Rightarrow> nat \<Rightarrow> (err + captured_listen) option" where
  "wait_for_listen_socket w target wait =
     (case split_target target of
        Inl e \<Rightarrow> Some (Inl e)
      | Inr (host, port) \<Rightarrow> wait_loop w target host port wait 0)"

subsection \<open>Starting\<close>

definition on_open_ports :: "('m, 'a) act \<Rightarrow> ('m \<times> 'm, 'a) act" where
  "on_open_ports f s = (case f (fst s) of (r, m) \<Rightarrow> (r, (m, snd s)))"

definition on_redir_socket :: "('m, 'a) act \<Rightarrow> ('m \<times> 'm, 'a) act" where
  "on_redir_socket f s = (case f (snd s) of (r, m) \<Rightarrow> (r, (fst s, m)))"

text \<open>A listener found: its descriptor into the slot, then the ports to the slot.\<close>

definition serve_slot :: "'m kops \<Rightarrow> 32 word \<Rightarrow> slot \<Rightarrow> port list \<Rightarrow> ('m \<times> 'm, unit) act" where
  "serve_slot ops fd slot ports =
     sbind (on_redir_socket (register_listen_fd ops fd (ucast slot))) (\<lambda>_.
       on_open_ports (open_steered_ports ops ports slot))"

definition run_openresty_mode ::
    "'m kops \<Rightarrow> waiting \<Rightarrow> waiting \<Rightarrow> string \<Rightarrow> port list \<Rightarrow> string \<Rightarrow> port list \<Rightarrow> nat \<Rightarrow> 'm \<times> 'm \<Rightarrow>
      ((err + captured_listen list) \<times> 'm \<times> 'm) option" where
  "run_openresty_mode ops w w_tls target_addr steered_ports tls_target_addr tls_ports wait s =
     (case wait_for_listen_socket w target_addr wait of
        None \<Rightarrow> None
      | Some (Inl e) \<Rightarrow> Some (Inl e, s)
      | Some (Inr http) \<Rightarrow>
          (case serve_slot ops (cl_fd http) redir_primary steered_ports s of
             (Inl e, t) \<Rightarrow> Some (Inl e, t)
           | (Inr _, t) \<Rightarrow>
               if tls_ports = [] then Some (Inr [http], t)
               else (case wait_for_listen_socket w_tls tls_target_addr wait of
                   None \<Rightarrow> None
                 | Some (Inl e) \<Rightarrow> Some (Inl (Ctx (Doing ''stock TLS fallback listen'') e), t)
                 | Some (Inr tls) \<Rightarrow>
                     (case serve_slot ops (cl_fd tls) redir_tls tls_ports t of
                        (Inl e, u) \<Rightarrow> Some (Inl e, u)
                      | (Inr _, u) \<Rightarrow> Some (Inr [http, tls], u)))))"

subsection \<open>The toy server\<close>

text \<open>\<open>bind\<close>, \<open>dup\<close> and the switch to non-blocking are arguments; the held duplicate is the result.\<close>

definition run_toy_mode ::
    "'m kops \<Rightarrow> (string \<Rightarrow> err + 32 word) \<Rightarrow> (32 word \<Rightarrow> err + 32 word) \<Rightarrow> (32 word \<Rightarrow> err + unit) \<Rightarrow> string \<Rightarrow> port list \<Rightarrow>
      ('m \<times> 'm, 32 word) act" where
  "run_toy_mode ops bind_addr dup_fd set_nonblocking listen_addr steered_ports =
     sbind (lift_res (with_context (Doing ''listen'') (bind_addr listen_addr))) (\<lambda>listener.
     sbind (lift_res (with_context (Doing ''dup'') (dup_fd listener))) (\<lambda>held.
     sbind (serve_slot ops held redir_primary steered_ports) (\<lambda>_.
     sbind (lift_res (with_context (Doing ''set nonblocking'') (set_nonblocking listener))) (\<lambda>_. ret held))))"

definition request_path :: "string \<Rightarrow> string" where
  "request_path req =
     (case lines req of [] \<Rightarrow> ''/''
      | first # _ \<Rightarrow> (case split_whitespace first of _ # p # _ \<Rightarrow> p | _ \<Rightarrow> ''/''))"

fun request_host :: "string list \<Rightarrow> string" where
  "request_host [] = []"
| "request_host (line # rest) =
     (case strip_prefix ''Host:'' line of
        Some h \<Rightarrow> trim h
      | None \<Rightarrow> (case strip_prefix ''host:'' line of Some h \<Rightarrow> trim h | None \<Rightarrow> request_host rest))"

definition toy_body :: "string \<Rightarrow> string \<Rightarrow> string \<Rightarrow> string \<Rightarrow> string" where
  "toy_body req listen_addr local_addr remote_addr =
     ''sk_lookup demo OK'' @ [CHR 0x0A] @ ''server_listen='' @ listen_addr @ [CHR 0x0A] @ ''http_local_addr='' @ local_addr
       @ [CHR 0x0A] @ ''remote='' @ remote_addr @ [CHR 0x0A] @ ''host='' @ request_host (lines req) @ [CHR 0x0A]
       @ ''path='' @ request_path req @ [CHR 0x0A]"

definition handle_http :: "string \<Rightarrow> string \<Rightarrow> string option \<Rightarrow> string option \<Rightarrow> string" where
  "handle_http req listen_addr local_addr remote_addr =
     (let or_unknown = (\<lambda>a. case a of Some s \<Rightarrow> s | None \<Rightarrow> ''?'');
          body = toy_body req listen_addr (or_unknown local_addr) (or_unknown remote_addr);
          crlf = [CHR 0x0D, CHR 0x0A]
      in ''HTTP/1.1 200 OK'' @ crlf @ ''Content-Type: text/plain; charset=utf-8'' @ crlf
           @ ''Content-Length: '' @ show_nat (utf8_length body) @ crlf @ ''Connection: close'' @ crlf @ crlf @ body)"

end
