(* ===== verification/Run_Ctl.thy ===== *)
theory Run_Ctl
  imports Sockctl Openresty
begin

text \<open>
  \<open>rust/loader/src/ctl.rs\<close>: one run of the command line, from the choice of the command to the audit
  line. The machine it runs on is the world of the commands together with the pins of the BPF file
  system; the files are those of the world, and a pinned map is one of both views. What libbpf,
  \<open>/proc\<close>, the JSON and float libraries and the process answer are the fields of one record.
\<close>

subsection \<open>The machine\<close>

record ctl_audit =
  ca_cred :: peer_cred
  ca_op :: string
  ca_tenant :: string
  ca_site :: string
  ca_ports :: string
  ca_ok :: bool

record 'm host =
  ho_world :: "'m world"
  ho_bpf :: bpf_world
  ho_audit :: "ctl_audit list"

record 'm ctl_env =
  ce_ops :: "'m kops"
  ce_parse_json :: "string \<Rightarrow> central_state option"
  ce_print_json :: "central_state \<Rightarrow> string"
  ce_scale :: "string \<Rightarrow> nat \<Rightarrow> nat option"
  ce_view :: proc_view
  ce_view_tls :: proc_view
  ce_upgrade :: upgrade_env
  ce_cred :: peer_cred

definition is_map_pin :: "pinned option \<Rightarrow> bool" where
  "is_map_pin x = (case x of Some (MapPin _) \<Rightarrow> True | _ \<Rightarrow> False)"

text \<open>A map can be opened exactly when a pin of the file system names it.\<close>

definition map_path :: "path \<Rightarrow> bool" where
  "map_path p \<longleftrightarrow> (\<exists>dir. p = open_ports_path dir \<or> p = redir_socket_path dir)"

definition host_wf :: "'m host \<Rightarrow> bool" where
  "host_wf h \<longleftrightarrow> (\<forall>p. map_path p \<longrightarrow> (w_pins (ho_world h) p \<noteq> None \<longleftrightarrow> is_map_pin (bw_pins (ho_bpf h) p)))"

definition in_world :: "('m, 'a) cmd \<Rightarrow> ('m host, 'a) act" where
  "in_world f h = (case f (ho_world h) of (r, w) \<Rightarrow> (r, h\<lparr>ho_world := w\<rparr>))"

text \<open>An action on the pins sees the files, and a map whose pin is gone cannot be opened again.\<close>

definition in_bpf :: "'a bpf_act \<Rightarrow> ('m host, 'a) act" where
  "in_bpf f h =
     (case f (ho_bpf h\<lparr>bw_files := fs_files (w_fs (ho_world h))\<rparr>) of
        (r, b) \<Rightarrow> (r, h\<lparr>ho_bpf := b, ho_world := (ho_world h)
          \<lparr>w_fs := (w_fs (ho_world h))\<lparr>fs_files := bw_files b\<rparr>,
           w_pins := (\<lambda>p. if is_map_pin (bw_pins b p) then w_pins (ho_world h) p else None)\<rparr>\<rparr>))"

definition write_line :: "ctl_audit \<Rightarrow> ('m host, unit) act" where
  "write_line a h = (Inr (), h\<lparr>ho_audit := ho_audit h @ [a]\<rparr>)"

definition drop_value :: "('s, 'a) act \<Rightarrow> ('s, unit) act" where
  "drop_value m = sbind m (\<lambda>_. ret ())"

subsection \<open>Commands on the data plane\<close>

definition host_flags ::
    "string list \<Rightarrow> string list \<Rightarrow> string list \<Rightarrow> (parsed_flags \<Rightarrow> ('m host, 'a) act) \<Rightarrow> ('m host, unit) act" where
  "host_flags args bools vals body =
     sbind (lift_res (parse_go_flags args bools vals)) (\<lambda>f.
       if bool_flag f ''help'' then ret () else drop_value (body f))"

definition on_redir :: "path \<Rightarrow> ('m \<times> captured_listen list, 'a) act \<Rightarrow> ('m, 'a) cmd" where
  "on_redir pin_dir f w =
     (case w_pins w (redir_socket_path pin_dir) of
        None \<Rightarrow> (Inl (Ctx (Doing ''open pinned redir_socket'') (PinE (PinMissing (redir_socket_path pin_dir)))), w)
      | Some m \<Rightarrow> (case f (m, []) of
            (r, n, _) \<Rightarrow> (r, w\<lparr>w_pins := (w_pins w)(redir_socket_path pin_dir := Some n)\<rparr>)))"

definition ctl_rescan_listen :: "'m ctl_env \<Rightarrow> string list \<Rightarrow> ('m host, unit) act" where
  "ctl_rescan_listen env args =
     host_flags args [''help''] [''pin-dir'', ''target'', ''tls-target''] (\<lambda>f.
       in_world (on_redir (pin_dir_of f) (rescan_held (ce_ops env) (ce_view env) (ce_view_tls env)
         (get_or f ''target'' ''127.0.0.1:8080'')
         (case flag_get f ''tls-target'' of Some v \<Rightarrow> if v = [] then None else Some v | None \<Rightarrow> None))))"

definition ctl_unpin :: "string list \<Rightarrow> ('m host, unit) act" where
  "ctl_unpin args =
     host_flags args [''help''] [''pin-dir''] (\<lambda>f. in_bpf (unpin_dataplane (pin_dir_of f)))"

definition ctl_upgrade :: "'m ctl_env \<Rightarrow> string list \<Rightarrow> ('m host, unit) act" where
  "ctl_upgrade env args =
     host_flags args [''help''] [''obj'', ''pin-dir'', ''health-window''] (\<lambda>f.
       case flag_get f ''obj'' of
         None \<Rightarrow> fail (UpgradeE NeedsObj)
       | Some obj \<Rightarrow>
           sbind (lift_res (with_context (Doing ''bad -health-window'')
             (parse_duration (ce_scale env) (get_or f ''health-window'' ''1s'')))) (\<lambda>window.
             in_bpf (activate (ce_upgrade env) (pin_dir_of f) (path_of obj) window)))"

definition ctl_upgrade_status :: "'m ctl_env \<Rightarrow> string list \<Rightarrow> ('m host, unit) act" where
  "ctl_upgrade_status env args =
     host_flags args [''help''] [''pin-dir''] (\<lambda>f. in_bpf (upgrade_status (ce_upgrade env) (pin_dir_of f)))"

definition ctl_upgrade_rollback :: "'m ctl_env \<Rightarrow> string list \<Rightarrow> ('m host, unit) act" where
  "ctl_upgrade_rollback env args =
     host_flags args [''help''] [''pin-dir''] (\<lambda>f. in_bpf (rollback (ce_upgrade env) (pin_dir_of f)))"

definition ctl_detach_primary :: "string list \<Rightarrow> ('m host, unit) act" where
  "ctl_detach_primary args =
     host_flags args [''help''] [''pin-dir''] (\<lambda>f. in_bpf (detach_primary_link (pin_dir_of f)))"

text \<open>
  The freeze as \<open>ctl_freeze\<close> has it, with the line that the closing of all ports writes: it is
  written whenever the ports are to be closed, before the command's own.
\<close>

definition freeze_audited :: "'m ctl_env \<Rightarrow> string list \<Rightarrow> ('m host, unit) act" where
  "freeze_audited env args =
     host_flags args [''close-all'', ''help'', ''quiet''] [''freeze-file'', ''pin-dir'', ''batch''] (\<lambda>f.
     sbind (in_world (on_fs (set_frozen (freeze_file_of f)))) (\<lambda>_.
       if bool_flag f ''close-all'' then (\<lambda>h.
         case in_world (ctl_close_all (ce_ops env) (close_all_args f)) h of
           (r, h1) \<Rightarrow>
             (case write_line \<lparr>ca_cred = ce_cred env, ca_op = ''close-all'', ca_tenant = [], ca_site = [],
                  ca_ports = ''none'', ca_ok = is_ok r\<rparr> h1 of (_, h2) \<Rightarrow> (r, h2)))
       else ret None))"

subsection \<open>A run\<close>

fun flag_value :: "string \<Rightarrow> string list \<Rightarrow> string option" where
  "flag_value name [] = None"
| "flag_value name (arg # rest) =
     (case (case strip_prefix (''--'' @ name @ ''='') arg of
              Some v \<Rightarrow> Some v | None \<Rightarrow> strip_prefix (''-'' @ name @ ''='') arg) of
        Some v \<Rightarrow> Some v
      | None \<Rightarrow>
          if arg = ''-'' @ name \<or> arg = ''--'' @ name
          then (case rest of [] \<Rightarrow> None | v # _ \<Rightarrow> Some v)
          else flag_value name rest)"

definition is_mutation :: "string \<Rightarrow> bool" where
  "is_mutation op \<longleftrightarrow> op \<in> set [''add'', ''open'', ''remove'', ''close'', ''load-ports'', ''close-ports'', ''bulk'',
     ''fill'', ''reconcile'', ''apply'', ''apply-central'', ''freeze'', ''unfreeze'', ''close-all'',
     ''import-listens'', ''import-listen'', ''migrate'']"

text \<open>The commands by name. A name that is none of them fails before anything is audited.\<close>

definition ctl_commands :: "'m ctl_env \<Rightarrow> string list \<Rightarrow> string list \<Rightarrow> (string \<times> ('m host, unit) act) list" where
  "ctl_commands env argv args =
     [(''add'', drop_value (in_world (ctl_add (ce_ops env) args))),
      (''open'', drop_value (in_world (ctl_add (ce_ops env) args))),
      (''remove'', drop_value (in_world (ctl_remove (ce_ops env) args))),
      (''close'', drop_value (in_world (ctl_remove (ce_ops env) args))),
      (''list'', drop_value (in_world (ctl_list (ce_ops env) args))),
      (''dump'', drop_value (in_world (ctl_list (ce_ops env) args))),
      (''load-ports'', drop_value (in_world (ctl_bulk_add (ce_ops env) args))),
      (''close-ports'', drop_value (in_world (ctl_bulk_remove (ce_ops env) args))),
      (''bulk'', drop_value (in_world (ctl_bulk (ce_ops env) args))),
      (''fill'', drop_value (in_world (ctl_bulk_fill (ce_ops env) args))),
      (''reconcile'', drop_value (in_world (ctl_reconcile (ce_ops env) args))),
      (''apply'',
         if flag_value ''from-central'' argv \<noteq> None
         then drop_value (in_world (ctl_apply_central (ce_parse_json env) (ce_ops env) args))
         else drop_value (in_world (ctl_reconcile (ce_ops env) args))),
      (''apply-central'', drop_value (in_world (ctl_apply_central (ce_parse_json env) (ce_ops env) args))),
      (''freeze'', freeze_audited env args),
      (''unfreeze'', drop_value (in_world (ctl_unfreeze args))),
      (''close-all'', drop_value (in_world (ctl_close_all (ce_ops env) args))),
      (''rescan-listen'', ctl_rescan_listen env args),
      (''import-listens'', drop_value (in_world (ctl_import_listens (ce_print_json env) args))),
      (''import-listen'', drop_value (in_world (ctl_import_listens (ce_print_json env) args))),
      (''migrate'', drop_value (in_world (ctl_migrate (ce_print_json env) args))),
      (''check-overlap'', drop_value (in_world (ctl_check_overlap (ce_ops env) args))),
      (''retire-conf-listen'', drop_value (in_world (ctl_retire_conf_listen args))),
      (''status'', drop_value (in_world (ctl_status (ce_ops env) args))),
      (''metrics'', drop_value (in_world (ctl_status (ce_ops env) args))),
      (''unpin'', ctl_unpin args),
      (''teardown'', ctl_unpin args),
      (''upgrade'', ctl_upgrade env args),
      (''upgrade-status'', ctl_upgrade_status env args),
      (''upgrade-rollback'', ctl_upgrade_rollback env args),
      (''detach-primary'', ctl_detach_primary args),
      (''help'', ret ())]"

definition run_audit :: "'m ctl_env \<Rightarrow> string list \<Rightarrow> bool \<Rightarrow> ctl_audit" where
  "run_audit env argv ok = \<lparr>ca_cred = ce_cred env, ca_op = hd argv,
     ca_tenant = (case flag_value ''tenant'' argv of Some v \<Rightarrow> v | None \<Rightarrow> []),
     ca_site = (case flag_value ''site'' argv of Some v \<Rightarrow> v | None \<Rightarrow> []),
     ca_ports = (if length argv > 1 then join '','' (tl argv) else ''none''), ca_ok = ok\<rparr>"

definition run_ctl :: "'m ctl_env \<Rightarrow> string list \<Rightarrow> ('m host, unit) act" where
  "run_ctl env argv h =
     (case argv of
        [] \<Rightarrow> (Inl (SockE NeedsCommand), h)
      | op # args \<Rightarrow>
          (case map_of (ctl_commands env argv args) op of
             None \<Rightarrow> (Inl (SockE (UnknownCommand op)), h)
           | Some act \<Rightarrow>
               (case act h of (r, h1) \<Rightarrow>
                  if is_mutation op then
                    (case write_line (run_audit env argv (is_ok r)) h1 of (_, h2) \<Rightarrow> (r, h2))
                  else (r, h1))))"

end
