(* ===== verification/Run_Ctl_Facts.thy ===== *)
theory Run_Ctl_Facts
  imports Run_Ctl
begin

text \<open>
  A run of the command line: what it writes to the audit, which commands only look, and that the maps
  of the world stay those that are pinned.
\<close>

subsection \<open>The audit\<close>

definition silent :: "('m host, 'a) act \<Rightarrow> bool" where
  "silent f \<longleftrightarrow> (\<forall>h. ho_audit (snd (f h)) = ho_audit h)"

named_theorems silent_rules \<open>the actions that write no line\<close>

lemma silent_world [silent_rules]: "silent (in_world f)" "silent (in_bpf g)"
  by (simp_all add: silent_def in_world_def in_bpf_def split: prod.split)

lemma silent_pure [silent_rules]: "silent (ret x)" "silent (fail e)" "silent (lift_res r)"
  by (simp_all add: silent_def ret_def fail_def lift_res_def)

lemma silent_sbind [silent_rules]: "silent m \<Longrightarrow> (\<And>x. silent (f x)) \<Longrightarrow> silent (sbind m f)"
  by (auto simp: silent_def sbind_def split: prod.split sum.split) (metis snd_conv)+

lemma silent_drop [silent_rules]: "silent m \<Longrightarrow> silent (drop_value m)"
  unfolding drop_value_def by (intro silent_rules)

lemma silent_flags [silent_rules]: "(\<And>f. silent (body f)) \<Longrightarrow> silent (host_flags args bools vals body)"
  unfolding host_flags_def by (intro silent_rules) (auto intro: silent_rules)

lemma silent_commands [silent_rules]:
  "silent (ctl_rescan_listen env args)" "silent (ctl_unpin args)" "silent (ctl_upgrade env args)"
  "silent (ctl_upgrade_status env args)" "silent (ctl_upgrade_rollback env args)" "silent (ctl_detach_primary args)"
  unfolding ctl_rescan_listen_def ctl_unpin_def ctl_upgrade_def ctl_upgrade_status_def ctl_upgrade_rollback_def
    ctl_detach_primary_def
  by (auto intro!: silent_rules split: option.splits)

lemma silentD: "silent f \<Longrightarrow> f h = (r, t) \<Longrightarrow> ho_audit t = ho_audit h"
  by (metis silent_def snd_conv)

lemma commands_silent: "\<forall>(op, act) \<in> set (ctl_commands env argv args). op \<noteq> ''freeze'' \<longrightarrow> silent act"
  unfolding ctl_commands_def by (auto intro!: silent_rules)

lemma command_silent: "map_of (ctl_commands env argv args) op = Some act \<Longrightarrow> op \<noteq> ''freeze'' \<Longrightarrow> silent act"
  using commands_silent by (fastforce dest: map_of_SomeD)

lemma command_names: "dom (map_of (ctl_commands env argv args)) = {op. is_ctl_command op}"
  unfolding dom_map_of_conv_image_fst ctl_commands_def is_ctl_command_def by auto

lemma mutation_command: "is_mutation op \<Longrightarrow> is_ctl_command op"
  by (auto simp: is_mutation_def is_ctl_command_def)

definition closing_line :: "'m ctl_env \<Rightarrow> bool \<Rightarrow> ctl_audit" where
  "closing_line env ok = \<lparr>ca_cred = ce_cred env, ca_op = ''close-all'', ca_tenant = [], ca_site = [],
     ca_ports = ''none'', ca_ok = ok\<rparr>"

lemma freeze_lines:
  assumes "freeze_audited env args h = (r, t)"
  shows "ho_audit t = ho_audit h \<or> ho_audit t = ho_audit h @ [closing_line env (is_ok r)]"
proof (cases "parse_go_flags args [''close-all'', ''help'', ''quiet''] [''freeze-file'', ''pin-dir'', ''batch'']")
  case (Inl e)
  then show ?thesis using assms by (auto simp: freeze_audited_def host_flags_def sbind_def lift_res_def)
next
  case (Inr f)
  obtain q u where q: "in_world (on_fs (set_frozen (freeze_file_of f))) h = (q, u)" by fastforce
  have u: "ho_audit u = ho_audit h" using silentD [OF silent_world(1) q] .
  obtain x v where x: "in_world (ctl_close_all (ce_ops env) (close_all_args f)) u = (x, v)" by fastforce
  have v: "ho_audit v = ho_audit h" using silentD [OF silent_world(1) x] u by simp
  show ?thesis
    using assms u v
    by (auto simp: freeze_audited_def host_flags_def drop_value_def sbind_def lift_res_def ret_def Inr q x write_line_def
        closing_line_def split: sum.splits if_splits)
qed

lemma run_ctl_lines:
  assumes "run_ctl env argv h = (r, t)" "argv = op # args"
  shows "\<exists>closing. ho_audit t = ho_audit h @ closing @ (if is_mutation op then [run_audit env argv (is_ok r)] else []) \<and>
     closing \<in> {[], [closing_line env (is_ok r)]} \<and> (op \<noteq> ''freeze'' \<longrightarrow> closing = [])"
proof (cases "map_of (ctl_commands env argv args) op")
  case None
  then have "\<not> is_mutation op" using mutation_command [of op] command_names [of env argv args] by blast
  then show ?thesis using assms None by (simp add: run_ctl_def)
next
  case (Some act)
  obtain q u where q: "act h = (q, u)" by fastforce
  have r: "r = q" "ho_audit t = ho_audit u @ (if is_mutation op then [run_audit env argv (is_ok r)] else [])"
    using assms Some q by (auto simp: run_ctl_def write_line_def split: if_splits)
  show ?thesis
  proof (cases "op = ''freeze''")
    case True
    then have "act = freeze_audited env args" using Some by (simp add: ctl_commands_def)
    then show ?thesis using freeze_lines [of env args h q u] q r True by auto
  next
    case False
    then show ?thesis using silentD [OF command_silent [OF Some False] q] r by simp
  qed
qed

text \<open>The freeze on the world is the one of \<open>Ctl\<close>.\<close>

lemma freeze_world:
  "ho_world (snd (freeze_audited env args h)) = snd (ctl_freeze (ce_ops env) args (ho_world h)) \<and>
   ho_bpf (snd (freeze_audited env args h)) = ho_bpf h"
proof (cases "parse_go_flags args [''close-all'', ''help'', ''quiet''] [''freeze-file'', ''pin-dir'', ''batch'']")
  case (Inl e)
  then show ?thesis by (simp add: freeze_audited_def host_flags_def ctl_freeze_def with_flags_def sbind_def lift_res_def)
next
  case (Inr f)
  obtain q u where q: "on_fs (set_frozen (freeze_file_of f)) (ho_world h) = (q, u)" by fastforce
  obtain x v where x: "ctl_close_all (ce_ops env) (close_all_args f) u = (x, v)" by fastforce
  show ?thesis
    by (cases q; cases x)
      (simp_all add: freeze_audited_def host_flags_def drop_value_def ctl_freeze_def with_flags_def sbind_def lift_res_def ret_def
        Inr q x in_world_def write_line_def)
qed

subsection \<open>Commands that only look\<close>

definition looks :: "string set" where
  "looks = {''list'', ''dump'', ''check-overlap'', ''retire-conf-listen'', ''status'', ''metrics'', ''help''}"

definition host_reads :: "('m host, 'a) act \<Rightarrow> bool" where
  "host_reads f \<longleftrightarrow> (\<forall>h. snd (f h) = h)"

lemma host_reads_world: "(\<And>w. snd (f w) = w) \<Longrightarrow> host_reads (drop_value (in_world f))"
  by (simp add: host_reads_def drop_value_def in_world_def sbind_def ret_def split: prod.split sum.split)
    (metis (no_types, lifting) host.surjective host.update_convs(1) snd_conv)

lemma host_reads_nothing: "host_reads (ret ())"
  by (simp add: host_reads_def ret_def)

lemma commands_look: "\<forall>(op, act) \<in> set (ctl_commands env argv args). op \<in> looks \<longrightarrow> host_reads act"
proof -
  note rd = host_reads_world [OF list_reads] host_reads_world [OF check_overlap_reads]
    host_reads_world [OF retire_reads] host_reads_world [OF status_reads]
  show ?thesis
    unfolding ctl_commands_def looks_def by (simp add: rd host_reads_nothing)
qed

lemma run_ctl_looks:
  assumes "op \<in> looks" "run_ctl env (op # args) h = (r, t)"
  shows "t = h"
proof (cases "map_of (ctl_commands env (op # args) args) op")
  case None
  then show ?thesis using assms(2) by (simp add: run_ctl_def)
next
  case (Some act)
  have "\<not> is_mutation op" using assms(1) by (auto simp: looks_def is_mutation_def)
  moreover have "snd (act h) = h" using commands_look map_of_SomeD [OF Some] assms(1) unfolding host_reads_def by fast
  ultimately show ?thesis using assms(2) Some by (cases "act h") (simp add: run_ctl_def)
qed

subsection \<open>The pinned maps\<close>

text \<open>
  An invariant of the world that looks at no file, and at the pinned maps only up to the contents of
  those of the ports, is kept by every command on the world.
\<close>

definition pins_stable :: "('m world \<Rightarrow> bool) \<Rightarrow> bool" where
  "pins_stable I \<longleftrightarrow> (\<forall>w fs. I w \<longrightarrow> I (w\<lparr>w_fs := fs\<rparr>)) \<and>
     (\<forall>w dir m n. I w \<longrightarrow> w_pins w (open_ports_path dir) = Some m \<longrightarrow>
        I (w\<lparr>w_pins := (w_pins w)(open_ports_path dir := Some n)\<rparr>))"

definition same_pins :: "path set \<Rightarrow> 'm world \<Rightarrow> bool" where
  "same_pins D w \<longleftrightarrow> dom (w_pins w) = D"

lemma same_pins_stable: "pins_stable (same_pins D)"
  by (auto simp: pins_stable_def same_pins_def)

named_theorems pin_rules \<open>the actions that keep the pinned maps\<close>

lemma keeps_on_map [pin_rules]: "pins_stable I \<Longrightarrow> keeps I (on_map dir f) (\<lambda>_. True)"
  by (rule keepsI)
    (auto simp: on_map_def load_pinned_open_ports_def pins_stable_def Let_def split: option.splits prod.splits)

lemma keeps_on_fs [pin_rules]: "pins_stable I \<Longrightarrow> keeps I (on_fs f) (\<lambda>_. True)"
  by (rule keepsI) (auto simp: on_fs_def pins_stable_def Let_def split: prod.splits)

lemma keeps_getr [pin_rules]: "keeps I (getr g) (\<lambda>_. True)"
  by (rule keepsI) (auto simp: getr_def)

lemma keeps_counted [pin_rules]: "pins_stable I \<Longrightarrow> keeps I (counted p f) (\<lambda>_. True)"
  by (rule keepsI) (auto simp: counted_def pins_stable_def split: sum.splits)

lemma keeps_usage [pin_rules]: "keeps I (collect_or_usage u f) (\<lambda>_. True)"
  by (rule keepsI) (auto dest!: reads_only(4))

lemma keeps_any [pin_rules]: "keeps I (ret x) (\<lambda>_. True)" "keeps I (fail e) (\<lambda>_. True)" "keeps I (gets f) (\<lambda>_. True)"
  "keeps I (lift_res r) (\<lambda>_. True)"
  by (simp_all add: keeps_pure)

lemma keeps_prod [pin_rules]: "(\<And>a b. x = (a, b) \<Longrightarrow> keeps I (f a b) Q) \<Longrightarrow> keeps I (case x of (a, b) \<Rightarrow> f a b) Q"
  by (cases x) simp

lemma keeps_list [pin_rules]: "(x = [] \<Longrightarrow> keeps I m Q) \<Longrightarrow> (\<And>y ys. x = y # ys \<Longrightarrow> keeps I (f y ys) Q) \<Longrightarrow>
     keeps I (case x of [] \<Rightarrow> m | y # ys \<Rightarrow> f y ys) Q"
  by (cases x) simp_all

lemmas step_rules = keeps_sbind_any keeps_if keeps_option

lemma keeps_flags [pin_rules]: "(\<And>f. keeps I (body f) (\<lambda>_. True)) \<Longrightarrow> keeps I (with_flags args bools vals body) (\<lambda>_. True)"
  unfolding with_flags_def
  by (rule keeps_sbind_any, rule keeps_any, rule keeps_if, rule keeps_any, rule keeps_sbind_any, assumption, rule keeps_any)

lemma keeps_apply_add [pin_rules]: "pins_stable I \<Longrightarrow> keeps I (apply_add ops dir pf polf ps b n pr sm sync ng mf) (\<lambda>_. True)"
  unfolding apply_add_def Let_def by (intro step_rules pin_rules)

lemma keeps_apply_remove [pin_rules]: "pins_stable I \<Longrightarrow> keeps I (apply_remove ops dir pf polf ps n pr sm sync) (\<lambda>_. True)"
  unfolding apply_remove_def Let_def by (intro step_rules pin_rules)

lemma keeps_carry_out [pin_rules]: "pins_stable I \<Longrightarrow> keeps I (carry_out ops dir pl n pr) (\<lambda>_. True)"
  unfolding carry_out_def put_stage_def delete_stage_def by (intro step_rules pin_rules)

lemma keeps_reconcile [pin_rules]: "pins_stable I \<Longrightarrow> keeps I (ctl_reconcile ops args) (\<lambda>_. True)"
  unfolding ctl_reconcile_def reconcile_with_def Let_def by (intro step_rules pin_rules)

lemma keeps_close_all [pin_rules]: "pins_stable I \<Longrightarrow> keeps I (ctl_close_all ops args) (\<lambda>_. True)"
  unfolding ctl_close_all_def close_all_with_def Let_def by (intro step_rules pin_rules)

lemma keeps_stamp [pin_rules]: "pins_stable I \<Longrightarrow> keeps I (\<lambda>w. (Inr (), snd (on_fs f w))) (\<lambda>_. True)"
  by (rule keepsI) (auto simp: on_fs_def pins_stable_def split: prod.splits)

lemma keeps_openers [pin_rules]:
  "pins_stable I \<Longrightarrow> keeps I (ctl_add ops args) (\<lambda>_. True)" "pins_stable I \<Longrightarrow> keeps I (ctl_bulk_add ops args) (\<lambda>_. True)"
  "pins_stable I \<Longrightarrow> keeps I (ctl_bulk_fill ops args) (\<lambda>_. True)"
  unfolding ctl_add_def ctl_bulk_add_def ctl_bulk_fill_def Let_def by (intro step_rules pin_rules; assumption)+

lemma keeps_closers [pin_rules]:
  "pins_stable I \<Longrightarrow> keeps I (ctl_remove ops args) (\<lambda>_. True)" "pins_stable I \<Longrightarrow> keeps I (ctl_bulk_remove ops args) (\<lambda>_. True)"
  unfolding ctl_remove_def ctl_bulk_remove_def Let_def by (intro step_rules pin_rules; assumption)+

lemma keeps_bulk [pin_rules]: "pins_stable I \<Longrightarrow> keeps I (ctl_bulk ops args) (\<lambda>_. True)"
  unfolding ctl_bulk_def Let_def by (intro step_rules pin_rules)

lemma keeps_central [pin_rules]: "pins_stable I \<Longrightarrow> keeps I (ctl_apply_central pj ops args) (\<lambda>_. True)"
  unfolding ctl_apply_central_def Let_def by (intro step_rules pin_rules)

lemma keeps_freeze [pin_rules]:
  "pins_stable I \<Longrightarrow> keeps I (ctl_freeze ops args) (\<lambda>_. True)" "pins_stable I \<Longrightarrow> keeps I (ctl_unfreeze args) (\<lambda>_. True)"
  unfolding ctl_freeze_def ctl_unfreeze_def by (intro step_rules pin_rules; assumption)+

lemma keeps_import [pin_rules]: "pins_stable I \<Longrightarrow> keeps I (ctl_import_listens pr args) (\<lambda>_. True)"
  unfolding ctl_import_listens_def Let_def by (intro step_rules pin_rules)

lemma keeps_reads: "(\<And>w. snd (f w) = w) \<Longrightarrow> keeps I f (\<lambda>_. True)"
  by (rule keepsI) (metis snd_conv, simp)

lemma keeps_lookers [pin_rules]:
  "keeps I (ctl_list ops args) (\<lambda>_. True)" "keeps I (ctl_check_overlap ops args) (\<lambda>_. True)"
  "keeps I (ctl_retire_conf_listen args) (\<lambda>_. True)" "keeps I (ctl_status ops args) (\<lambda>_. True)"
  by (rule keeps_reads; rule list_reads check_overlap_reads retire_reads status_reads)+

lemma keeps_migrate [pin_rules]: "pins_stable I \<Longrightarrow> keeps I (ctl_migrate pr args) (\<lambda>_. True)"
  unfolding ctl_migrate_def by (intro step_rules pin_rules)

lemma keeps_on_redir [pin_rules]: "keeps (same_pins D) (on_redir dir f) (\<lambda>_. True)"
  by (rule keepsI) (auto simp: on_redir_def same_pins_def dom_def split: option.splits prod.splits if_splits)

text \<open>The steps on the pins leave those of maps, or remove them.\<close>

definition only_removes :: "bpf_world \<Rightarrow> bpf_world \<Rightarrow> bool" where
  "only_removes w t \<longleftrightarrow> (\<forall>p. bw_pins t p \<in> {None, bw_pins w p})"

lemma keeps_unpin: "keeps (only_removes w) (unpin_dataplane dir) (\<lambda>_. True)"
proof -
  have time: "timeless (only_removes w)" unfolding only_removes_def timeless_def by simp
  have rm: "keeps (only_removes w) (pin_remove p) (\<lambda>_. True)" for p
    unfolding pin_remove_def by (rule keeps_sys [OF time]) (auto simp: only_removes_def split: if_splits)
  have all: "keeps (only_removes w) (remove_all ps) (\<lambda>_. True)" for ps
    by (induction ps) (auto intro!: keeps_sbind_any keeps_attempt rm keeps_pure)
  have det: "keeps (only_removes w) (detach_pinned_link p) (\<lambda>_. True)" for p
  proof (rule keeps_detach [OF time])
    show "only_removes w (v\<lparr>bw_pins := (bw_pins v)(p := None)\<rparr>)" if "only_removes w v" for v
      using that unfolding only_removes_def by simp
    show "only_removes w (v\<lparr>bw_links := (bw_links v)(i := None)\<rparr>)" if "only_removes w v" for v i
      using that unfolding only_removes_def by simp
    show "bw_pins w p = Some x" if "only_removes w v" "bw_pins v p = Some x" for v x
      using that unfolding only_removes_def by (metis insertE option.distinct(1) singletonD)
  qed
  show ?thesis
    unfolding unpin_dataplane_def by (intro keeps_sbind_any det all keeps_attempt rm)
qed

lemma map_path_frame: "map_path p \<Longrightarrow> p \<notin> prog_pins dir \<and> p \<noteq> sk_lookup_link_path dir"
  by (auto simp: map_path_def prog_pins_def open_ports_path_def redir_socket_path_def prog_path_def prog_previous_path_def
      prog_candidate_path_def sk_lookup_link_path_def)

definition keeps_maps :: "'a bpf_act \<Rightarrow> bool" where
  "keeps_maps f \<longleftrightarrow> (\<forall>b r t p. f b = (r, t) \<longrightarrow> map_path p \<longrightarrow> bw_pins t p \<in> {None, bw_pins b p})"

lemma keeps_mapsI:
  assumes "\<And>b r t p. f b = (r, t) \<Longrightarrow> map_path p \<Longrightarrow> bw_pins t p = None \<or> bw_pins t p = bw_pins b p"
  shows "keeps_maps f"
  using assms by (auto simp: keeps_maps_def)

lemma unpin_keeps_maps: "keeps_maps (unpin_dataplane dir)"
proof (rule keeps_mapsI)
  fix b r t p assume "unpin_dataplane dir b = (r, t)"
  then have "only_removes b t" using keepsD [OF keeps_unpin, of b b dir r t] by (simp add: only_removes_def)
  then show "bw_pins t p = None \<or> bw_pins t p = bw_pins b p" by (simp add: only_removes_def)
qed

lemma switch_keeps_maps: "keeps_maps (activate ue dir cand window)" "keeps_maps (rollback ue dir)"
proof -
  have frame: "bw_pins t p = bw_pins b p" if "only_switches ue dir G b t" "map_path p" for G b t p
    using that map_path_frame [OF that(2), of dir] by (simp add: only_switches_def)
  show "keeps_maps (activate ue dir cand window)"
    by (rule keeps_mapsI) (rule disjI2, rule frame [OF activate_switches])
  show "keeps_maps (rollback ue dir)"
    by (rule keeps_mapsI) (rule disjI2, rule frame [OF rollback_switches])
qed

lemma detach_keeps_maps: "keeps_maps (detach_primary_link dir)"
proof (rule keeps_mapsI)
  fix b r t p assume run: "detach_primary_link dir b = (r, t)" and p: "map_path p"
  have "drops_primary dir b t" using keepsD [OF keeps_detach_primary _ run, of b] by (simp add: drops_primary_def)
  then show "bw_pins t p = None \<or> bw_pins t p = bw_pins b p"
    using map_path_frame [OF p, of dir] by (simp add: drops_primary_def)
qed

lemma status_keeps_maps: "keeps_maps (upgrade_status ue dir)"
proof (rule keeps_mapsI)
  fix b r t p assume run: "upgrade_status ue dir b = (r, t)"
  have time: "timeless (\<lambda>t. bw_pins t = bw_pins b)" by (simp add: timeless_def)
  have "keeps (\<lambda>t. bw_pins t = bw_pins b) (read_journal ue dir) (\<lambda>_. True)"
    unfolding read_journal_def read_journal_at_def by (rule keeps_sys [OF time]) (auto split: option.splits)
  then have "keeps (\<lambda>t. bw_pins t = bw_pins b) (upgrade_status ue dir) (\<lambda>_. True)"
    unfolding upgrade_status_def by (rule keeps_sbind_any) (rule keeps_any)
  from keepsD [OF this _ run] show "bw_pins t p = None \<or> bw_pins t p = bw_pins b p" by simp
qed

lemmas plane_keeps_maps = unpin_keeps_maps switch_keeps_maps detach_keeps_maps status_keeps_maps

lemma host_wf_dom: "host_wf h \<longleftrightarrow> (\<forall>p. map_path p \<longrightarrow> (p \<in> dom (w_pins (ho_world h))) = is_map_pin (bw_pins (ho_bpf h) p))"
  by (simp add: host_wf_def dom_def)

lemma host_wf_audit [simp]: "host_wf (h\<lparr>ho_audit := a\<rparr>) = host_wf h"
  by (simp add: host_wf_def)

lemma wf_in_world:
  assumes "keeps (same_pins (dom (w_pins (ho_world h)))) f (\<lambda>_. True)" "host_wf h" "in_world f h = (r, t)"
  shows "host_wf t"
proof -
  obtain x w where x: "f (ho_world h) = (x, w)" by fastforce
  have "dom (w_pins w) = dom (w_pins (ho_world h))" using keepsD [OF assms(1) _ x] by (simp add: same_pins_def)
  moreover have "t = h\<lparr>ho_world := w\<rparr>" using assms(3) x by (simp add: in_world_def)
  ultimately show ?thesis using assms(2) by (simp only: host_wf_dom) simp
qed

lemma wf_in_bpf:
  assumes "keeps_maps f" "host_wf h" "in_bpf f h = (r, t)"
  shows "host_wf t"
proof -
  let ?b = "ho_bpf h\<lparr>bw_files := fs_files (w_fs (ho_world h))\<rparr>"
  obtain x b where x: "f ?b = (x, b)" by fastforce
  have t: "bw_pins (ho_bpf t) = bw_pins b" "w_pins (ho_world t) = (\<lambda>p. if is_map_pin (bw_pins b p) then w_pins (ho_world h) p else None)"
    using assms(3) x by (auto simp: in_bpf_def)
  have "bw_pins b p \<in> {None, bw_pins ?b p}" if "map_path p" for p
    using assms(1) x that unfolding keeps_maps_def by blast
  then have "is_map_pin (bw_pins b p) \<Longrightarrow> is_map_pin (bw_pins (ho_bpf h) p)" if "map_path p" for p
    using that by (fastforce simp: is_map_pin_def)
  then show ?thesis using assms(2) by (simp add: host_wf_def t)
qed

lemma wf_world [pin_rules]: "(\<And>D. keeps (same_pins D) f (\<lambda>_. True)) \<Longrightarrow> keeps host_wf (in_world f) (\<lambda>_. True)"
  by (rule keepsI) (use wf_in_world in blast)+

lemma wf_bpf [pin_rules]: "keeps_maps f \<Longrightarrow> keeps host_wf (in_bpf f) (\<lambda>_. True)"
  by (rule keepsI) (use wf_in_bpf in blast)+

lemma wf_drop [pin_rules]: "keeps I m (\<lambda>_. True) \<Longrightarrow> keeps I (drop_value m) (\<lambda>_. True)"
  unfolding drop_value_def by (intro step_rules pin_rules)

lemma wf_flags [pin_rules]: "(\<And>f. keeps I (body f) (\<lambda>_. True)) \<Longrightarrow> keeps I (host_flags args bools vals body) (\<lambda>_. True)"
  unfolding host_flags_def
  by (rule keeps_sbind_any, rule keeps_any, rule keeps_if, rule keeps_any, rule wf_drop)

lemma wf_plane [pin_rules]:
  "keeps host_wf (ctl_rescan_listen env args) (\<lambda>_. True)" "keeps host_wf (ctl_unpin args) (\<lambda>_. True)"
  "keeps host_wf (ctl_upgrade env args) (\<lambda>_. True)" "keeps host_wf (ctl_upgrade_status env args) (\<lambda>_. True)"
  "keeps host_wf (ctl_upgrade_rollback env args) (\<lambda>_. True)" "keeps host_wf (ctl_detach_primary args) (\<lambda>_. True)"
  unfolding ctl_rescan_listen_def ctl_unpin_def ctl_upgrade_def ctl_upgrade_status_def ctl_upgrade_rollback_def
    ctl_detach_primary_def
  by (intro step_rules pin_rules plane_keeps_maps)+

lemma wf_closing:
  assumes "\<And>D. keeps (same_pins D) f (\<lambda>_. True)"
  shows "keeps host_wf (\<lambda>h. case in_world f h of (r, h1) \<Rightarrow> (case write_line (a r) h1 of (_, h2) \<Rightarrow> (r, h2))) (\<lambda>_. True)"
proof (rule keepsI)
  fix h r t
  assume h: "host_wf h" and run: "(case in_world f h of (r, h1) \<Rightarrow> (case write_line (a r) h1 of (_, h2) \<Rightarrow> (r, h2))) = (r, t)"
  obtain q u where q: "in_world f h = (q, u)" by fastforce
  have "host_wf u" by (rule wf_in_world [OF assms h q])
  then show "host_wf t" using run by (auto simp: q write_line_def)
qed simp

lemma wf_freeze [pin_rules]: "keeps host_wf (freeze_audited env args) (\<lambda>_. True)"
  unfolding freeze_audited_def by (intro step_rules pin_rules wf_closing same_pins_stable)

lemma commands_wf: "\<forall>(op, act) \<in> set (ctl_commands env argv args). keeps host_wf act (\<lambda>_. True)"
  unfolding ctl_commands_def by (simp, intro conjI impI pin_rules same_pins_stable)

lemma run_ctl_wf:
  assumes "run_ctl env argv h = (r, t)" "host_wf h"
  shows "host_wf t"
proof (cases argv)
  case (Cons op args)
  show ?thesis
  proof (cases "map_of (ctl_commands env argv args) op")
    case (Some act)
    have "keeps host_wf act (\<lambda>_. True)" using commands_wf map_of_SomeD [OF Some] by fast
    then have "host_wf (snd (act h))" using assms(2) by (metis keepsD prod.collapse)
    then show ?thesis using assms(1) Cons Some
      by (cases "act h") (auto simp: run_ctl_def write_line_def split: if_splits)
  qed (use assms Cons in \<open>simp add: run_ctl_def\<close>)
qed (use assms in \<open>simp add: run_ctl_def\<close>)

end
