(* ===== verification/Dispatch.thy ===== *)
theory Dispatch
  imports Bulk
begin

text \<open>
  The \<open>sk_lookup\<close> program: \<open>rust/bpf/src/lib.rs\<close>, and the C program \<open>dispatch.bpf.c\<close> that
  the loader can use instead. The BPF helpers are arguments; a run returns the verdict and the
  helper calls in their order, from which the fate of the connection and the balance of socket
  references are read off.
\<close>

subsection \<open>Context, helpers, calls\<close>

record bpf_sk_lookup =
  sk_or_cookie :: u64
  sk_family :: u32
  sk_protocol :: u32
  remote_ip4 :: u32
  remote_ip6 :: "u32 list"
  remote_port_and_pad :: u32
  local_ip4 :: u32
  local_ip6 :: "u32 list"
  local_port :: u32
  ingress_ifindex :: u32

text \<open>
  \<open>h_open_ports\<close> and \<open>h_redir_socket\<close> are \<open>bpf_map_lookup_elem\<close> on the two maps (\<open>None\<close> is the
  null pointer); a lookup in the sock map takes a reference on the socket it returns.
  \<open>h_assign\<close> is the result of \<open>bpf_sk_assign\<close>.
\<close>

record 'sk helpers =
  h_le :: bool
  h_open_ports :: "bytes \<Rightarrow> bytes option"
  h_redir_socket :: "bytes \<Rightarrow> 'sk option"
  h_assign :: "bpf_sk_lookup \<Rightarrow> 'sk \<Rightarrow> 64 word"

datatype 'sk call =
    LookupPort bytes
  | LookupSocket bytes "'sk option"
  | Assign 'sk "64 word"
  | Release 'sk

definition ipproto_tcp :: u32 where "ipproto_tcp = 6"
definition sk_drop :: u32 where "sk_drop = 0"
definition sk_pass :: u32 where "sk_pass = 1"

definition u32_bytes :: "bool \<Rightarrow> u32 \<Rightarrow> bytes" where
  "u32_bytes le k =
     (let bs = [ucast k, ucast (drop_bit 8 k), ucast (drop_bit 16 k), ucast (drop_bit 24 k)]
      in if le then bs else rev bs)"

subsection \<open>The Rust program\<close>

definition dispatch :: "'sk helpers \<Rightarrow> bpf_sk_lookup \<Rightarrow> u32 \<times> 'sk call list" where
  "dispatch h ctx =
     (if sk_protocol ctx \<noteq> ipproto_tcp then (sk_pass, [])
      else
        let port = (ucast (local_port ctx) :: u16);
            port_key = port_bytes (h_le h) port
        in case h_open_ports h port_key of
             None \<Rightarrow> (sk_pass, [LookupPort port_key])
           | Some slot \<Rightarrow>
               let key = (ucast (first_byte slot) :: u32)
               in if key > 1 then (sk_drop, [LookupPort port_key])
                  else
                    let sock_key = u32_bytes (h_le h) key in
                    case h_redir_socket h sock_key of
                      None \<Rightarrow> (sk_drop, [LookupPort port_key, LookupSocket sock_key None])
                    | Some sk \<Rightarrow>
                        let e = h_assign h ctx sk
                        in (if e = 0 then sk_pass else sk_drop,
                            [LookupPort port_key, LookupSocket sock_key (Some sk), Assign sk e, Release sk]))"

subsection \<open>The C program\<close>

definition dispatch_c :: "'sk helpers \<Rightarrow> bpf_sk_lookup \<Rightarrow> u32 \<times> 'sk call list" where
  "dispatch_c h ctx =
     (if sk_protocol ctx \<noteq> ipproto_tcp then (sk_pass, [])
      else
        let port_key = port_bytes (h_le h) (ucast (local_port ctx)); c1 = [LookupPort port_key] in
        case h_open_ports h port_key of
          None \<Rightarrow> (sk_pass, c1)
        | Some slot \<Rightarrow>
            let key = (ucast (first_byte slot) :: u32) in
            if key > 1 then (sk_drop, c1)
            else
              let sock_key = u32_bytes (h_le h) key; sk = h_redir_socket h sock_key;
                  c2 = c1 @ [LookupSocket sock_key sk] in
              (case sk of
                 None \<Rightarrow> (sk_drop, c2)
               | Some s \<Rightarrow>
                   let e = h_assign h ctx s; c3 = c2 @ [Assign s e] @ [Release s]
                   in (if e \<noteq> 0 then sk_drop else sk_pass, c3)))"

subsection \<open>What happens to the connection\<close>

text \<open>
  A program that drops ends the lookup with no socket; one that passes selects the socket it
  assigned, and leaves the lookup to the ordinary listeners when it assigned none.
\<close>

datatype 'sk fate = Dropped | Steered 'sk | Ordinary

fun assigned :: "'sk call list \<Rightarrow> 'sk option" where
  "assigned [] = None"
| "assigned (Assign sk e # cs) = 
     (case assigned cs of Some s \<Rightarrow> Some s | None \<Rightarrow> if e = 0 then Some sk else None)"
| "assigned (_ # cs) = assigned cs"

definition fate :: "u32 \<times> 'sk call list \<Rightarrow> 'sk fate" where
  "fate run =
     (if fst run = sk_drop then Dropped
      else case assigned (snd run) of None \<Rightarrow> Ordinary | Some sk \<Rightarrow> Steered sk)"

text \<open>The policy the program implements, on ports and slots.\<close>

definition steering_fate :: "(port \<Rightarrow> slot option) \<Rightarrow> (slot \<Rightarrow> 'sk option) \<Rightarrow> ('sk \<Rightarrow> bool) \<Rightarrow>
    bool \<Rightarrow> port \<Rightarrow> 'sk fate" where
  "steering_fate slots socks accepts tcp p =
     (if \<not> tcp then Ordinary
      else case slots p of
          None \<Rightarrow> Ordinary
        | Some s \<Rightarrow>
            if s > 1 then Dropped
            else (case socks s of None \<Rightarrow> Dropped | Some sk \<Rightarrow> if accepts sk then Steered sk else Dropped))"

definition helper_slots :: "'sk helpers \<Rightarrow> port \<Rightarrow> slot option" where
  "helper_slots h p = map_option first_byte (h_open_ports h (port_bytes (h_le h) p))"

definition helper_socks :: "'sk helpers \<Rightarrow> slot \<Rightarrow> 'sk option" where
  "helper_socks h s = h_redir_socket h (u32_bytes (h_le h) (ucast s))"

lemma ucast_slot_le: "(ucast (s :: slot) :: u32) > 1 \<longleftrightarrow> s > 1"
proof -
  have "(ucast s :: u32) > 1 \<longleftrightarrow> unat (ucast s :: u32) > 1" by (simp add: word_less_nat_alt)
  also have "unat (ucast s :: u32) = unat s"
  proof -
    have "unat s < 256" using unsigned_less [of s, where ?'a = nat] by simp
    then have "take_bit 32 (unat s) = unat s" by (intro take_bit_nat_eq_self) simp
    then show ?thesis by (simp add: unsigned_ucast_eq)
  qed
  finally show ?thesis by (simp add: word_less_nat_alt)
qed

lemma dispatch_fate:
  "fate (dispatch h ctx) =
     steering_fate (helper_slots h) (helper_socks h) (\<lambda>sk. h_assign h ctx sk = 0)
       (sk_protocol ctx = ipproto_tcp) (ucast (local_port ctx))"
  by (simp add: dispatch_def fate_def steering_fate_def helper_slots_def helper_socks_def Let_def
      ucast_slot_le sk_drop_def sk_pass_def split: option.splits)

text \<open>References: every socket that a lookup handed out, and every one that was given back.\<close>

fun acquired :: "'sk call list \<Rightarrow> 'sk list" where
  "acquired [] = []"
| "acquired (LookupSocket k (Some sk) # cs) = sk # acquired cs"
| "acquired (_ # cs) = acquired cs"

fun released :: "'sk call list \<Rightarrow> 'sk list" where
  "released [] = []"
| "released (Release sk # cs) = sk # released cs"
| "released (_ # cs) = released cs"

text \<open>Every prefix holds at least what it uses, and the whole run holds nothing at the end.\<close>

fun refs_ok :: "'sk list \<Rightarrow> 'sk call list \<Rightarrow> bool" where
  "refs_ok held [] \<longleftrightarrow> held = []"
| "refs_ok held (LookupSocket k (Some sk) # cs) \<longleftrightarrow> refs_ok (sk # held) cs"
| "refs_ok held (Assign sk e # cs) \<longleftrightarrow> sk \<in> set held \<and> refs_ok held cs"
| "refs_ok held (Release sk # cs) \<longleftrightarrow> sk \<in> set held \<and> refs_ok (remove1 sk held) cs"
| "refs_ok held (_ # cs) \<longleftrightarrow> refs_ok held cs"

lemma dispatch_refs: "refs_ok [] (snd (dispatch h ctx))"
  by (simp add: dispatch_def Let_def split: option.splits)

lemma dispatch_verdict: "fst (dispatch h ctx) = sk_pass \<or> fst (dispatch h ctx) = sk_drop"
  by (simp add: dispatch_def Let_def split: option.splits)

lemma dispatch_c_eq: "dispatch_c h ctx = dispatch h ctx"
  by (auto simp: dispatch_c_def dispatch_def Let_def split: option.splits)

end
