(* ===== verification/Openresty_Facts.thy ===== *)
theory Openresty_Facts
  imports Openresty Dispatch
begin

text \<open>
  The socket map follows the list of held sockets through every rescan, a wait ends at the first turn
  that finds the listener, is cancelled or is late, and a start steers its ports to the listeners.
\<close>

subsection \<open>The socket map follows the held sockets\<close>

definition slot_key :: "'m kops \<Rightarrow> nat \<Rightarrow> bytes" where
  "slot_key ops i = ne_bytes (k_le ops) 4 (of_nat i :: u32)"

definition fd_value :: "'m kops \<Rightarrow> 'm \<Rightarrow> 32 word \<Rightarrow> bytes" where
  "fd_value ops m fd =
     (let b = ne_bytes (k_le ops) 8 (scast fd :: u64); n = min (k_value_size ops m) (length b)
      in take n b @ replicate (k_value_size ops m - n) 0)"

lemma register_listen_fd_eq:
  "register_listen_fd ops fd slot m =
     (if slot > 1 then (Inl (UpgradeE (SlotRange slot)), m)
      else (case k_update ops (ne_bytes (k_le ops) 4 slot) (fd_value ops m fd) m of
          (Inl e, n) \<Rightarrow> (Inl (Ctx (Doing ''sockmap put slot'') (KernE e)), n)
        | (Inr _, n) \<Rightarrow> (Inr (), n)))"
  by (simp add: register_listen_fd_def fd_value_def Let_def)

lemma slot_key_inj: "slot_key ops 0 \<noteq> slot_key ops 1"
  by (auto simp: slot_key_def ne_bytes_def Let_def upt_rec)

text \<open>Every held socket is the one registered in its slot.\<close>

definition tracks :: "'m kops \<Rightarrow> ('m \<Rightarrow> bmap) \<Rightarrow> 'm \<Rightarrow> captured_listen list \<Rightarrow> bool" where
  "tracks ops view m held \<longleftrightarrow> length held \<le> 2 \<and>
     (\<forall>i < length held. view m (slot_key ops i) = Some (fd_value ops m (cl_fd (held ! i))))"

text \<open>The socket is healthy, or the one that a search of the target finds.\<close>

definition live_listener :: "proc_view \<Rightarrow> string \<Rightarrow> captured_listen \<Rightarrow> bool" where
  "live_listener v target c \<longleftrightarrow>
     (\<exists>host port. split_target target = Inr (host, port) \<and>
        (held_is_healthy v host port c = Inr True \<or>
         (\<exists>fresh. find_listen_socket_file v host port = Inr fresh \<and>
            cl_inode fresh = cl_inode c \<and> cl_owner_pid fresh = cl_owner_pid c)))"

lemma rescan_slot_cases:
  assumes "rescan_slot ops v target slot held m = (r, n)"
  obtains e where "r = Inl e" "n = m"
  | c where "r = Inr None" "n = m" "held = Some c" "live_listener v target c"
  | c where "r = Inr (Some c)" "register_listen_fd ops (cl_fd c) slot m = (Inr (), n)" "live_listener v target c"
  | c :: captured_listen and e where "r = Inl e" "register_listen_fd ops (cl_fd c) slot m = (Inl e, n)"
proof (cases "split_target target")
  case (Inl e)
  then show ?thesis using assms that(1) by (auto simp: rescan_slot_def sbind_def lift_res_def)
next
  case (Inr hp)
  obtain host port where hp: "split_target target = Inr (host, port)" using Inr by (cases hp) auto
  define check where "check = (case held of None \<Rightarrow> Inr False | Some old \<Rightarrow> held_is_healthy v host port old)"
  have run: "sbind (lift_res check) (\<lambda>healthy.
       if healthy then ret None
       else sbind (lift_res (find_listen_socket_file v host port)) (\<lambda>fresh.
         if (case held of None \<Rightarrow> False
             | Some old \<Rightarrow> cl_inode old = cl_inode fresh \<and> cl_owner_pid old = cl_owner_pid fresh)
         then ret None
         else sbind (register_listen_fd ops (cl_fd fresh) slot) (\<lambda>_. ret (Some fresh)))) m = (r, n)"
    using assms by (simp add: rescan_slot_def check_def hp sbind_def lift_res_def)
  show ?thesis
  proof (cases check)
    case (Inl e)
    then show ?thesis using run that(1) by (auto simp: sbind_def lift_res_def)
  next
    case (Inr healthy)
    show ?thesis
    proof (cases healthy)
      case True
      then obtain c where "held = Some c" "held_is_healthy v host port c = Inr True"
        using Inr by (auto simp: check_def split: option.splits)
      then show ?thesis using run True Inr that(2) hp by (auto simp: sbind_def lift_res_def ret_def live_listener_def)
    next
      case False
      show ?thesis
      proof (cases "find_listen_socket_file v host port")
        case (Inl e)
        then show ?thesis using run False \<open>check = Inr healthy\<close> that(1) by (auto simp: sbind_def lift_res_def)
      next
        case (Inr fresh)
        have rest: "(if (case held of None \<Rightarrow> False
             | Some old \<Rightarrow> cl_inode old = cl_inode fresh \<and> cl_owner_pid old = cl_owner_pid fresh)
           then ret None else sbind (register_listen_fd ops (cl_fd fresh) slot) (\<lambda>_. ret (Some fresh))) m = (r, n)"
          using run False \<open>check = Inr healthy\<close> Inr by (simp add: sbind_def lift_res_def)
        have live: "live_listener v target c" if "cl_inode c = cl_inode fresh" "cl_owner_pid c = cl_owner_pid fresh" for c
          using hp Inr that by (auto simp: live_listener_def)
        show ?thesis
        proof (cases "register_listen_fd ops (cl_fd fresh) slot m")
          case (Pair x k)
          then show ?thesis
            using rest live that(2-4) by (cases x) (auto simp: sbind_def ret_def split: option.splits if_splits)
        qed
      qed
    qed
  qed
qed

context kernel_map
begin

lemma fd_value_same: "same m n \<Longrightarrow> fd_value ops n fd = fd_value ops m fd"
  using same_sizes by (simp add: fd_value_def)

text \<open>Registering puts the descriptor into its slot or leaves the map as it was.\<close>

lemma register_cases:
  assumes "register_listen_fd ops fd (of_nat i) m = (r, n)" "i < 2"
  shows "same m n \<and> view n = (if is_ok r then (view m)(slot_key ops i := Some (fd_value ops m fd)) else view m)"
proof -
  have "\<not> (of_nat i :: u32) > 1" using assms(2) by (cases i) (auto simp: less_2_cases_iff)
  then show ?thesis
    using assms(1) update_ok update_err by (auto simp: register_listen_fd_eq slot_key_def split: prod.splits sum.splits)
qed

lemma slot_keys: "i < 2 \<Longrightarrow> j < 2 \<Longrightarrow> slot_key ops i = slot_key ops j \<longleftrightarrow> i = j"
  using slot_key_inj [of ops] by (auto simp: less_2_cases_iff)

lemma tracks_same: "tracks ops view m held \<Longrightarrow> same m n \<Longrightarrow> view n = view m \<Longrightarrow> tracks ops view n held"
  by (simp add: tracks_def fd_value_same)

lemma tracks_put:
  assumes "tracks ops view m held" "i \<le> length held" "i < 2" "same m n"
    "view n = (view m)(slot_key ops i := Some (fd_value ops m (cl_fd c)))"
  shows "tracks ops view n (put_held i c held)"
  using assms slot_keys
  by (auto simp: tracks_def put_held_def fd_value_same nth_append nth_list_update less_Suc_eq)

lemma rescan_at_keeps:
  assumes "tracks ops view m held" "i \<le> length held" "i < 2" "rescan_at ops v target i (m, held) = (r, n, held')"
  shows "tracks ops view n held' \<and> same m n \<and> length held \<le> length held' \<and>
     (\<forall>j. j \<noteq> i \<longrightarrow> j < length held \<longrightarrow> held' ! j = held ! j) \<and>
     (\<forall>k. k \<noteq> slot_key ops i \<longrightarrow> view n k = view m k) \<and>
     (is_ok r \<longrightarrow> i < length held' \<and> live_listener v target (held' ! i))"
proof -
  obtain q k where run: "rescan_slot ops v target (of_nat i) (if i < length held then Some (held ! i) else None) m = (q, k)"
    by fastforce
  from run show ?thesis
  proof (cases rule: rescan_slot_cases)
    case (1 e)
    then show ?thesis using assms run same_refl by (auto simp: rescan_at_def)
  next
    case (2 c)
    then show ?thesis using assms run same_refl by (auto simp: rescan_at_def split: if_splits)
  next
    case (3 c)
    have "same m k" "view k = (view m)(slot_key ops i := Some (fd_value ops m (cl_fd c)))"
      using register_cases [OF 3(2) assms(3)] by auto
    moreover have "r = Inr 1" "n = k" "held' = put_held i c held" using assms(4) run 3(1) by (simp_all add: rescan_at_def)
    ultimately show ?thesis
      using tracks_put [OF assms(1-3)] 3(3) assms(2) by (auto simp: put_held_def nth_append)
  next
    case (4 c e)
    have "same m k" "view k = view m" using register_cases [OF 4(2) assms(3)] by auto
    moreover have "r = Inl e" "n = k" "held' = held" using assms(4) run 4(1) by (simp_all add: rescan_at_def)
    ultimately show ?thesis using tracks_same [OF assms(1)] by auto
  qed
qed

lemma rescan_held_keeps:
  assumes "tracks ops view m held" "rescan_held ops v v_tls target tls_target (m, held) = (r, n, held')"
  shows "tracks ops view n held' \<and> same m n \<and>
     (\<forall>k. k \<notin> {slot_key ops 0, slot_key ops 1} \<longrightarrow> view n k = view m k) \<and>
     (is_ok r \<longrightarrow> held' \<noteq> [] \<and> live_listener v target (held' ! 0) \<and>
        (\<forall>tls. tls_target = Some tls \<longrightarrow> length held' = 2 \<and> live_listener v_tls tls (held' ! 1)))"
proof -
  obtain r0 m0 h0 where first: "rescan_at ops v target 0 (m, held) = (r0, m0, h0)" by (metis prod_cases3)
  note k0 = rescan_at_keeps [OF assms(1) _ _ first]
  show ?thesis
  proof (cases "is_ok r0 \<and> tls_target \<noteq> None")
    case False
    then have "n = m0" "held' = h0" "is_ok r \<longrightarrow> is_ok r0 \<and> tls_target = None"
      using assms(2) first by (auto simp: rescan_held_def sbind_def ret_def split: sum.splits option.splits)
    then show ?thesis using k0 by auto
  next
    case True
    then obtain a tls where a: "r0 = Inr a" "tls_target = Some tls" by (cases r0) auto
    obtain r1 m1 h1 where second: "rescan_at ops v_tls tls 1 (m0, h0) = (r1, m1, h1)" by (metis prod_cases3)
    have res: "n = m1" "held' = h1" "is_ok r = is_ok r1"
      using assms(2) first second a by (auto simp: rescan_held_def sbind_def ret_def split: sum.splits)
    have h0: "tracks ops view m0 h0" "1 \<le> length h0" using k0 a by (auto simp: Suc_le_eq)
    note k1 = rescan_at_keeps [OF h0 _ second]
    have "h1 ! 0 = h0 ! 0" using k1 h0(2) by auto
    moreover have "length h1 \<le> 2" using k1 by (auto simp: tracks_def)
    ultimately show ?thesis using k0 k1 res a same_trans by auto
  qed
qed

end

subsection \<open>Waiting\<close>

text \<open>The turn at which a wait ends.\<close>

definition wait_ends :: "waiting \<Rightarrow> string \<Rightarrow> port \<Rightarrow> nat \<Rightarrow> nat \<Rightarrow> bool" where
  "wait_ends w host port wait i \<longleftrightarrow>
     wt_shutdown w i \<or> is_ok (find_listen_socket_file (wt_view w i) host port) \<or> wt_clock w i > wait"

definition wait_result :: "waiting \<Rightarrow> string \<Rightarrow> string \<Rightarrow> port \<Rightarrow> nat \<Rightarrow> err + captured_listen" where
  "wait_result w target host port i =
     (if wt_shutdown w i then Inl (ListenE (WaitCancelled target))
      else (case find_listen_socket_file (wt_view w i) host port of
          Inr c \<Rightarrow> Inr c | Inl _ \<Rightarrow> Inl (ListenE (WaitExpired target))))"

lemma wait_loop_ends:
  assumes "wait_ends w host port wait (i + n)" "\<forall>j < n. \<not> wait_ends w host port wait (i + j)"
  shows "wait_loop w target host port wait i = Some (wait_result w target host port (i + n))"
  using assms
proof (induction n arbitrary: i)
  case 0
  then show ?case
    by (subst wait_loop.simps) (auto simp: wait_ends_def wait_result_def split: sum.splits)
next
  case (Suc n)
  have "\<not> wait_ends w host port wait i" using Suc.prems(2) by (metis add_0_right zero_less_Suc)
  then have "wait_loop w target host port wait i = wait_loop w target host port wait (Suc i)"
    by (subst wait_loop.simps) (auto simp: wait_ends_def split: sum.splits)
  also have "\<dots> = Some (wait_result w target host port (Suc i + n))"
  proof (rule Suc.IH)
    show "wait_ends w host port wait (Suc i + n)" using Suc.prems(1) by simp
    show "\<forall>j < n. \<not> wait_ends w host port wait (Suc i + j)"
      using Suc.prems(2) by (metis Suc_less_eq add_Suc_right add_Suc)
  qed
  finally show ?case by simp
qed

lemma wait_loop_total:
  assumes "wait_ends w host port wait k"
  shows "\<exists>n \<le> k. wait_ends w host port wait n \<and> (\<forall>j < n. \<not> wait_ends w host port wait j) \<and>
     wait_loop w target host port wait 0 = Some (wait_result w target host port n)"
proof -
  from ex_least_nat_le [where P = "wait_ends w host port wait", OF assms]
  obtain n where "n \<le> k" "\<forall>j < n. \<not> wait_ends w host port wait j" "wait_ends w host port wait n" by blast
  then show ?thesis using wait_loop_ends [of w host port wait 0 n target] by auto
qed

subsection \<open>A start\<close>

lemma u32_bytes_ne: "u32_bytes le x = ne_bytes le 4 x"
  by (simp add: u32_bytes_def ne_bytes_def Let_def upt_rec)

context kernel_map
begin

lemma serve_slot_spec:
  assumes "serve_slot ops fd slot ports (op, rd) = (Inr (), op', rd')" "port_layout ops op" "slot = redir_primary \<or> slot = redir_tls"
  shows "same op op' \<and> ports_of op' = steer ports slot (ports_of op) \<and> same rd rd' \<and>
     view rd' = (view rd)(u32_bytes (k_le ops) (ucast slot) := Some (fd_value ops rd fd))"
proof -
  obtain m where m: "register_listen_fd ops fd (ucast slot) rd = (Inr (), m)" "rd' = m"
    "put_each ops slot ports op = (Inr (), op')"
    using assms(1) by (auto simp: serve_slot_def sbind_def on_redir_socket_def on_open_ports_def
        open_steered_ports_put_each split: prod.splits sum.splits)
  obtain i where i: "(ucast slot :: u32) = of_nat i" "i < 2"
    using assms(3) by (auto simp: redir_primary_def redir_tls_def intro: that [of 0] that [of 1])
  show ?thesis
    using register_cases [OF m(1) [unfolded i(1)] i(2)] put_each_spec [OF m(3) assms(2)] m(2)
    by (auto simp: slot_key_def u32_bytes_ne i(1))
qed

end

text \<open>The listener that ended a wait was found at a turn that no shutdown preceded.\<close>

definition waited_for :: "waiting \<Rightarrow> string \<Rightarrow> captured_listen \<Rightarrow> bool" where
  "waited_for w target c \<longleftrightarrow> (\<exists>n host port. split_target target = Inr (host, port) \<and>
     (\<forall>i \<le> n. \<not> wt_shutdown w i) \<and> find_listen_socket_file (wt_view w n) host port = Inr c)"

lemma wait_loop_Some:
  assumes "wait_loop w target host port wait i = Some r"
  shows "r = Inr c \<longrightarrow>
     (\<exists>n \<ge> i. (\<forall>j. i \<le> j \<longrightarrow> j \<le> n \<longrightarrow> \<not> wt_shutdown w j) \<and> find_listen_socket_file (wt_view w n) host port = Inr c)"
proof (induction w target host port wait i r rule: wait_loop.raw_induct)
  case (1 rec w target host port wait i r)
  show ?case
  proof
    assume r: "r = Inr c"
    then have live: "\<not> wt_shutdown w i" using 1(2) by (auto split: if_splits)
    show "\<exists>n \<ge> i. (\<forall>j. i \<le> j \<longrightarrow> j \<le> n \<longrightarrow> \<not> wt_shutdown w j) \<and> find_listen_socket_file (wt_view w n) host port = Inr c"
    proof (cases "find_listen_socket_file (wt_view w i) host port")
      case (Inl e)
      have "(if wait < wt_clock w i then Some (Inl (ListenE (WaitExpired target)))
          else rec w target host port wait (Suc i)) = Some (Inr c)"
        using 1(2) unfolding r Inl if_not_P [OF live] sum.case .
      then have "rec w target host port wait (Suc i) = Some r" unfolding r by (split if_split_asm) simp_all
      from 1(1) [OF this, THEN mp, OF r] obtain n where n: "Suc i \<le> n" "\<forall>j. Suc i \<le> j \<longrightarrow> j \<le> n \<longrightarrow> \<not> wt_shutdown w j"
        "find_listen_socket_file (wt_view w n) host port = Inr c" by (elim exE conjE)
      then have "\<forall>j. i \<le> j \<longrightarrow> j \<le> n \<longrightarrow> \<not> wt_shutdown w j" using live by (metis Suc_leI le_eq_less_or_eq)
      then show ?thesis using n by (metis Suc_leD)
    next
      case (Inr d)
      then have "c = d" using 1(2) live r by simp
      then show ?thesis using Inr live by (auto intro!: exI [of _ i])
    qed
  qed
qed (rule assms)

lemma wait_loop_Inr:
  "wait_loop w target host port wait i = Some (Inr c) \<Longrightarrow>
     \<exists>n \<ge> i. (\<forall>j. i \<le> j \<longrightarrow> j \<le> n \<longrightarrow> \<not> wt_shutdown w j) \<and> find_listen_socket_file (wt_view w n) host port = Inr c"
  using wait_loop_Some by blast

lemma wait_for_Inr:
  assumes "wait_for_listen_socket w target wait = Some (Inr c)"
  shows "waited_for w target c"
proof -
  obtain host port where hp: "split_target target = Inr (host, port)" "wait_loop w target host port wait 0 = Some (Inr c)"
    using assms by (auto simp: wait_for_listen_socket_def split: sum.splits)
  from wait_loop_Inr [OF this(2)] obtain n where "\<forall>j. 0 \<le> j \<longrightarrow> j \<le> n \<longrightarrow> \<not> wt_shutdown w j"
    "find_listen_socket_file (wt_view w n) host port = Inr c" by blast
  with hp(1) show ?thesis unfolding waited_for_def by (intro exI [of _ n] exI [of _ host] exI [of _ port]) simp
qed

context kernel_map
begin

lemma run_openresty_spec:
  assumes run: "run_openresty_mode ops w w_tls target ports tls_target tls_ports wait (op, rd) = Some (Inr held, op', rd')"
    and lay: "port_layout ops op"
  shows "\<exists>http. held ! 0 = http \<and> waited_for w target http \<and> same op op' \<and> same rd rd' \<and>
     view rd' (u32_bytes (k_le ops) 0) = Some (fd_value ops rd' (cl_fd http)) \<and>
     (if tls_ports = [] then held = [http] \<and> ports_of op' = steer ports redir_primary (ports_of op)
      else \<exists>tls. held = [http, tls] \<and> waited_for w_tls tls_target tls \<and>
        ports_of op' = steer tls_ports redir_tls (steer ports redir_primary (ports_of op)) \<and>
        view rd' (u32_bytes (k_le ops) 1) = Some (fd_value ops rd' (cl_fd tls)))"
proof -
  obtain http op1 rd1 where http: "wait_for_listen_socket w target wait = Some (Inr http)"
    "serve_slot ops (cl_fd http) redir_primary ports (op, rd) = (Inr (), op1, rd1)"
    using run by (auto simp: run_openresty_mode_def split: option.splits sum.splits prod.splits)
  have s1: "same op op1" "ports_of op1 = steer ports redir_primary (ports_of op)" "same rd rd1"
    "view rd1 = (view rd)(u32_bytes (k_le ops) 0 := Some (fd_value ops rd (cl_fd http)))"
    using serve_slot_spec [OF http(2) lay] by (simp_all add: redir_primary_def)
  show ?thesis
  proof (cases "tls_ports = []")
    case True
    then have "held = [http]" "op' = op1" "rd' = rd1" using run http by (simp_all add: run_openresty_mode_def)
    then show ?thesis using s1 True wait_for_Inr [OF http(1)] by (simp add: fd_value_same)
  next
    case False
    then obtain tls where tls: "wait_for_listen_socket w_tls tls_target wait = Some (Inr tls)"
      "serve_slot ops (cl_fd tls) redir_tls tls_ports (op1, rd1) = (Inr (), op', rd')" "held = [http, tls]"
      using run http by (auto simp: run_openresty_mode_def split: option.splits sum.splits prod.splits)
    have lay1: "port_layout ops op1" using same_layout [OF s1(1) lay] .
    have s2: "same op1 op'" "ports_of op' = steer tls_ports redir_tls (ports_of op1)" "same rd1 rd'"
      "view rd' = (view rd1)(u32_bytes (k_le ops) 1 := Some (fd_value ops rd1 (cl_fd tls)))"
      using serve_slot_spec [OF tls(2) lay1] by (simp_all add: redir_tls_def)
    have "u32_bytes (k_le ops) 0 \<noteq> u32_bytes (k_le ops) 1" by (simp add: u32_bytes_def Let_def)
    moreover have "same rd rd'" using same_trans [OF s1(3) s2(3)] .
    ultimately show ?thesis
      using s1 s2 tls(3) False wait_for_Inr [OF http(1)] wait_for_Inr [OF tls(1)] same_trans [OF s1(1) s2(1)]
      by (auto simp: fd_value_same)
  qed
qed

end

end
