(* ===== verification/Main_Loop.thy ===== *)
theory Main_Loop
  imports Run_Ctl_Facts Openresty_Facts
begin

text \<open>
  \<open>rust/loader/src/main.rs\<close>: the map edits of the long-running command line, the start of a loader
  and its loop. A start takes the lock, loads or seeds the desired state, loads and attaches the
  program, pins the maps, registers the listeners and reconciles; the loop reloads, looks for the
  listeners again, and runs beside the control socket. The kernel answers are a record of parameters.
\<close>

subsection \<open>Map edits\<close>

definition map_edit_port_lists :: "long_running_args \<Rightarrow> err + port list \<times> port list" where
  "map_edit_port_lists args =
     rbind (if a_ports_set args
            then with_context (InFlag ''ports'') (parse_port_list_allow_empty (a_ports_raw args)) else Inr []) (\<lambda>http.
     rbind (if a_tls_ports_set args
            then with_context (InFlag ''tls-ports'') (parse_port_list_allow_empty (a_tls_ports_raw args)) else Inr [])
       (\<lambda>tls. Inr (http, tls)))"

definition policy_file_for :: "long_running_args \<Rightarrow> path" where
  "policy_file_for args =
     (case a_policy_file args of Some v \<Rightarrow> path_of v | None \<Rightarrow> default_path (path_of (a_ports_file args)))"

definition run_map_edit :: "'m kops \<Rightarrow> long_running_args \<Rightarrow> ('m, unit) cmd" where
  "run_map_edit ops args =
     sbind (lift_res (map_edit_port_lists args)) (\<lambda>(http_ports, tls_ports).
     case a_mode args of
       ClosePort \<Rightarrow>
         if http_ports = [] \<and> tls_ports = [] then fail (ListenE (NeedsPortLists ''close-port''))
         else drop_value (close_pinned_ports ops (path_of (a_pin_dir args)) (path_of (a_ports_file args))
                (http_ports @ tls_ports))
     | OpenPort \<Rightarrow>
         if http_ports = [] \<and> tls_ports = [] then fail (ListenE (NeedsPortLists ''open-port''))
         else if a_tenant args = [] \<or> a_site args = [] then fail (ListenE OpenUnbound)
         else open_pinned_ports ops (path_of (a_pin_dir args)) (path_of (a_ports_file args)) http_ports tls_ports
                \<lparr>b_slot = redir_primary, b_tenant = a_tenant args, b_site = a_site args, b_cert = a_cert args,
                 b_policy = a_policy args\<rparr> (policy_file_for args)
     | _ \<Rightarrow> drop_value (list_pinned_ports ops (path_of (a_pin_dir args)) False))"

subsection \<open>Preparing a start\<close>

definition lock_dir :: path where "lock_dir = [''/'', ''run'', ''waf-sklookup'']"

definition lock_path :: path where "lock_path = lock_dir @ [''loader.lock'']"

text \<open>The lock file is created when it is not there and never truncated; \<open>flock\<close> is an argument.\<close>

definition acquire_loader_lock :: "bool \<Rightarrow> (fsys, unit) act" where
  "acquire_loader_lock locked =
     sbind (in_context (Doing ''create lock dir'') (fs_do (Mkdir lock_dir))) (\<lambda>_.
     sbind (gets (fs_exists lock_path)) (\<lambda>there.
     sbind (if there then ret () else in_context (Doing ''open'') (fs_do (Create lock_path))) (\<lambda>_.
       if locked then ret () else fail (ListenE (LoaderLocked lock_path)))))"

definition start_policy :: "long_running_args \<Rightarrow> fsys \<Rightarrow> err + policy" where
  "start_policy args fs =
     rbind (policy_load (policy_file_for args) fs) (\<lambda>pol.
       Inr (if a_mode args = OpenResty
            then reserve_listen_target (reserve_listen_target pol (a_target args)) (a_tls_target args) else pol))"

definition seed_state :: "long_running_args \<Rightarrow> policy \<Rightarrow> err + desired_ports" where
  "seed_state args pol =
     (if a_tenant args = [] \<or> a_site args = [] then Inl (ListenE SeedUnbound)
      else
        rbind (with_context (InFlag ''ports'') (parse_port_list_allow_empty (a_ports_raw args))) (\<lambda>steered.
        rbind (with_context (InFlag ''tls-ports'') (parse_port_list_allow_empty (a_tls_ports_raw args))) (\<lambda>tls.
        rbind (from_lists steered tls (a_tenant args) (a_site args)) (\<lambda>seeded.
        let state = map (\<lambda>(p, b). (p, b\<lparr>b_cert := a_cert args, b_policy := a_policy args\<rparr>)) seeded in
        rbind (validate state pol) (\<lambda>_. Inr state)))))"

definition desired_at_start :: "nat \<Rightarrow> long_running_args \<Rightarrow> policy \<Rightarrow> (fsys, desired_ports) act" where
  "desired_at_start pid args pol fs =
     (let pf = path_of (a_ports_file args) in
      if fs_exists pf fs then
        (rbind (with_context (Doing ''open desired ports file'') (fs_read pf fs)) (\<lambda>body.
           with_context (Doing ''read desired ports file'') (load_from_reader_with_policy body pol)), fs)
      else sbind (lift_res (seed_state args pol)) (\<lambda>state.
             sbind (desired_write pid pf state) (\<lambda>_. ret state)) fs)"

definition slot_ports :: "slot \<Rightarrow> desired_ports \<Rightarrow> port list" where
  "slot_ports slot d = map fst (filter (\<lambda>e. b_slot (snd e) = slot) d)"

text \<open>\<open>se_signals\<close> is what the registrations of the five signal handlers return.\<close>

record 'm start_env =
  se_ops :: "'m kops"
  se_locked :: bool
  se_load :: load_env
  se_fresh :: "map_id \<Rightarrow> 'm"
  se_bind :: "string \<Rightarrow> err + 32 word"
  se_dup :: "32 word \<Rightarrow> err + 32 word"
  se_nonblocking :: "32 word \<Rightarrow> err + unit"
  se_signals :: "err + unit"
  se_wait :: waiting
  se_wait_tls :: waiting

definition prepare :: "'m start_env \<Rightarrow> long_running_args \<Rightarrow> ('m host, desired_ports \<times> loaded_bpf) act" where
  "prepare env args =
     sbind (in_world (on_fs (acquire_loader_lock (se_locked env)))) (\<lambda>_.
     sbind (in_world (getr (\<lambda>w. start_policy args (w_fs w)))) (\<lambda>pol.
     sbind (in_world (gets w_pid)) (\<lambda>pid.
     sbind (in_world (on_fs (desired_at_start pid args pol))) (\<lambda>desired.
     sbind (in_bpf (load_and_attach (se_load env) (a_bpf_impl args) (path_of (a_pin_dir args)))) (\<lambda>bpf.
     sbind (in_bpf (pin_or_warn bpf (path_of (a_pin_dir args)) (a_mode args = OpenResty))) (\<lambda>_.
     sbind (lift_res (se_signals env)) (\<lambda>_.
       ret (desired, bpf))))))))"

subsection \<open>The maps of a running loader\<close>

text \<open>
  A loader holds its two maps by descriptor. A pinned one is the world's, which commands change too;
  the other is the loader's own.
\<close>

definition held_map :: "path \<Rightarrow> 'm \<Rightarrow> 'm world \<Rightarrow> 'm" where
  "held_map p own w = (case w_pins w p of Some m \<Rightarrow> m | None \<Rightarrow> own)"

definition keep_map :: "path \<Rightarrow> 'm \<Rightarrow> 'm world \<Rightarrow> 'm world" where
  "keep_map p m w = (case w_pins w p of Some _ \<Rightarrow> w\<lparr>w_pins := (w_pins w)(p := Some m)\<rparr> | None \<Rightarrow> w)"

text \<open>A map that this start pinned is in the world from then on, as it was created.\<close>

definition show_pin :: "path \<Rightarrow> 'm \<Rightarrow> 'm host \<Rightarrow> 'm host" where
  "show_pin p m h =
     (if is_map_pin (bw_pins (ho_bpf h) p) \<and> w_pins (ho_world h) p = None
      then h\<lparr>ho_world := (ho_world h)\<lparr>w_pins := (w_pins (ho_world h))(p := Some m)\<rparr>\<rparr> else h)"

record 'm running =
  rn_sock :: "'m sock"
  rn_held :: "captured_listen list"
  rn_own :: "'m \<times> 'm"

definition own_maps :: "path \<Rightarrow> 'm \<times> 'm \<Rightarrow> 'm world \<Rightarrow> 'm \<times> 'm" where
  "own_maps dir own w =
     (held_map (open_ports_path dir) (fst own) w, held_map (redir_socket_path dir) (snd own) w)"

definition keep_maps :: "path \<Rightarrow> 'm \<times> 'm \<Rightarrow> 'm world \<Rightarrow> 'm world" where
  "keep_maps dir maps w = keep_map (redir_socket_path dir) (snd maps) (keep_map (open_ports_path dir) (fst maps) w)"

subsection \<open>Starting\<close>

definition toy_mode ::
    "'m start_env \<Rightarrow> long_running_args \<Rightarrow> port list \<Rightarrow> port list \<Rightarrow> ('m \<times> 'm, captured_listen list) act" where
  "toy_mode env args steered tls_ports =
     sbind (run_toy_mode (se_ops env) (se_bind env) (se_dup env) (se_nonblocking env) (a_listen args) steered) (\<lambda>fd.
     sbind (if tls_ports \<noteq> [] then serve_slot (se_ops env) fd redir_tls tls_ports else ret ()) (\<lambda>_. ret []))"

definition start_mode ::
    "'m start_env \<Rightarrow> long_running_args \<Rightarrow> desired_ports \<Rightarrow> 'm \<times> 'm \<Rightarrow>
      ((err + captured_listen list) \<times> 'm \<times> 'm) option" where
  "start_mode env args d s =
     (let steered = slot_ports redir_primary d; tls_ports = slot_ports redir_tls d in
      if a_mode args = Toy then Some (toy_mode env args steered tls_ports s)
      else run_openresty_mode (se_ops env) (se_wait env) (se_wait_tls env) (a_target args) steered (a_tls_target args)
             tls_ports (a_wait args) s)"

text \<open>The start up to the loop; \<open>None\<close> is a wait that never ends. An error ends the process.\<close>

definition run_attached ::
    "'m start_env \<Rightarrow> long_running_args \<Rightarrow> 'm host \<Rightarrow> ((err + desired_ports \<times> 'm running) \<times> 'm host) option" where
  "run_attached env args h =
     (let dir = path_of (a_pin_dir args) in
      case prepare env args h of
        (Inl e, h1) \<Rightarrow> Some (Inl e, h1)
      | (Inr (desired, bpf), h1) \<Rightarrow>
          (case with_maps bpf (\<lambda>open_ports redir_socket. Inr (open_ports, redir_socket)) of
             Inl e \<Rightarrow> Some (Inl e, h1)
           | Inr (i, j) \<Rightarrow>
               let h2 = show_pin (redir_socket_path dir) (se_fresh env j)
                          (show_pin (open_ports_path dir) (se_fresh env i) h1);
                   maps = own_maps dir (se_fresh env i, se_fresh env j) (ho_world h2);
                   after = (\<lambda>s. h2\<lparr>ho_world := keep_maps dir s (ho_world h2)\<rparr>) in
               (case start_mode env args desired maps of
                  None \<Rightarrow> None
                | Some (Inl e, s) \<Rightarrow> Some (Inl e, after s)
                | Some (Inr held, s) \<Rightarrow>
                    (case on_open_ports (reconcile_map (se_ops env) desired) s of
                       (Inl e, t) \<Rightarrow> Some (Inl e, after t)
                     | (Inr _, t) \<Rightarrow>
                         Some (Inr (desired,
                           \<lparr>rn_sock = \<lparr>so_world = keep_maps dir t (ho_world h2), so_audit = [], so_poisoned = False\<rparr>,
                            rn_held = held, rn_own = t\<rparr>), after t)))))"

subsection \<open>The loop\<close>

text \<open>A reload takes the mutation lock; whatever fails in it is logged and leaves the loop running.\<close>

definition reload_map :: "'m kops \<Rightarrow> long_running_args \<Rightarrow> 'm running \<Rightarrow> 'm running" where
  "reload_map ops args s =
     (let dir = path_of (a_pin_dir args); w = so_world (rn_sock s); maps = own_maps dir (rn_own s) w in
      case load_with_policy (path_of (a_ports_file args)) (policy_file_for args) (w_fs w) of
        Inl e \<Rightarrow> s
      | Inr state \<Rightarrow>
          (case on_open_ports (reconcile_map ops state) maps of
             (_, t) \<Rightarrow> s\<lparr>rn_sock := (rn_sock s)\<lparr>so_world := keep_maps dir t w\<rparr>, rn_own := t\<rparr>))"

definition reload_turn :: "'m kops \<Rightarrow> long_running_args \<Rightarrow> ('m running, unit) act" where
  "reload_turn ops args s =
     (if so_poisoned (rn_sock s) then (Inl (SockE LockPoisoned), s) else (Inr (), reload_map ops args s))"

definition rescan_turn ::
    "'m kops \<Rightarrow> proc_view \<Rightarrow> proc_view \<Rightarrow> long_running_args \<Rightarrow> bool \<Rightarrow> 'm running \<Rightarrow> 'm running" where
  "rescan_turn ops v v_tls args has_tls s =
     (let dir = path_of (a_pin_dir args); w = so_world (rn_sock s); maps = own_maps dir (rn_own s) w;
          tls = (if has_tls then Some (a_tls_target args) else None) in
      case rescan_held ops v v_tls (a_target args) tls (snd maps, rn_held s) of
        (_, redir, held) \<Rightarrow>
          s\<lparr>rn_sock := (rn_sock s)\<lparr>so_world := keep_maps dir (fst maps, redir) w\<rparr>, rn_held := held,
            rn_own := (fst maps, redir)\<rparr>)"

text \<open>
  One turn: the three flags as they are found, whether the time of the next rescan has come, and what
  \<open>/proc\<close> answers in it.
\<close>

record loop_turn =
  lt_shutdown :: bool
  lt_reload :: bool
  lt_rescan :: bool
  lt_due :: bool
  lt_view :: proc_view
  lt_view_tls :: proc_view

definition main_turn :: "'m kops \<Rightarrow> long_running_args \<Rightarrow> bool \<Rightarrow> loop_turn \<Rightarrow> ('m running, unit) act" where
  "main_turn ops args has_tls t =
     sbind (if lt_reload t then reload_turn ops args else ret ()) (\<lambda>_ s.
       if a_mode args = OpenResty \<and> (lt_rescan t \<or> lt_due t)
       then (Inr (), rescan_turn ops (lt_view t) (lt_view_tls t) args has_tls s) else (Inr (), s))"

text \<open>The loop from its \<open>i\<close>-th turn on; one that is never told to shut down is \<open>None\<close>.\<close>

partial_function (option) main_loop ::
    "'m kops \<Rightarrow> long_running_args \<Rightarrow> bool \<Rightarrow> (nat \<Rightarrow> loop_turn) \<Rightarrow> nat \<Rightarrow> 'm running \<Rightarrow> ((err + unit) \<times> 'm running) option" where
  "main_loop ops args has_tls turns i s =
     (if lt_shutdown (turns i) then Some (Inr (), s)
      else (case main_turn ops args has_tls (turns i) s of
          (Inl e, u) \<Rightarrow> Some (Inl e, u) | (Inr _, u) \<Rightarrow> main_loop ops args has_tls turns (Suc i) u))"

text \<open>
  The loop and the thread of the control socket, in any order, with other processes beside them,
  which edit files and change the map of the ports, but not the socket map.
\<close>

inductive running_step ::
    "'m kops \<Rightarrow> (string \<Rightarrow> request option) \<Rightarrow> long_running_args \<Rightarrow> bool \<Rightarrow> 'm running \<Rightarrow> 'm running \<Rightarrow> bool"
  for ops parse args has_tls where
  Turn: "main_turn ops args has_tls t s = (Inr (), u) \<Longrightarrow> running_step ops parse args has_tls s u"
| Request: "handle_conn ops parse (path_of (a_pin_dir args)) (path_of (a_ports_file args)) conn (rn_sock s) = (r, k) \<Longrightarrow>
    running_step ops parse args has_tls s (s\<lparr>rn_sock := k\<rparr>)"
| Other: "w_pins w (redir_socket_path (path_of (a_pin_dir args))) =
      w_pins (so_world (rn_sock s)) (redir_socket_path (path_of (a_pin_dir args))) \<Longrightarrow>
    running_step ops parse args has_tls s (s\<lparr>rn_sock := (rn_sock s)\<lparr>so_world := w\<rparr>\<rparr>)"

inductive_cases running_stepE: "running_step ops parse args has_tls s t"

definition reaches ::
    "'m kops \<Rightarrow> (string \<Rightarrow> request option) \<Rightarrow> long_running_args \<Rightarrow> bool \<Rightarrow> 'm running \<Rightarrow> 'm running \<Rightarrow> bool" where
  "reaches ops parse args has_tls = (running_step ops parse args has_tls)\<^sup>*\<^sup>*"

end
