(* ===== verification/Addr_Facts.thy ===== *)
theory Addr_Facts
  imports Sock_Addr "HOL-Library.Sublist"
begin

text \<open>
  The port that is reserved for a listen address is the one its text ends with, whichever of the two
  ways of reading it is taken: the readers of \<open>std::net\<close> leave the end of the text.
\<close>

text \<open>What the readers leave is the end of the text.\<close>

lemma suffix_dropWhile [simp]: "suffix (dropWhile P s) s"
  by (metis suffixI takeWhile_dropWhile_id)

lemma read_given_char_suffix: "read_given_char c s = Some r \<Longrightarrow> suffix r s"
  by (auto simp: read_given_char_def suffix_def split: list.splits if_splits)

lemma read_number_suffix: "read_number radix k z mx s = Some (n, r) \<Longrightarrow> suffix r s"
  by (auto simp: read_number_def Let_def split: if_splits)

lemma read_separator_suffix:
  assumes "read_separator sep i inner s = Some (x, r)" "\<And>s x r. inner s = Some (x, r) \<Longrightarrow> suffix r s"
  shows "suffix r s"
  using assms read_given_char_suffix suffix_order.trans
  by (fastforce simp: read_separator_def split: if_splits option.splits)

lemma read_octet_suffix: "read_octet i s = Some (n, r) \<Longrightarrow> suffix r s"
  unfolding read_octet_def by (erule read_separator_suffix) (rule read_number_suffix)

lemma read_ipv4_suffix: "read_ipv4_addr s = Some (ip, r) \<Longrightarrow> suffix r s"
  unfolding read_ipv4_addr_def
  by (auto split: option.splits dest!: read_octet_suffix) (meson suffix_order.trans)

lemma read_groups_suffix: "read_groups limit i s = (gs, v4, r) \<Longrightarrow> suffix r s"
proof (induction limit i s arbitrary: gs v4 r rule: read_groups.induct)
  case (1 limit i s)
  show ?case
  proof (cases "i \<ge> limit")
    case True
    then show ?thesis using 1(2) by (subst (asm) read_groups.simps) simp
  next
    case False
    let ?v4 = "if i < limit - 1 then read_separator (CHR '':'') i read_ipv4_addr s else None"
    let ?g = "read_separator (CHR '':'') i (read_number 16 (Some 4) True 65535) s"
    show ?thesis
    proof (cases ?v4)
      case (Some x)
      then have "suffix (snd x) s"
        using read_separator_suffix [OF _ read_ipv4_suffix] by (cases x) (auto split: if_splits)
      then show ?thesis using 1(2) False Some by (subst (asm) read_groups.simps) (auto split: prod.splits)
    next
      case None
      show ?thesis
      proof (cases ?g)
        case None
        then show ?thesis using 1(2) False \<open>?v4 = None\<close> by (subst (asm) read_groups.simps) simp
      next
        case (Some y)
        obtain g t where y: "y = (g, t)" by (cases y)
        obtain gs' b' r' where rec: "read_groups limit (Suc i) t = (gs', b', r')" by (metis prod_cases3)
        have "suffix t s" by (rule read_separator_suffix [OF Some [unfolded y]]) (rule read_number_suffix)
        moreover have "suffix r' t" using 1(1) [OF False None Some y [symmetric] rec] .
        moreover have "r = r'" using 1(2) False None Some y rec by (subst (asm) read_groups.simps) simp
        ultimately show ?thesis by (metis suffix_order.trans)
      qed
    qed
  qed
qed

lemma read_ipv6_suffix:
  assumes "read_ipv6_addr s = Some (gs, r)"
  shows "suffix r s"
proof -
  obtain head v4 r0 where head: "read_groups 8 0 s = (head, v4, r0)" by (metis prod_cases3)
  show ?thesis
  proof (cases "length head = 8")
    case True
    then have "r = r0" using assms head by (simp add: read_ipv6_addr_def)
    then show ?thesis using read_groups_suffix [OF head] by simp
  next
    case False
    then obtain r1 r2 where colons: "read_given_char (CHR '':'') r0 = Some r1" "read_given_char (CHR '':'') r1 = Some r2"
      using assms head by (simp add: read_ipv6_addr_def split: if_splits option.splits)
    obtain tail b r3 where tail: "read_groups (8 - (length head + 1)) 0 r2 = (tail, b, r3)" by (metis prod_cases3)
    have "r = r3" using assms head False colons tail by (simp add: read_ipv6_addr_def split: if_splits)
    then show ?thesis
      using read_groups_suffix [OF head] read_groups_suffix [OF tail] colons [THEN read_given_char_suffix]
      by (meson suffix_order.trans)
  qed
qed

lemma read_scope_suffix: "read_scope_id s = Some (z, r) \<Longrightarrow> suffix r s"
  by (auto simp: read_scope_id_def split: option.splits dest!: read_given_char_suffix read_number_suffix
      intro: suffix_order.trans)

text \<open>The text of a socket address ends with the one of its port.\<close>

lemma read_socket_addr_port:
  assumes "parse_socket_addr s = Some sa"
  shows "\<exists>r. suffix r s \<and> read_port r = Some (sock_port sa, [])"
proof -
  have "read_socket_addr_v4 s = Some (sa, []) \<or> read_socket_addr_v6 s = Some (sa, [])"
    using assms by (auto simp: parse_socket_addr_def split: option.splits list.splits)
  then show ?thesis
  proof
    assume "read_socket_addr_v4 s = Some (sa, [])"
    then show ?thesis
      by (auto simp: read_socket_addr_v4_def split: option.splits dest!: read_ipv4_suffix)
  next
    assume "read_socket_addr_v6 s = Some (sa, [])"
    then obtain s1 ip s2 s4 scope s3 where "read_given_char (CHR ''['') s = Some s1" "read_ipv6_addr s1 = Some (ip, s2)"
      "(case read_scope_id s2 of None \<Rightarrow> (0, s2) | Some (z, t) \<Rightarrow> (z, t)) = (scope, s3)"
      "read_given_char (CHR '']'') s3 = Some s4" "map_option (\<lambda>(p, t). (V6 ip scope p, t)) (read_port s4) = Some (sa, [])"
      by (auto simp: read_socket_addr_v6_def split: option.splits prod.splits)
    moreover have "suffix s3 s2"
      using calculation(3) by (auto split: option.splits dest!: read_scope_suffix)
    moreover have "suffix s4 s"
      using calculation(2,6) calculation(1,4) [THEN read_given_char_suffix] read_ipv6_suffix by (meson suffix_order.trans)
    ultimately show ?thesis by (intro exI [of _ s4]) auto
  qed
qed

lemma foldl_digits: "digits_value acc s = Some n \<Longrightarrow> foldl (\<lambda>acc c. 10 * acc + the (radix_digit 10 c)) acc s = n"
  by (induction s arbitrary: acc) (auto simp: radix_digit_def split: option.splits)

lemma not_digits: "\<not> is_ascii_digit (CHR '':'')" "\<not> is_ascii_digit (CHR '']'')"
  by (simp_all add: is_ascii_digit_def digit_value_def)

lemma show_port_no_colon: "CHR '':'' \<notin> set (show_port p)" "CHR '']'' \<notin> set (show_port p)"
  using show_nat_digits [of _ "unat p"] not_digits by (auto simp: show_port_def)

lemma split_once_last:
  assumes "c \<notin> set t"
  shows "rsplit_once c (s @ c # t) = Some (s, t)"
  using split_once_append [of c "rev t" "rev s"] assms by (simp add: rsplit_once_def)

lemma read_port_show:
  assumes "suffix r (h @ CHR '':'' # show_port p)" "read_port r = Some (q, [])"
  shows "q = p"
proof -
  let ?P = "\<lambda>c. radix_digit 10 c \<noteq> None" and ?f = "\<lambda>acc c. 10 * acc + the (radix_digit 10 c)"
  obtain ds where ds: "r = CHR '':'' # ds" "dropWhile ?P ds = []" "q = of_nat (foldl ?f 0 (takeWhile ?P ds))"
    using assms(2) by (auto simp: read_port_def read_given_char_def read_number_def Let_def
        split: option.splits list.splits if_splits)
  have all: "takeWhile ?P ds = ds" using ds(2) by (metis append.right_neutral takeWhile_dropWhile_id)
  have r: "r = CHR '':'' # ds" "\<forall>c \<in> set ds. ?P c" "q = of_nat (foldl ?f 0 ds)"
    using ds(1) all takeWhile_eq_all_conv [of ?P ds] ds(3) [unfolded all] by blast+
  obtain pre where pre: "h @ CHR '':'' # show_port p = pre @ CHR '':'' # ds" using assms(1) r(1) by (auto simp: suffix_def)
  have "CHR '':'' \<notin> set ds" using r(2) by (auto simp: radix_digit_def digit_value_def)
  then have "ds = show_port p"
    using split_once_last [of _ ds pre] split_once_last [OF show_port_no_colon(1), of h p] pre by simp
  then have "q = of_nat (unat p)"
    using r(3) foldl_digits [OF digits_value_show_nat] by (simp add: show_port_def)
  then show ?thesis by simp
qed

lemma trim_end_none: "x \<notin> set s \<Longrightarrow> trim_end_matches (\<lambda>c. c = x) s = s"
  by (cases s rule: rev_cases) (auto simp: trim_end_matches_def)

lemma port_of_listen_addr_text: "port_of_listen_addr (h @ CHR '':'' # show_port p) = Some p"
proof (cases "parse_socket_addr (h @ CHR '':'' # show_port p)")
  case None
  have "unat p \<le> u16_max" using unat_u16_le [of p] by (simp add: u16_max_def)
  then show ?thesis
    using None by (simp add: port_of_listen_addr_def split_once_last show_port_no_colon trim_end_none)
      (simp add: show_port_def)
next
  case (Some sa)
  obtain r where "suffix r (h @ CHR '':'' # show_port p)" "read_port r = Some (sock_port sa, [])"
    using read_socket_addr_port [OF Some] by blast
  from read_port_show [OF this] show ?thesis using Some by (simp add: port_of_listen_addr_def)
qed

end
