(* ===== verification/Main_Facts.thy ===== *)
theory Main_Facts
  imports Main_Loop Addr_Facts
begin

text \<open>
  What a start and a running loader keep: the desired state a start accepts, what the maps hold after
  it, what a reload and a rescan change, and the invariant of the loop beside the control socket.
\<close>

subsection \<open>The desired state of a start\<close>

lemma reserve_wf: "policy_wf pol \<Longrightarrow> policy_wf (reserve_listen_target pol a)"
  by (auto simp: reserve_listen_target_def policy_wf_def split: option.splits)

lemma reserve_mono: "p_reserve pol \<subseteq> p_reserve (reserve_listen_target pol a)"
  by (auto simp: reserve_listen_target_def split: option.splits)

lemma reserve_listen: "port_of_listen_addr a = Some p \<Longrightarrow> p \<in> p_reserve (reserve_listen_target pol a)"
  by (simp add: reserve_listen_target_def)

text \<open>The ports a listener of this start has, which it must not steer.\<close>

definition listener_ports :: "long_running_args \<Rightarrow> port set" where
  "listener_ports args =
     (if a_mode args = OpenResty
      then set_option (port_of_listen_addr (a_target args)) \<union> set_option (port_of_listen_addr (a_tls_target args)) else {})"

lemma start_policy_wf:
  assumes "start_policy args fs = Inr pol"
  shows "policy_wf pol" "listener_ports args \<subseteq> p_reserve pol"
proof -
  obtain p0 where p0: "policy_load (policy_file_for args) fs = Inr p0" "pol = (if a_mode args = OpenResty
      then reserve_listen_target (reserve_listen_target p0 (a_target args)) (a_tls_target args) else p0)"
    using assms by (auto simp: start_policy_def)
  show "policy_wf pol" using policy_load_wf [OF p0(1)] p0(2) by (auto intro: reserve_wf)
  show "listener_ports args \<subseteq> p_reserve pol"
    using p0(2) reserve_mono reserve_listen by (fastforce simp: listener_ports_def)
qed

text \<open>The policy of a start: that of its file, with the ports of the listeners reserved as well.\<close>

lemma start_policy_file:
  assumes "start_policy args fs = Inr pol"
  shows "\<exists>p0. policy_load (policy_file_for args) fs = Inr p0 \<and> pol = p0\<lparr>p_reserve := p_reserve p0 \<union> listener_ports args\<rparr>"
proof -
  have "reserve_listen_target p a = p\<lparr>p_reserve := p_reserve p \<union> set_option (port_of_listen_addr a)\<rparr>" for p a
    by (auto simp: reserve_listen_target_def split: option.split)
  then show ?thesis using assms by (auto simp: start_policy_def listener_ports_def Un_assoc)
qed

definition start_ok :: "policy \<Rightarrow> desired_ports \<Rightarrow> bool" where
  "start_ok pol d \<longleftrightarrow> om_wf d \<and> admissible pol d \<and> (\<forall>e \<in> set d. slot_ok (snd e))"

lemma om_wf_map: "om_wf d \<Longrightarrow> om_wf (map (\<lambda>(p, b). (p, f b)) d)"
  by (simp add: om_wf_def comp_def split_beta)

lemma seed_state_ok:
  assumes "seed_state args pol = Inr d"
  shows "start_ok pol d"
proof -
  obtain steered tls seeded where s: "from_lists steered tls (a_tenant args) (a_site args) = Inr seeded"
    "d = map (\<lambda>(p, b). (p, b\<lparr>b_cert := a_cert args, b_policy := a_policy args\<rparr>)) seeded" "validate d pol = Inr ()"
    using assms by (auto simp: seed_state_def Let_def split: if_splits)
  note g = from_lists_get [OF s(1)]
  have "slot_ok b" if "(p, b) \<in> set seeded" for p b
    using that g om_get_Some_iff [of seeded p b] by (auto simp: slot_ok_def seed_binding_def split: if_splits)
  then have "\<forall>e \<in> set d. slot_ok (snd e)" by (fastforce simp: s(2) slot_ok_def)
  moreover have "om_wf d" unfolding s(2) using g by (intro om_wf_map) simp
  ultimately show ?thesis using s(3) validate_iff by (simp add: start_ok_def)
qed

lemma desired_at_start_ok:
  assumes "desired_at_start pid args pol fs = (Inr d, fs')"
  shows "start_ok pol d"
    "fs_exists (path_of (a_ports_file args)) fs \<Longrightarrow> fs' = fs"
    "\<not> fs_exists (path_of (a_ports_file args)) fs \<Longrightarrow>
       fs_files fs' (resolve (path_of (a_ports_file args))) = Some (desired_text d)"
proof -
  let ?pf = "path_of (a_ports_file args)"
  show "start_ok pol d"
  proof (cases "fs_exists ?pf fs")
    case True
    then obtain body where "load_from_reader_with_policy body pol = Inr d"
      using assms by (auto simp: desired_at_start_def Let_def rbind_Inr_iff with_context_Inr_iff)
    then show ?thesis using loaded_desired_inv by (auto simp: start_ok_def desired_inv_def storable_def)
  next
    case False
    then have "seed_state args pol = Inr d"
      using assms by (auto simp: desired_at_start_def Let_def lift_res_def ret_def elim!: sbind_InrE)
    then show ?thesis by (rule seed_state_ok)
  qed
  show "fs' = fs" if "fs_exists ?pf fs" using assms that by (simp add: desired_at_start_def Let_def)
  show "fs_files fs' (resolve ?pf) = Some (desired_text d)" if "\<not> fs_exists ?pf fs"
  proof -
    have "desired_write pid ?pf d fs = (Inr (), fs')"
      using assms that by (auto simp: desired_at_start_def Let_def lift_res_def ret_def elim!: sbind_InrE)
    then show ?thesis by (auto simp: desired_write_def dest: replace_file_Inr)
  qed
qed

text \<open>Where the state comes from: the file if there is one, the flags otherwise.\<close>

definition start_source :: "long_running_args \<Rightarrow> policy \<Rightarrow> fsys \<Rightarrow> err + desired_ports" where
  "start_source args pol fs =
     (if fs_exists (path_of (a_ports_file args)) fs
      then rbind (fs_read (path_of (a_ports_file args)) fs) (\<lambda>body. load_from_reader_with_policy body pol)
      else seed_state args pol)"

lemma desired_at_start_source: "desired_at_start pid args pol fs = (Inr d, fs') \<Longrightarrow> start_source args pol fs = Inr d"
  by (auto simp: desired_at_start_def start_source_def Let_def rbind_Inr_iff with_context_Inr_iff lift_res_def ret_def
      elim!: sbind_InrE split: if_splits)

lemma start_source_text:
  assumes "start_source args pol fs = Inr d"
  shows "case fs_files fs (resolve (path_of (a_ports_file args))) of
      Some body \<Rightarrow> load_from_reader_with_policy body pol = Inr d | None \<Rightarrow> seed_state args pol = Inr d"
  using assms by (auto simp: start_source_def fs_exists_def fs_read_def rbind_Inr_iff split: option.splits if_splits)

lemma start_ok_ports:
  assumes "start_ok pol d" "policy_wf pol" "P \<subseteq> p_reserve pol" "om_get d p = Some b"
  shows "p \<noteq> 0 \<and> p \<notin> P \<and> port_allowed pol p \<and> slot_ok b"
proof -
  have "(p, b) \<in> set d" using assms(1,4) om_get_Some_iff [of d p b] by (simp add: start_ok_def)
  then have "port_allowed pol p" "slot_ok b" using assms(1) by (auto simp: start_ok_def admissible_def)
  then show ?thesis using port_allowed_nonzero [OF assms(2)] assms(3) by (auto simp: port_allowed_def)
qed

subsection \<open>The maps of a loader\<close>

lemma own_keep_maps [simp]: "own_maps dir maps (keep_maps dir maps w) = maps"
  by (cases maps) (auto simp: own_maps_def keep_maps_def held_map_def keep_map_def open_ports_path_def redir_socket_path_def
      split: option.split)

lemma own_maps_keep:
  "own_maps dir own (keep_maps dir maps w) =
     (if w_pins w (open_ports_path dir) = None then fst own else fst maps,
      if w_pins w (redir_socket_path dir) = None then snd own else snd maps)"
  by (auto simp: own_maps_def keep_maps_def held_map_def keep_map_def open_ports_path_def redir_socket_path_def
      split: option.split)

lemma keep_maps_fields [simp]: "w_fs (keep_maps dir maps w) = w_fs w" "w_pid (keep_maps dir maps w) = w_pid w"
  "w_nginx (keep_maps dir maps w) = w_nginx w" "dom (w_pins (keep_maps dir maps w)) = dom (w_pins w)"
  by (auto simp: keep_maps_def keep_map_def dom_def split: option.splits)

lemma keep_map_pins: "w_pins (keep_map p m w) = (if w_pins w p = None then w_pins w else (w_pins w)(p := Some m))"
  by (auto simp: keep_map_def split: option.split)

subsection \<open>A reload\<close>

context kernel_map
begin

lemma reload_map_spec:
  assumes lay: "port_layout ops (fst (own_maps dir (rn_own s) (so_world (rn_sock s))))"
    and dir: "dir = path_of (a_pin_dir args)"
  shows "rn_held (reload_map ops args s) = rn_held s \<and>
     w_fs (so_world (rn_sock (reload_map ops args s))) = w_fs (so_world (rn_sock s)) \<and>
     snd (own_maps dir (rn_own (reload_map ops args s)) (so_world (rn_sock (reload_map ops args s)))) =
       snd (own_maps dir (rn_own s) (so_world (rn_sock s))) \<and>
     so_audit (rn_sock (reload_map ops args s)) = so_audit (rn_sock s) \<and>
     (case load_with_policy (path_of (a_ports_file args)) (policy_file_for args) (w_fs (so_world (rn_sock s))) of
        Inl e \<Rightarrow> reload_map ops args s = s
      | Inr d \<Rightarrow>
          let m = fst (own_maps dir (rn_own s) (so_world (rn_sock s)));
              n = fst (own_maps dir (rn_own (reload_map ops args s)) (so_world (rn_sock (reload_map ops args s))))
          in same m n \<and> (\<forall>p. ports_of n p \<in> {ports_of m p, slot_map d p}) \<and>
             (is_ok (fst (reconcile_map ops d m)) \<longrightarrow> ports_of n = slot_map d))"
proof (cases "load_with_policy (path_of (a_ports_file args)) (policy_file_for args) (w_fs (so_world (rn_sock s)))")
  case (Inl e)
  then show ?thesis by (simp add: reload_map_def Let_def)
next
  case (Inr d)
  obtain op rd where maps: "own_maps dir (rn_own s) (so_world (rn_sock s)) = (op, rd)" by fastforce
  obtain r n where run: "reconcile_map ops d op = (r, n)" by fastforce
  have d: "om_wf d" "\<forall>e \<in> set d. slot_ok (snd e)"
    using load_with_policy_inv [OF Inr] by (auto simp: desired_inv_def storable_def)
  have "port_layout ops op" using lay maps by simp
  note spec = reconcile_map_spec [OF run this d]
  have res: "reload_map ops args s = s\<lparr>rn_sock := (rn_sock s)\<lparr>so_world := keep_maps dir (n, rd) (so_world (rn_sock s))\<rparr>,
      rn_own := (n, rd)\<rparr>"
    using Inr maps run by (simp add: reload_map_def Let_def on_open_ports_def dir [symmetric])
  show ?thesis using spec Inr maps run by (simp add: res Let_def)
qed

end

subsection \<open>A start\<close>

lemma host_idem: "h\<lparr>ho_world := ho_world h\<rparr> = (h :: 'm host)"
  by (rule host.equality) simp_all

lemma in_world_looks:
  "in_world (getr f) h = (f (ho_world h), h)" "in_world (gets g) h = (Inr (g (ho_world h)), h)"
  by (simp_all only: in_world_def getr_def gets_def prod.case host_idem)

lemma in_world_fs:
  "in_world (on_fs f) h =
     (case f (w_fs (ho_world h)) of (r, fs) \<Rightarrow> (r, h\<lparr>ho_world := (ho_world h)\<lparr>w_fs := fs\<rparr>\<rparr>))"
  unfolding in_world_def on_fs_def Let_def by (cases "f (w_fs (ho_world h))") (simp only: prod.case)

lemma in_world_fsE:
  assumes "in_world (on_fs f) h = (r, t)"
  obtains fs where "f (w_fs (ho_world h)) = (r, fs)" "w_fs (ho_world t) = fs" "w_pins (ho_world t) = w_pins (ho_world h)"
proof -
  obtain q fs where q: "f (w_fs (ho_world h)) = (q, fs)" by fastforce
  with assms have "q = r" "t = h\<lparr>ho_world := (ho_world h)\<lparr>w_fs := fs\<rparr>\<rparr>" by (simp_all only: in_world_fs prod.case prod.inject)
  with q show thesis using that by simp
qed

lemma in_bpf_pins: "w_pins (ho_world (snd (in_bpf f h))) p \<in> {None, w_pins (ho_world h) p}"
  by (simp add: in_bpf_def split: prod.split)

lemma in_bpf_world: "in_bpf f h = (r, t) \<Longrightarrow> w_pins (ho_world t) p \<in> {None, w_pins (ho_world h) p}"
  using in_bpf_pins [of f h p] by simp

text \<open>The files a start reads: those of the host, with the lock file, which it leaves alone if it is there.\<close>

definition start_files :: "'m start_env \<Rightarrow> 'm host \<Rightarrow> fsys" where
  "start_files env h = snd (acquire_loader_lock (se_locked env) (w_fs (ho_world h)))"

lemma start_files_other: "q \<noteq> resolve lock_path \<Longrightarrow> fs_files (start_files env h) q = fs_files (w_fs (ho_world h)) q"
  by (simp add: start_files_def acquire_loader_lock_def in_context_def fs_do_def gets_def ret_def fail_def sbind_def
      split: prod.splits sum.splits if_splits)

lemma prepare_Inr:
  assumes "prepare env args h = (Inr (d, bpf), h1)"
  shows "\<exists>pol. start_policy args (start_files env h) = Inr pol \<and> start_ok pol d \<and>
     start_source args pol (start_files env h) = Inr d \<and>
     (\<forall>p. w_pins (ho_world h1) p \<in> {None, w_pins (ho_world h) p})"
proof -
  obtain g1 g2 g3 g4 g5 g6 g7 u pol pid d1 b u1 u2 where
    1: "in_world (on_fs (acquire_loader_lock (se_locked env))) h = (Inr u, g1)"
    and 2: "in_world (getr (\<lambda>w. start_policy args (w_fs w))) g1 = (Inr pol, g2)"
    and p: "in_world (gets w_pid) g2 = (Inr pid, g3)"
    and 3: "in_world (on_fs (desired_at_start pid args pol)) g3 = (Inr d1, g4)"
    and 4: "in_bpf (load_and_attach (se_load env) (a_bpf_impl args) (path_of (a_pin_dir args))) g4 = (Inr b, g5)"
    and 5: "in_bpf (pin_or_warn b (path_of (a_pin_dir args)) (a_mode args = OpenResty)) g5 = (Inr u1, g6)"
    and 7: "lift_res (se_signals env) g6 = (Inr u2, g7)"
    and 6: "ret (d1, b) g7 = (Inr (d, bpf), h1)"
    using assms unfolding prepare_def by (elim sbind_InrE) (rule that; assumption)
  obtain fs1 where fs1: "acquire_loader_lock (se_locked env) (w_fs (ho_world h)) = (Inr u, fs1)"
    "w_fs (ho_world g1) = fs1" "w_pins (ho_world g1) = w_pins (ho_world h)"
    using 1 by (rule in_world_fsE)
  have g2: "g3 = g1" "start_policy args fs1 = Inr pol"
    using 2 p fs1(2) by (auto simp: in_world_looks)
  obtain fs2 where fs2: "desired_at_start pid args pol fs1 = (Inr d1, fs2)" "w_pins (ho_world g4) = w_pins (ho_world h)"
    using 3 by (rule in_world_fsE) (simp add: g2(1) fs1)
  have d1: "d1 = d" "h1 = g6" using 6 7 by (simp_all add: ret_def lift_res_def)
  have "w_pins (ho_world h1) p \<in> {None, w_pins (ho_world h) p}" for p
    using in_bpf_world [OF 4, of p] in_bpf_world [OF 5, of p] fs2(2) d1(2) by auto
  moreover have "start_files env h = fs1" using fs1(1) by (simp add: start_files_def)
  ultimately show ?thesis using g2 desired_at_start_ok(1) [OF fs2(1)] desired_at_start_source [OF fs2(1)] d1(1) by auto
qed

text \<open>What a start holds before its listeners are registered: pinned maps as they were, or fresh ones.\<close>

definition start_layout :: "'m start_env \<Rightarrow> long_running_args \<Rightarrow> 'm host \<Rightarrow> bool" where
  "start_layout env args h \<longleftrightarrow>
     (\<forall>d bpf t i j. prepare env args h = (Inr (d, bpf), t) \<and> with_maps bpf (\<lambda>op rd. Inr (op, rd)) = Inr (i, j) \<longrightarrow>
        port_layout (se_ops env) (se_fresh env i)) \<and>
     (\<forall>m. w_pins (ho_world h) (open_ports_path (path_of (a_pin_dir args))) = Some m \<longrightarrow> port_layout (se_ops env) m)"

lemma show_pin_pins: "w_pins (ho_world (show_pin p m h)) q \<in> {w_pins (ho_world h) q} \<union> (if p = q then {Some m} else {})"
  by (simp add: show_pin_def)

lemma shown_layout:
  assumes "start_layout env args h" "dir = path_of (a_pin_dir args)"
    and "prepare env args h = (Inr (d, bpf), h1)" "with_maps bpf (\<lambda>op rd. Inr (op, rd)) = Inr (i, j)"
    and "w_pins (ho_world h1) (open_ports_path dir) \<in> {None, w_pins (ho_world h) (open_ports_path dir)}"
  shows "port_layout (se_ops env) (fst (own_maps dir (se_fresh env i, se_fresh env j) (ho_world
     (show_pin (redir_socket_path dir) (se_fresh env j) (show_pin (open_ports_path dir) (se_fresh env i) h1)))))"
proof -
  have "open_ports_path dir \<noteq> redir_socket_path dir" by (simp add: open_ports_path_def redir_socket_path_def)
  moreover have "port_layout (se_ops env) (se_fresh env i)" using assms(1,3,4) unfolding start_layout_def by blast
  ultimately show ?thesis
    using assms(1,2,5) by (auto simp: own_maps_def held_map_def show_pin_def start_layout_def split: option.split)
qed

definition serving ::
    "'m kops \<Rightarrow> ('m \<Rightarrow> bmap) \<Rightarrow> 'm start_env \<Rightarrow> long_running_args \<Rightarrow> desired_ports \<Rightarrow> 'm running \<Rightarrow> bool" where
  "serving ops view env args d s \<longleftrightarrow>
     port_layout ops (fst (rn_own s)) \<and> port_view ops view (fst (rn_own s)) = slot_map d \<and>
     tracks ops view (snd (rn_own s)) (rn_held s) \<and>
     (a_mode args \<noteq> Toy \<longrightarrow> rn_held s \<noteq> [] \<and> waited_for (se_wait env) (a_target args) (rn_held s ! 0) \<and>
        (slot_ports redir_tls d \<noteq> [] \<longrightarrow> length (rn_held s) = 2 \<and> waited_for (se_wait_tls env) (a_tls_target args) (rn_held s ! 1)))"

context kernel_map
begin

lemma toy_mode_Inr:
  assumes "toy_mode env args steered tls_ports (op, rd) = (Inr held, op', rd')" "se_ops env = ops" "port_layout ops op"
  shows "held = [] \<and> same op op'"
proof -
  let ?serve = "\<lambda>fd slot ports. serve_slot ops fd slot ports"
  obtain fd op1 rd1 where toy: "run_toy_mode ops (se_bind env) (se_dup env) (se_nonblocking env) (a_listen args) steered (op, rd)
      = (Inr fd, op1, rd1)"
    and rest: "(if tls_ports \<noteq> [] then ?serve fd redir_tls tls_ports else ret ()) (op1, rd1) = (Inr (), op', rd')" "held = []"
    using assms(1) [unfolded toy_mode_def assms(2)] by (auto simp: sbind_def ret_def split: prod.splits sum.splits)
  have "\<exists>fd. ?serve fd redir_primary steered (op, rd) = (Inr (), op1, rd1)"
    using toy by (auto simp: run_toy_mode_def lift_res_def ret_def elim!: sbind_InrE)
  then have 1: "same op op1" using serve_slot_spec [OF _ assms(3)] by blast
  moreover have "same op1 op'"
    using rest(1) serve_slot_spec [OF _ same_layout [OF 1 assms(3)]] same_refl by (auto simp: ret_def split: if_splits)
  ultimately show ?thesis using same_trans rest(2) by blast
qed

lemma openresty_tracks:
  assumes run: "run_openresty_mode ops w w_tls target ports tls_target tls_ports wait (op, rd) = Some (Inr held, op', rd')"
    and lay: "port_layout ops op"
  shows "same op op' \<and> tracks ops view rd' held \<and> held \<noteq> [] \<and> waited_for w target (held ! 0) \<and>
     (tls_ports \<noteq> [] \<longrightarrow> length held = 2 \<and> waited_for w_tls tls_target (held ! 1))"
proof -
  obtain http where http: "waited_for w target http" "same op op'" "view rd' (slot_key ops 0) = Some (fd_value ops rd' (cl_fd http))"
    "if tls_ports = [] then held = [http]
     else \<exists>tls. held = [http, tls] \<and> waited_for w_tls tls_target tls \<and> view rd' (slot_key ops 1) = Some (fd_value ops rd' (cl_fd tls))"
    using run_openresty_spec [OF run lay] by (auto simp: slot_key_def u32_bytes_ne split: if_splits)
  show ?thesis
  proof (cases "tls_ports = []")
    case True
    then have "held = [http]" using http(4) by simp
    then show ?thesis using http(1-3) True by (simp add: tracks_def)
  next
    case False
    then obtain tls where "held = [http, tls]" "waited_for w_tls tls_target tls" "view rd' (slot_key ops 1) = Some (fd_value ops rd' (cl_fd tls))"
      using http(4) by auto
    then show ?thesis using http(1-3) False by (auto simp: tracks_def less_Suc_eq)
  qed
qed

lemma start_mode_Inr:
  assumes "start_mode env args d (op, rd) = Some (Inr held, op', rd')" "se_ops env = ops" "port_layout ops op"
  shows "same op op' \<and> tracks ops view rd' held \<and>
     (a_mode args \<noteq> Toy \<longrightarrow> held \<noteq> [] \<and> waited_for (se_wait env) (a_target args) (held ! 0) \<and>
        (slot_ports redir_tls d \<noteq> [] \<longrightarrow> length held = 2 \<and> waited_for (se_wait_tls env) (a_tls_target args) (held ! 1)))"
proof (cases "a_mode args = Toy")
  case True
  then have "toy_mode env args (slot_ports redir_primary d) (slot_ports redir_tls d) (op, rd) = (Inr held, op', rd')"
    using assms(1) by (simp add: start_mode_def Let_def)
  from toy_mode_Inr [OF this assms(2,3)] show ?thesis using True by (simp add: tracks_def)
next
  case False
  then have "run_openresty_mode ops (se_wait env) (se_wait_tls env) (a_target args) (slot_ports redir_primary d)
      (a_tls_target args) (slot_ports redir_tls d) (a_wait args) (op, rd) = Some (Inr held, op', rd')"
    using assms(1,2) by (simp add: start_mode_def Let_def)
  from openresty_tracks [OF this assms(3)] show ?thesis by blast
qed

lemma run_attached_Inr:
  assumes run: "run_attached env args h = Some (Inr (d, s), h')" and ops: "se_ops env = ops"
    and lay: "start_layout env args h"
  shows "serving ops view env args d s \<and>
     own_maps (path_of (a_pin_dir args)) (rn_own s) (so_world (rn_sock s)) = rn_own s \<and>
     so_world (rn_sock s) = ho_world h' \<and> so_audit (rn_sock s) = [] \<and> \<not> so_poisoned (rn_sock s) \<and>
     (\<exists>pol. start_policy args (start_files env h) = Inr pol \<and> start_ok pol d \<and>
        start_source args pol (start_files env h) = Inr d)"
proof -
  let ?dir = "path_of (a_pin_dir args)"
  obtain d1 bpf h1 where prep: "prepare env args h = (Inr (d1, bpf), h1)"
    using run by (auto simp: run_attached_def Let_def split: prod.splits sum.splits)
  obtain i j where ids: "with_maps bpf (\<lambda>open_ports redir_socket. Inr (open_ports, redir_socket)) = Inr (i, j)"
    using run prep by (auto simp: run_attached_def Let_def split: prod.splits sum.splits)
  define h2 where "h2 = show_pin (redir_socket_path ?dir) (se_fresh env j) (show_pin (open_ports_path ?dir) (se_fresh env i) h1)"
  obtain op rd where maps: "own_maps ?dir (se_fresh env i, se_fresh env j) (ho_world h2) = (op, rd)" by fastforce
  note body = run [unfolded run_attached_def Let_def prep prod.case sum.case ids h2_def [symmetric] maps]
  obtain held op1 rd1 where mode: "start_mode env args d1 (op, rd) = Some (Inr held, op1, rd1)"
    using body by (auto split: option.splits prod.splits sum.splits)
  obtain r op2 where rec: "reconcile_map ops d1 op1 = (r, op2)" by fastforce
  have res: "is_ok r" "d = d1" "s = \<lparr>rn_sock = \<lparr>so_world = keep_maps ?dir (op2, rd1) (ho_world h2), so_audit = [], so_poisoned = False\<rparr>,
      rn_held = held, rn_own = (op2, rd1)\<rparr>" "h' = h2\<lparr>ho_world := keep_maps ?dir (op2, rd1) (ho_world h2)\<rparr>"
    using body mode rec ops by (auto simp: on_open_ports_def split: sum.splits)
  obtain pol where pol: "start_policy args (start_files env h) = Inr pol" "start_ok pol d1"
    "start_source args pol (start_files env h) = Inr d1"
    "\<forall>p. w_pins (ho_world h1) p \<in> {None, w_pins (ho_world h) p}"
    using prepare_Inr [OF prep] by blast
  have lay0: "port_layout ops op"
    using shown_layout [OF lay refl prep ids] pol(4) maps ops by (simp add: h2_def)
  note m = start_mode_Inr [OF mode ops lay0]
  have d: "om_wf d1" "\<forall>e \<in> set d1. slot_ok (snd e)" using pol(2) by (simp_all add: start_ok_def)
  note r = reconcile_map_spec [OF rec same_layout [OF _ lay0] d]
  have "port_layout ops op2" using r m same_layout [OF same_trans lay0] by blast
  then have "serving ops view env args d s" using m r res by (auto simp: serving_def)
  then show ?thesis using pol(1-3) res by auto
qed

end

subsection \<open>Requests and the maps\<close>

text \<open>A request keeps what every command on the world keeps.\<close>

abbreviation of_world :: "('m world \<Rightarrow> bool) \<Rightarrow> 'm sock \<Rightarrow> bool" where
  "of_world I k \<equiv> I (so_world k)"

lemma keeps_on_world [pin_rules]: "keeps I f (\<lambda>_. True) \<Longrightarrow> keeps (of_world I) (on_world f) (\<lambda>_. True)"
  by (rule keepsI) (auto simp: on_world_Inr dest: keepsD)

lemma keeps_lines [pin_rules]: "keeps (of_world I) (write_audit a) (\<lambda>_. True)" "keeps (of_world I) (audited_check a c) (\<lambda>_. True)"
  by (rule keepsI; auto simp: write_audit_def audited_check_def split: sum.splits)+

lemma keeps_ignore [pin_rules]: "keeps I m (\<lambda>_. True) \<Longrightarrow> keeps I (ignore m) (\<lambda>_. True)"
  by (rule keepsI) (auto simp: ignore_def split: prod.splits sum.splits dest: keepsD)

lemma keeps_mutate [pin_rules]: "pins_stable I \<Longrightarrow> keeps I (mutate ops req dir pf ports) (\<lambda>_. True)"
  unfolding mutate_def Let_def by (intro step_rules pin_rules)

lemma keeps_list_ports [pin_rules]: "keeps I (list_ports ops req dir pf) (\<lambda>_. True)"
  by (rule keeps_reads) (rule list_ports_reads)

lemma keeps_execute [pin_rules]: "pins_stable I \<Longrightarrow> keeps (of_world I) (execute ops req cred dir pf) (\<lambda>_. True)"
  unfolding execute_def perform_def Let_def by (intro step_rules pin_rules)

lemma keeps_handle_conn [pin_rules]: "pins_stable I \<Longrightarrow> keeps (of_world I) (handle_conn ops parse dir pf conn) (\<lambda>_. True)"
  unfolding handle_conn_def by (intro step_rules pin_rules)

subsection \<open>The running loader\<close>

definition redir_is :: "path \<Rightarrow> 'm option \<Rightarrow> 'm world \<Rightarrow> bool" where
  "redir_is dir x w \<longleftrightarrow> w_pins w (redir_socket_path dir) = x"

lemma redir_is_stable: "pins_stable (redir_is dir x)"
  by (simp add: pins_stable_def redir_is_def open_ports_path_def redir_socket_path_def)

lemma handle_conn_redir:
  assumes "handle_conn ops parse dir pf conn k = (r, l)"
  shows "snd (own_maps dir own (so_world l)) = snd (own_maps dir own (so_world k))"
proof -
  have "redir_is dir (w_pins (so_world k) (redir_socket_path dir)) (so_world l)"
    using keepsD [OF keeps_handle_conn [OF redir_is_stable] _ assms] by (simp add: redir_is_def)
  then show ?thesis by (simp add: own_maps_def held_map_def redir_is_def)
qed

text \<open>The maps of the loader, and the socket map following the held sockets.\<close>

definition current_maps :: "long_running_args \<Rightarrow> 'm running \<Rightarrow> 'm \<times> 'm" where
  "current_maps args s = own_maps (path_of (a_pin_dir args)) (rn_own s) (so_world (rn_sock s))"

lemma other_redir:
  assumes "w_pins w (redir_socket_path (path_of (a_pin_dir args))) =
     w_pins (so_world (rn_sock s)) (redir_socket_path (path_of (a_pin_dir args)))"
  shows "snd (current_maps args (s\<lparr>rn_sock := (rn_sock s)\<lparr>so_world := w\<rparr>\<rparr>)) = snd (current_maps args s)"
  using assms by (simp add: current_maps_def own_maps_def held_map_def)

lemma reload_map_redir: "snd (current_maps args (reload_map ops args s)) = snd (current_maps args s) \<and>
    rn_held (reload_map ops args s) = rn_held s"
  by (auto simp: reload_map_def current_maps_def Let_def on_open_ports_def split: sum.split prod.split)

context kernel_map
begin

lemma rescan_turn_keeps:
  assumes "tracks ops view (snd (current_maps args s)) (rn_held s)"
  shows "tracks ops view (snd (current_maps args (rescan_turn ops v v_tls args has_tls s))) (rn_held (rescan_turn ops v v_tls args has_tls s)) \<and>
     fst (current_maps args (rescan_turn ops v v_tls args has_tls s)) = fst (current_maps args s)"
proof -
  obtain op rd where maps: "current_maps args s = (op, rd)" by fastforce
  obtain r n held where run: "rescan_held ops v v_tls (a_target args) (if has_tls then Some (a_tls_target args) else None) (rd, rn_held s)
      = (r, n, held)" by (metis prod_cases3)
  have res: "current_maps args (rescan_turn ops v v_tls args has_tls s) = (op, n)" "rn_held (rescan_turn ops v v_tls args has_tls s) = held"
    using maps run by (simp_all add: rescan_turn_def current_maps_def Let_def)
  show ?thesis using rescan_held_keeps [OF _ run] assms maps res by simp
qed

lemma main_turn_tracks:
  assumes "tracks ops view (snd (current_maps args s)) (rn_held s)" "main_turn ops args has_tls t s = (r, u)"
  shows "tracks ops view (snd (current_maps args u)) (rn_held u)"
proof -
  have reload: "tracks ops view (snd (current_maps args (reload_map ops args s))) (rn_held (reload_map ops args s))"
    using assms(1) reload_map_redir [of args ops s] by simp
  show ?thesis
    using assms reload rescan_turn_keeps
    by (auto simp: main_turn_def reload_turn_def sbind_def ret_def split: if_splits)
qed

lemma running_step_tracks:
  assumes "running_step ops parse args has_tls s t" "tracks ops view (snd (current_maps args s)) (rn_held s)"
  shows "tracks ops view (snd (current_maps args t)) (rn_held t)"
  using assms(1)
proof (cases rule: running_step.cases)
  case (Turn t1)
  then show ?thesis using main_turn_tracks [OF assms(2)] by blast
next
  case (Request conn r k)
  have "snd (current_maps args t) = snd (current_maps args s)" "rn_held t = rn_held s"
    using handle_conn_redir [OF Request(2)] Request(1) by (simp_all add: current_maps_def)
  then show ?thesis using assms(2) by simp
next
  case (Other w)
  then show ?thesis using assms(2) by (simp add: other_redir)
qed

lemma reaches_tracks:
  assumes "reaches ops parse args has_tls s t" "tracks ops view (snd (current_maps args s)) (rn_held s)"
  shows "tracks ops view (snd (current_maps args t)) (rn_held t)"
  using assms(1) unfolding reaches_def
  by (induction rule: rtranclp_induct) (use assms(2) running_step_tracks in blast)+

end

text \<open>The slot of the TLS listener stays empty when no TLS port was there at the start.\<close>

definition tls_slot :: "'m kops \<Rightarrow> ('m \<Rightarrow> bmap) \<Rightarrow> long_running_args \<Rightarrow> 'm running \<Rightarrow> bytes option" where
  "tls_slot ops view args s = view (snd (current_maps args s)) (slot_key ops 1)"

context kernel_map
begin

lemma rescan_http_only:
  assumes "rescan_held ops v v_tls target None (m, held) = (r, n, held')" "tracks ops view m held"
  shows "view n (slot_key ops 1) = view m (slot_key ops 1)"
proof -
  have "rescan_at ops v target 0 (m, held) = (r, n, held')"
    using assms(1) by (auto simp: rescan_held_def sbind_def ret_def split: prod.splits sum.splits)
  from rescan_at_keeps [OF assms(2) _ _ this] show ?thesis using slot_key_inj [of ops] by auto
qed

lemma running_step_tls_slot:
  assumes "running_step ops parse args False s t" "tracks ops view (snd (current_maps args s)) (rn_held s)"
  shows "tls_slot ops view args t = tls_slot ops view args s"
  using assms(1)
proof (cases rule: running_step.cases)
  case (Turn t1)
  define s1 where "s1 = (if lt_reload t1 then reload_map ops args s else s)"
  have s1: "snd (current_maps args s1) = snd (current_maps args s)" "rn_held s1 = rn_held s"
    using reload_map_redir [of args ops s] by (simp_all add: s1_def)
  have "t = s1 \<or> t = rescan_turn ops (lt_view t1) (lt_view_tls t1) args False s1"
    using Turn by (auto simp: main_turn_def reload_turn_def sbind_def ret_def s1_def split: if_splits)
  moreover have "view (snd (current_maps args (rescan_turn ops v w args False s1))) (slot_key ops 1) =
      view (snd (current_maps args s1)) (slot_key ops 1)" for v w
  proof -
    obtain r n held where run: "rescan_held ops v w (a_target args) None (snd (current_maps args s1), rn_held s1) = (r, n, held)"
      by (metis prod_cases3)
    then have "snd (current_maps args (rescan_turn ops v w args False s1)) = n"
      by (simp add: rescan_turn_def current_maps_def Let_def)
    then show ?thesis using rescan_http_only [OF run] assms(2) s1 by simp
  qed
  ultimately show ?thesis using s1 by (auto simp: tls_slot_def)
next
  case (Request conn r k)
  then show ?thesis using handle_conn_redir [OF Request(2)] by (simp add: tls_slot_def current_maps_def)
next
  case (Other w)
  then show ?thesis by (simp add: tls_slot_def other_redir)
qed

lemma reaches_tls_slot:
  assumes "reaches ops parse args False s t" "tracks ops view (snd (current_maps args s)) (rn_held s)"
  shows "tls_slot ops view args t = tls_slot ops view args s"
  using assms(1) unfolding reaches_def
proof (induction rule: rtranclp_induct)
  case (step t u)
  have "reaches ops parse args False s t" using step(1) by (simp add: reaches_def)
  then show ?case using running_step_tls_slot [OF step(2)] reaches_tracks assms(2) step(3) by metis
qed simp

end

end
