(* ===== verification/Ctl_Live.thy ===== *)
theory Ctl_Live
  imports Ctl_Agree
begin

text \<open>
  Commands of \<open>ctl.rs\<close> on a healthy machine: no file operation fails, the map fails only for lack
  of room and has the room its layout asks for. A change that is admitted is then carried out.
\<close>

subsection \<open>Commands succeed on a healthy machine\<close>

lemma apply_add_total:
  assumes kern: "healthy_map ops view same batch"
    and d: "desired_or_empty pf polf (w_fs w) = Inr d0" "real_ports conf w = Inr reals"
      "policy_load polf (w_fs w) = Inr pol" "admissible pol (om_insert_all ports b d0)"
    and m: "w_pins w (open_ports_path dir) = Some m" "roomy ops m"
    and free: "reals \<inter> (dom (om_get d0) \<union> set ports \<union> dom (port_view ops view m)) = {}"
    and fs: "fs_fault (w_fs w) = (\<lambda>_. False)" and len: "length ports < 2 ^ 32"
  shows "\<exists>out w'. apply_add ops dir pf polf ports b bt pr summ sync conf mf w = (Inr out, w')"
proof -
  note k = healthy_map.axioms(1) [OF kern] and lay = healthy_map.roomy_layout [OF kern m(2)]
  obtain cur where cur: "read_map ops m = Inr cur"
    using healthy_map.read_map_total [OF kern lay] by (auto simp: is_ok_iff)
  have dcur: "om_get cur = port_view ops view m" using kernel_map.read_map_spec [OF k cur lay] by simp
  have wf0: "om_wf d0" using d(1) load_with_policy_inv [of pf polf "w_fs w" d0]
    by (auto simp: desired_or_empty_def desired_inv_def om_empty_def om_wf_def split: if_splits)
  have ov: "fail_on_overlap reals d0 om_empty ports = Inr ()"
    "fail_on_overlap reals (om_insert_all ports b d0) cur [] = Inr ()"
    using free dcur wf0 by (auto simp: fail_on_overlap_Inr om_get_empty split: if_splits)
  have val: "validate (om_insert_all ports b d0) pol = Inr ()" using d(4) by (simp add: validate_iff)
  obtain fs' where wr: "desired_write (w_pid w) pf (om_insert_all ports b d0) (w_fs w) = (Inr (), fs')"
    using desired_write_total [OF fs] by blast
  obtain res n where put: "bulk_put_ports ops ports (b_slot b) bt pr m = (Inr res, n)"
    using healthy_map.bulk_put_ports_total [OF kern m(2) len, of "b_slot b" bt pr]
    by (cases "bulk_put_ports ops ports (b_slot b) bt pr m") (auto simp: is_ok_iff)
  define w1 where "w1 = (if sync then w\<lparr>w_fs := fs'\<rparr> else w)"
  have "on_map dir (bulk_put_ports ops ports (b_slot b) bt pr) w1 = (Inr res, repinned dir n w1)"
    using m(1) put by (simp add: on_map_iff repinned_def w1_def)
  moreover have "(if sync then sbind (gets w_pid) (\<lambda>pid. on_fs (desired_write pid pf (om_insert_all ports b d0))) else ret ()) w = (Inr (), w1)"
    using wr by (simp add: w1_def sbind_def gets_def on_fs_def ret_def)
  ultimately show ?thesis
    by (simp only: apply_add_def sbind_def getr_def counted_def lift_res_def Let_def d(1-3) ov val cur m(1)
        load_pinned_open_ports_def ret_def option.case sum.case prod.case) (intro exI, rule refl)
qed

lemma put_stage_total:
  assumes kern: "healthy_map ops view same batch" and m: "w_pins w (open_ports_path dir) = Some m" "roomy ops m"
    and len: "sorted_wrt (<) ps"
  shows "\<exists>n. put_stage ops dir ps slot bt pr w = (Inr (), repinned dir n w) \<and> roomy ops n"
proof (cases "ps = []")
  case True
  then show ?thesis using m by (intro exI [of _ m]) (simp add: put_stage_def ret_def repinned_same)
next
  case False
  obtain res n where put: "bulk_put_ports ops ps slot bt pr m = (Inr res, n)"
    using healthy_map.bulk_put_ports_total [OF kern m(2) strict_ports_bound [OF len], of slot bt pr]
    by (cases "bulk_put_ports ops ps slot bt pr m") (auto simp: is_ok_iff)
  have "same m n" using kernel_map.bulk_put_ports_spec [OF healthy_map.axioms(1) [OF kern] put
      healthy_map.roomy_layout [OF kern m(2)] strict_ports_bound [OF len]] by simp
  moreover have "on_map dir (bulk_put_ports ops ps slot bt pr) w = (Inr res, repinned dir n w)"
    using m(1) put by (simp add: on_map_iff repinned_def)
  ultimately show ?thesis using False healthy_map.roomy_same [OF kern _ m(2)]
    by (intro exI [of _ n]) (simp add: put_stage_def sbind_def ret_def)
qed

lemma delete_stage_total:
  assumes kern: "healthy_map ops view same batch" and m: "w_pins w (open_ports_path dir) = Some m" "roomy ops m"
  shows "\<exists>n. delete_stage ops dir ps bt pr w = (Inr (), repinned dir n w)"
proof (cases "ps = []")
  case True
  then show ?thesis using m by (intro exI [of _ m]) (simp add: delete_stage_def ret_def repinned_same)
next
  case False
  obtain res n where del: "bulk_delete_ports ops ps bt pr m = (Inr res, n)"
    using healthy_map.bulk_delete_ports_total [OF kern healthy_map.roomy_layout [OF kern m(2)], of ps bt pr]
    by (cases "bulk_delete_ports ops ps bt pr m") (auto simp: is_ok_iff)
  have "on_map dir (bulk_delete_ports ops ps bt pr) w = (Inr res, repinned dir n w)"
    using m(1) del by (simp add: on_map_iff repinned_def)
  then show ?thesis using False by (intro exI [of _ n]) (simp add: delete_stage_def sbind_def ret_def)
qed

lemma reconcile_with_total:
  assumes kern: "healthy_map ops view same batch"
    and d: "load_with_policy pf polf (w_fs w) = Inr d" "real_ports conf w = Inr reals"
    and m: "w_pins w (open_ports_path dir) = Some m" "roomy ops m"
    and free: "reals \<inter> (dom (om_get d) \<union> dom (port_view ops view m)) = {}"
    and braw: "parse_batch braw = Inr bt"
  shows "\<exists>out w'. reconcile_with ops dir pf polf conf mf braw pr w = (Inr out, w')"
proof -
  note k = healthy_map.axioms(1) [OF kern] and lay = healthy_map.roomy_layout [OF kern m(2)]
  obtain cur where cur: "read_map ops m = Inr cur"
    using healthy_map.read_map_total [OF kern lay] by (auto simp: is_ok_iff)
  have dcur: "om_get cur = port_view ops view m" "om_wf cur" using kernel_map.read_map_spec [OF k cur lay] by simp_all
  have wf: "om_wf d" using load_with_policy_inv [OF d(1)] by (auto simp: desired_inv_def)
  have ov: "fail_on_overlap reals d om_empty [] = Inr ()" "fail_on_overlap reals d cur [] = Inr ()"
    using free dcur by (auto simp: fail_on_overlap_Inr om_get_empty)
  note srt = plan_lists [OF wf dcur(2)]
  obtain n1 where 1: "put_stage ops dir (put_primary (plan d cur)) redir_primary bt pr w = (Inr (), repinned dir n1 w)"
    "roomy ops n1" using put_stage_total [OF kern m srt(1)] by blast
  obtain n2 where 2: "put_stage ops dir (put_tls (plan d cur)) redir_tls bt pr (repinned dir n1 w) =
      (Inr (), repinned dir n2 (repinned dir n1 w))" "roomy ops n2"
    using put_stage_total [OF kern repinned_simps(2) 1(2) srt(2)] by blast
  obtain n3 where 3: "delete_stage ops dir (plan_delete (plan d cur)) bt pr (repinned dir n2 w) =
      (Inr (), repinned dir n3 (repinned dir n2 w))"
    using delete_stage_total [OF kern repinned_simps(2) 2(2)] by blast
  have "carry_out ops dir (plan d cur) bt pr w = (Inr (), repinned dir n3 w)"
    using 1 2 3 by (simp add: carry_out_def sbind_def)
  then show ?thesis
    by (simp only: reconcile_with_def sbind_def getr_def counted_def lift_res_def Let_def d ov cur m(1) braw
        load_pinned_open_ports_def ret_def option.case sum.case prod.case) (intro exI, rule refl)
qed

lemma apply_central_total:
  assumes kern: "healthy_map ops view same batch"
    and f: "parse_go_flags args central_bools central_vals = Inr f" "\<not> bool_flag f ''help''"
      "\<not> is_frozen (freeze_file_of f) (w_fs w)" "parse_batch (flag_get f ''batch'') = Inr bt"
    and d: "central_load pj (central_source f) (w_fs w) = Inr d" "policy_load (policy_file_of f) (w_fs w) = Inr pol"
      "admissible pol d" "\<forall>e \<in> set d. storable e" "om_wf d"
    and reals: "real_ports (nginx_conf_of f) w = Inr reals"
      "reals \<inter> (dom (om_get d) \<union> dom (port_view ops view m)) = {}"
    and m: "w_pins w (open_ports_path (pin_dir_of f)) = Some m" "roomy ops m"
    and fs: "fs_fault (w_fs w) = (\<lambda>_. False)" "\<not> fs_unreadable (w_fs w) (resolve (ports_file_of f))"
      "files_apart (ports_file_of f) (policy_file_of f) (w_pid w)"
      "resolve (freeze_file_of f) \<notin> {resolve (ports_file_of f), resolve (tmp_path (w_pid w) (ports_file_of f))}"
  shows "\<exists>w'. ctl_apply_central pj ops args w = (Inr (Some ()), w')"
proof -
  note k = healthy_map.axioms(1) [OF kern] and lay = healthy_map.roomy_layout [OF kern m(2)]
  obtain cur where cur: "read_map ops m = Inr cur"
    using healthy_map.read_map_total [OF kern lay] by (auto simp: is_ok_iff)
  have dcur: "om_get cur = port_view ops view m" using kernel_map.read_map_spec [OF k cur lay] by simp
  have ov: "fail_on_overlap reals d om_empty [] = Inr ()" "fail_on_overlap reals d cur [] = Inr ()"
    using reals(2) dcur by (auto simp: fail_on_overlap_Inr om_get_empty)
  have avail: "map_if_available ops (pin_dir_of f) w = (cur, True)"
    using m(1) cur by (simp add: map_if_available_def load_pinned_open_ports_def)
  have val: "validate d pol = Inr ()" using d(3) by (simp add: validate_iff)
  have fz: "reject_frozen f op t s ps w = Inr ()" for op t s ps using f(3) reject_frozen_Inr [of f op t s ps w "()"] by simp
  obtain fs1 where wr: "desired_write (w_pid w) (ports_file_of f) d (w_fs w) = (Inr (), fs1)"
    using desired_write_total [OF fs(1)] by blast
  define w1 where "w1 = w\<lparr>w_fs := fs1\<rparr>"
  have cache: "on_fs (apply_cache pj (w_pid w) (central_source f) (ports_file_of f) (policy_file_of f)) w = (Inr d, w1)"
    by (simp add: on_fs_def apply_cache_def sbind_def getr_def lift_res_def gets_def ret_def d(1,2) val wr w1_def)
  have files: "fs_files fs1 = (fs_files (w_fs w))(resolve (tmp_path (w_pid w) (ports_file_of f)) := None,
      resolve (ports_file_of f) := Some (desired_text d))"
    using wr by (auto simp: desired_write_def dest: replace_file_Inr)
  have load1: "load_with_policy (ports_file_of f) (policy_file_of f) (w_fs w1) = Inr d"
    using load_after_write [OF wr fs(3) d(2,5,3,4) fs(2)] by (simp add: w1_def)
  obtain g where g: "parse_go_flags (reconcile_args f) reconcile_bools reconcile_vals = Inr g"
    "pin_dir_of g = pin_dir_of f" "ports_file_of g = ports_file_of f" "policy_file_of g = policy_file_of f"
    "freeze_file_of g = freeze_file_of f" "nginx_conf_of g = nginx_conf_of f" "\<not> bool_flag g ''help''"
    "flag_get g ''batch'' = flag_get f ''batch''"
    using reconcile_args_parse [of f] by blast
  have w1s: "real_ports (nginx_conf_of f) w1 = Inr reals" "w_pins w1 (open_ports_path (pin_dir_of f)) = Some m"
  proof -
    have "real_ports (nginx_conf_of f) w1 = real_ports (nginx_conf_of f) w" by (simp add: real_ports_def w1_def)
    with reals(1) show "real_ports (nginx_conf_of f) w1 = Inr reals" by simp
    show "w_pins w1 (open_ports_path (pin_dir_of f)) = Some m" using m(1) by (simp add: w1_def)
  qed
  obtain out w2 where rec: "reconcile_with ops (pin_dir_of g) (ports_file_of g) (policy_file_of g) (nginx_conf_of g)
      (metrics_file_of g) (flag_get g ''batch'') (\<not> bool_flag g ''quiet'') w1 = (Inr out, w2)"
    using reconcile_with_total [OF kern load1 w1s(1) w1s(2) m(2) reals(2) f(4)] unfolding g by blast
  have fz1: "reject_frozen g op t s ps w1 = Inr ()" for op t s ps
    using f(3) fs(4) reject_frozen_Inr [of g op t s ps w1 "()"]
    by (simp add: w1_def g(5) is_frozen_def fs_exists_def files)
  have "ctl_reconcile ops (reconcile_args f) w1 = (Inr (Some out), w2)"
    by (simp only: ctl_reconcile_def with_flags_run [OF g(1,7)] sbind_def getr_def fz1 rec ret_def sum.case prod.case)
  then show ?thesis
    by (simp only: ctl_apply_central_def with_flags_run [OF f(1,2)] central_source_def [symmetric] Let_def sbind_def
        getr_def fz d(1,2) lift_res_def val reals(1) counted_def ov gets_def avail if_True cache ret_def
        sum.case prod.case) (intro exI, rule refl)
qed

end
