(* ===== verification/Examples.thy ===== *)
theory Examples
  imports Ctl_Live Dispatch Sockctl
begin

text \<open>
  Small concrete states, files and maps, on which the properties of the root theory are applied.
\<close>

subsection \<open>Concrete values\<close>

definition demo_binding :: port_binding where
  "demo_binding = seed_binding ''demo'' ''local'' redir_primary"

definition demo_desired :: desired_ports where
  "demo_desired = [(18081, demo_binding), (18443, demo_binding\<lparr>b_slot := redir_tls, b_cert := Some ''local''\<rparr>)]"

definition hash_desired :: desired_ports where
  "hash_desired = [(18081, demo_binding\<lparr>b_site := ''a#b''\<rparr>)]"

definition demo_file :: path where "demo_file = [''etc'', ''ports.conf'']"

definition demo_policy_file :: path where "demo_policy_file = [''etc'', ''policy.conf'']"

definition demo_fs :: fsys where
  "demo_fs = \<lparr>fs_files = [demo_file \<mapsto> desired_text demo_desired], fs_unreadable = (\<lambda>_. False),
     fs_fault = (\<lambda>_. False)\<rparr>"

lemma demo_identities: "identity_ok ''demo''" "identity_ok ''local''" "identity_ok ''a#b''"
  by (simp_all add: identity_ok_def is_whitespace_def)

lemma demo_ports_allowed: "port_allowed default_policy 18081" "port_allowed default_policy 18443"
  by (simp_all add: port_allowed_def default_policy_def default_deny_def)

lemma small_tenants: "length d \<le> 32 \<Longrightarrow> length (tenant_ports d t) \<le> 32"
  unfolding tenant_ports_def by (rule le_trans [OF length_filter_le])

lemma demo_admissible [simp]: "admissible default_policy demo_desired" "admissible default_policy hash_desired"
  using demo_identities demo_ports_allowed small_tenants [of demo_desired] small_tenants [of hash_desired]
  by (simp_all add: admissible_def binding_ok_def demo_desired_def hash_desired_def demo_binding_def
      seed_binding_def open_ports_max_entries_def default_policy_def)

lemma demo_facts [simp]: "om_wf demo_desired" "om_wf hash_desired"
  "\<forall>e \<in> set demo_desired. slot_ok (snd e)" "\<forall>e \<in> set hash_desired. slot_ok (snd e)"
  "\<forall>e \<in> set demo_desired. hash_free (snd e)" "\<not> (\<forall>e \<in> set hash_desired. hash_free (snd e))"
  by (simp_all add: demo_desired_def hash_desired_def demo_binding_def seed_binding_def om_wf_def
      slot_ok_def hash_free_def redir_primary_def redir_tls_def)

lemma demo_load: "load_with_policy demo_file demo_policy_file demo_fs = Inr demo_desired"
proof -
  have "fs_read demo_file demo_fs = Inr (desired_text demo_desired)"
    by (simp add: fs_read_def demo_fs_def demo_file_def resolve_def)
  moreover have "policy_load demo_policy_file demo_fs = Inr default_policy"
    by (simp add: policy_load_def fs_exists_def demo_fs_def demo_policy_file_def demo_file_def resolve_def)
  moreover have "load_from_reader_with_policy (desired_text demo_desired) default_policy = Inr demo_desired"
    using desired_round_trip [of default_policy demo_desired] policy_wf_default by simp
  ultimately show ?thesis by (simp add: load_with_policy_def)
qed

definition demo_map :: khash where
  "demo_map = \<lparr>kh_key = 2, kh_value = 1, kh_max = 131072, kh_batch = False, kh_data = []\<rparr>"

lemma demo_map_roomy [simp]: "roomy (khash_ops le) demo_map" "port_layout (khash_ops le) demo_map"
  by (simp_all add: roomy_def port_layout_def khash_ops_def demo_map_def open_ports_max_entries_def)

lemma demo_put: "\<exists>res n. bulk_put_ports (khash_ops True) [18081, 18082] redir_primary 0 False demo_map = (Inr res, n)"
  using khh.bulk_put_ports_total [OF demo_map_roomy(1), of "[18081, 18082]" True redir_primary 0 False]
  by (cases "bulk_put_ports (khash_ops True) [18081, 18082] redir_primary 0 False demo_map") (auto simp: is_ok_iff)

lemma demo_delete: "\<exists>res n. bulk_delete_ports (khash_ops True) [18081, 18082] 0 False demo_map = (Inr res, n)"
  using khh.bulk_delete_ports_total [OF demo_map_roomy(2), of True "[18081, 18082]" 0 False]
  by (cases "bulk_delete_ports (khash_ops True) [18081, 18082] 0 False demo_map") (auto simp: is_ok_iff)

definition demo_ctx :: bpf_sk_lookup where
  "demo_ctx = \<lparr>sk_or_cookie = 0, sk_family = 2, sk_protocol = 6, remote_ip4 = 0, remote_ip6 = [],
     remote_port_and_pad = 0, local_ip4 = 0, local_ip6 = [], local_port = 18082, ingress_ifindex = 1\<rparr>"

definition demo_helpers :: "bmap \<Rightarrow> string helpers" where
  "demo_helpers m = \<lparr>h_le = True, h_open_ports = m, h_redir_socket = (\<lambda>k. if k = [0, 0, 0, 0] then Some ''listen'' else None),
     h_assign = (\<lambda>_ _. 0)\<rparr>"

text \<open>A stand-in for the JSON reader and printer: a state is looked up in a table of texts.\<close>

definition demo_central :: central_state where
  "demo_central = \<lparr>c_version = 1, c_ports = map central_entry demo_desired\<rparr>"

definition demo_parse :: "string \<Rightarrow> central_state option" where
  "demo_parse s = (if s = ''state'' then Some demo_central else None)"

lemma fill_demo_gap:
  assumes "q \<in> {q. 8079 \<le> q} - {8080} - {8079, 8081, 8082 :: port}" "p \<in> {8079, 8081, 8082}"
  shows "p < q"
proof -
  have "unat q \<noteq> 8079" "unat q \<noteq> 8080" "unat q \<noteq> 8081" "unat q \<noteq> 8082"
    using assms(1) by (metis DiffE insertCI of_nat_numeral of_nat_unat_u16)+
  moreover have "8079 \<le> unat q" using assms(1) by (simp add: word_le_nat_alt)
  ultimately have "8082 < unat q" by arith
  then show ?thesis using assms(2) by (auto simp: word_less_nat_alt)
qed

subsection \<open>A machine\<close>

text \<open>The state the demo starts from: file and map agree, nginx listens only on its own ports.\<close>

definition demo_live :: khash where
  "demo_live = \<lparr>kh_key = 2, kh_value = 1, kh_max = 131072, kh_batch = True,
     kh_data = [(port_bytes True 18081, [0]), (port_bytes True 18443, [1])]\<rparr>"

definition demo_world :: "khash world" where
  "demo_world =
     \<lparr>w_fs = \<lparr>fs_files = [[''ports.conf''] \<mapsto> desired_text demo_desired, [''central'', ''desired-state.json''] \<mapsto> ''state''],
        fs_unreadable = (\<lambda>_. False), fs_fault = (\<lambda>_. False)\<rparr>,
      w_nginx = \<lparr>ng_files = [], ng_canon = (\<lambda>_. None), ng_dir = (\<lambda>_. None)\<rparr>,
      w_pins = [open_ports_path (pin_dir_of no_flags) \<mapsto> demo_live], w_stdin = [], w_now = ''now'', w_pid = 7,
      w_env = (\<lambda>_. None)\<rparr>"

lemma demo_roomy [simp]: "roomy (khash_ops le) demo_live" "port_layout (khash_ops le) demo_live"
  by (simp_all add: roomy_def port_layout_def khash_ops_def demo_live_def open_ports_max_entries_def)

lemma demo_view: "port_view (khash_ops True) kh_view demo_live = slot_map demo_desired"
  by (auto simp: port_view_def kh_view_def kh_entries_def demo_live_def slot_map_def demo_desired_def om_get_def
      khash_ops_def fun_eq_iff first_byte_def demo_binding_def seed_binding_def redir_primary_def redir_tls_def)


abbreviation demo_pin :: path where "demo_pin \<equiv> pin_dir_of no_flags"
abbreviation demo_ports :: path where "demo_ports \<equiv> ports_file_of no_flags"
abbreviation demo_policy :: path where "demo_policy \<equiv> policy_file_of no_flags"
abbreviation demo_conf :: path where "demo_conf \<equiv> nginx_conf_of no_flags"
abbreviation demo_metrics :: path where "demo_metrics \<equiv> metrics_file_of no_flags"

lemma path_of_plain: "CHR ''/'' \<notin> set s \<Longrightarrow> s \<noteq> [] \<Longrightarrow> path_of s = [s]"
  by (cases s) (auto simp: path_of_def split_on_no starts_with_def)

lemma demo_paths [simp]: "demo_ports = [''ports.conf'']" "demo_policy = [''.'', ''policy.conf'']"
  by (simp_all add: ports_file_of_def policy_file_of_def get_or_def path_of_plain default_path_def parent_or_dot_def
      path_parent_def)

lemma demo_world_load [simp]: "load_with_policy demo_ports demo_policy (w_fs demo_world) = Inr demo_desired"
  "policy_load demo_policy (w_fs demo_world) = Inr default_policy"
  "desired_or_empty demo_ports demo_policy (w_fs demo_world) = Inr demo_desired"
proof -
  have rd: "fs_read demo_ports (w_fs demo_world) = Inr (desired_text demo_desired)"
    by (simp add: fs_read_def demo_world_def resolve_def)
  have pol: "policy_load demo_policy (w_fs demo_world) = Inr default_policy"
    by (simp add: policy_load_def fs_exists_def demo_world_def resolve_def)
  have "load_from_reader_with_policy (desired_text demo_desired) default_policy = Inr demo_desired"
    using desired_round_trip [of default_policy demo_desired] policy_wf_default by simp
  with rd pol show ld: "load_with_policy demo_ports demo_policy (w_fs demo_world) = Inr demo_desired"
    by (simp add: load_with_policy_def)
  show "policy_load demo_policy (w_fs demo_world) = Inr default_policy" by (rule pol)
  show "desired_or_empty demo_ports demo_policy (w_fs demo_world) = Inr demo_desired"
    using ld by (simp add: desired_or_empty_def fs_exists_def demo_world_def resolve_def)
qed

lemma demo_world_simps [simp]: "w_pins demo_world (open_ports_path demo_pin) = Some demo_live"
  "real_ports conf demo_world = Inr inner_real_ports" "fs_fault (w_fs demo_world) = (\<lambda>_. False)"
  "w_pid demo_world = 7"
  by (simp_all add: demo_world_def real_ports_def)

lemma demo_apart: "files_apart demo_ports demo_policy 7"
  by (simp add: files_apart_def names_file_def resolve_def tmp_path_def parent_or_dot_def path_parent_def
      path_file_name_def)

lemma demo_agree: "agree (khash_ops True) kh_view demo_pin demo_ports demo_policy demo_world"
  unfolding agree_def using demo_view by (intro exI [of _ demo_desired] exI [of _ demo_live]) (simp del: demo_paths)

definition demo_more :: desired_ports where "demo_more = om_insert_all [18082] demo_binding demo_desired"

lemma demo_more_admissible: "admissible default_policy demo_more"
proof -
  have "port_allowed default_policy 18082" by (simp add: port_allowed_def default_policy_def default_deny_def)
  then show ?thesis
    using demo_identities demo_ports_allowed small_tenants [of demo_more]
    by (simp add: demo_more_def admissible_def binding_ok_def demo_desired_def demo_binding_def
        seed_binding_def open_ports_max_entries_def default_policy_def)
qed

lemma demo_binding_facts [simp]: "hash_free demo_binding" "slot_ok demo_binding" "b_slot demo_binding = 0"
  by (simp_all add: demo_binding_def seed_binding_def hash_free_def slot_ok_def redir_primary_def)

lemma demo_free: "inner_real_ports \<inter> (dom (om_get demo_desired) \<union> set [18082] \<union> dom (port_view (khash_ops True) kh_view demo_live)) = {}"
proof -
  have "dom (om_get demo_desired) = {18081, 18443}" by (auto simp: demo_desired_def om_get_def)
  moreover have "dom (slot_map demo_desired) = dom (om_get demo_desired)" by (auto simp: slot_map_def)
  ultimately show ?thesis by (auto simp: demo_view inner_real_ports_def)
qed

lemma demo_add_runs: "\<exists>out w'. apply_add (khash_ops True) demo_pin demo_ports demo_policy [18082] demo_binding 0 False False True
    demo_conf demo_metrics demo_world = (Inr out, w')"
  using demo_more_admissible demo_free
  by (intro apply_add_total [OF healthy_map_khash demo_world_load(3) demo_world_simps(2) demo_world_load(2) _
        demo_world_simps(1) demo_roomy(1)]) (simp_all add: demo_more_def)

lemma demo_reconcile_runs: "\<exists>out w'. reconcile_with (khash_ops True) demo_pin demo_ports demo_policy demo_conf demo_metrics
    None False demo_world = (Inr out, w')"
  using demo_free
  by (intro reconcile_with_total [OF healthy_map_khash demo_world_load(1) demo_world_simps(2)
        demo_world_simps(1) demo_roomy(1)]) (auto simp: parse_batch_def)

subsection \<open>An nginx configuration to import\<close>

definition demo_nginx :: nginx_fs where
  "demo_nginx = \<lparr>ng_files = [([''openresty'', ''nginx.conf''], ''listen 18500;'')], ng_canon = Some, ng_dir = (\<lambda>_. None)\<rparr>"

lemma demo_listen: "listen_port_of_line ''listen 18500;'' = Some 18500"
  by (simp add: listen_port_of_line_def Let_def strip_comment_def split_on_def trim_def trim_start_def
      trim_end_matches_def is_whitespace_def split_whitespace_def starts_with_space_def is_ascii_digit_def
      parse_uint_def u16_max_def strip_plus_def digit_value_def)

lemma demo_listens: "parse_listen_ports_from_conf demo_nginx [''openresty'', ''nginx.conf''] = Inr [18500]"
proof -
  have l: "lines ''listen 18500;'' = [''listen 18500;'']" by (simp add: lines_def split_on_def)
  then have "include_specs ''listen 18500;'' = []"
    by (simp add: include_specs_def parse_include_specs_def strip_comment_def split_on_def trim_def trim_start_def
        trim_end_matches_def is_whitespace_def)
  moreover have "parse_listen_ports ''listen 18500;'' = [18500]"
    by (simp add: parse_listen_ports_def l demo_listen)
  ultimately show ?thesis
    by (simp add: parse_listen_ports_from_conf_def read_expanded_files_def ng_read_def visit_key_def demo_nginx_def)
qed

definition demo_import :: "string list" where
  "demo_import = [''-tenant'', ''demo'', ''-site'', ''local'']"

definition demo_import_flags :: parsed_flags where
  "demo_import_flags = add_flag ''site'' ''local'' (add_flag ''tenant'' ''demo'' no_flags)"

definition demo_nginx_world :: "khash world" where
  "demo_nginx_world = demo_world\<lparr>w_nginx := demo_nginx\<rparr>"

lemma demo_import_parse: "parse_go_flags demo_import import_bools import_vals = Inr demo_import_flags"
  by (simp add: parse_go_flags_def demo_import_def import_bools_def import_vals_def demo_import_flags_def
      flags_loop_val plain_name_def del: flags_loop.simps add: flags_loop.simps(1))

lemma demo_import_paths: "policy_file_of demo_import_flags = demo_policy" "ports_file_of demo_import_flags = demo_ports"
  "nginx_conf_of demo_import_flags = [''openresty'', ''nginx.conf'']" "freeze_file_of demo_import_flags = freeze_file_of no_flags"
  by (simp_all add: policy_file_of_def ports_file_of_def nginx_conf_of_def freeze_file_of_def get_or_def
      demo_import_flags_def path_of_def split_on_def starts_with_def)

lemma demo_freeze: "freeze_file_of no_flags = [''/'', ''run'', ''waf-sklookup'', ''frozen'']"
  by (simp add: freeze_file_of_def get_or_def path_of_def split_on_def starts_with_def)

lemma demo_import_runs: "\<exists>w'. ctl_import_listens print_json demo_import demo_nginx_world = (Inr (Some (Imported [18500] [])), w')"
proof -
  let ?f = demo_import_flags and ?w = demo_nginx_world
  have nohelp: "\<not> bool_flag ?f ''help''" "\<not> bool_flag ?f ''dry-run''" "flag_get ?f ''from'' = None"
    "flag_get ?f ''skip'' = None" "flag_get ?f ''central-out'' = None"
    by (simp_all add: bool_flag_def demo_import_flags_def)
  have b: "import_binding ?f ?w = Inr demo_binding"
    by (simp add: import_binding_def flag_or_env_def demo_import_flags_def bool_flag_def ctl_slot_def demo_binding_def
        seed_binding_def)
  have listens: "parse_listen_ports_from_conf (w_nginx ?w) (nginx_conf_of ?f) = Inr [18500]"
    by (simp add: demo_nginx_world_def demo_import_paths demo_listens)
  have loads: "policy_load (policy_file_of ?f) (w_fs ?w) = Inr default_policy"
    "desired_or_empty (ports_file_of ?f) (policy_file_of ?f) (w_fs ?w) = Inr demo_desired"
    using demo_world_load by (simp_all add: demo_import_paths demo_nginx_world_def del: demo_paths)
  have imp: "importable_ports [18500] default_policy inner_real_ports = ([18500], [])"
    by (simp add: skip_reason_def default_policy_def default_deny_def inner_real_ports_def)
  have fz: "reject_frozen ?f op t s ps ?w = Inr ()" for op t s ps
    by (simp add: reject_frozen_def reject_if_frozen_iff demo_import_paths is_frozen_def fs_exists_def demo_nginx_world_def
        demo_world_def demo_freeze resolve_def)
  have "port_allowed default_policy 18500" by (simp add: port_allowed_def default_policy_def default_deny_def)
  then have "admissible default_policy (om_insert_all [18500] demo_binding demo_desired)"
    using demo_identities demo_ports_allowed small_tenants [of "om_insert_all [18500] demo_binding demo_desired"]
    by (simp add: admissible_def binding_ok_def demo_desired_def demo_binding_def
        seed_binding_def open_ports_max_entries_def default_policy_def)
  then have val: "validate (om_insert_all [18500] demo_binding demo_desired) default_policy = Inr ()" by (simp add: validate_iff)
  obtain fs1 where wr: "desired_write (w_pid ?w) (ports_file_of ?f) (om_insert_all [18500] demo_binding demo_desired) (w_fs ?w)
      = (Inr (), fs1)"
  proof -
    have "fs_fault (w_fs ?w) = (\<lambda>_. False)" by (simp add: demo_nginx_world_def)
    from desired_write_total [OF this] that show thesis by blast
  qed
  have "[18500 :: port] \<noteq> []" by simp
  then show ?thesis
    by (simp only: ctl_import_listens_def with_flags_run [OF demo_import_parse nohelp(1)] Let_def sbind_def getr_def b loads
        lift_res_def nohelp option.case listens imp fz val gets_def on_fs_def wr ret_def if_False sum.case prod.case if_not_P)
      (intro exI, rule refl)
qed

subsection \<open>A request over the control socket\<close>

definition demo_cred :: peer_cred where
  "demo_cred = \<lparr>pc_pid = 4, pc_uid = 0, pc_gid = 9\<rparr>"

definition demo_request :: request where
  "demo_request = (empty_request ''add'')\<lparr>rq_ports := [18082], rq_tenant := ''demo'', rq_site := ''local''\<rparr>"

definition demo_sock :: "khash sock" where
  "demo_sock = \<lparr>so_world = demo_world, so_audit = [], so_poisoned = False\<rparr>"

lemma demo_request_facts: "actual_op demo_request = ''add''" "request_ports demo_request = Inr [18082]"
  "request_binding demo_request = demo_binding" "rq_tenant demo_request = ''demo''" "rq_site demo_request = ''local''"
  "to_ascii_lowercase (rq_op demo_request) = ''add''" "gated demo_request" "rq_ports demo_request = [18082]"
  by (simp_all add: demo_request_def empty_request_def actual_op_def request_ports_def request_binding_def demo_binding_def
      seed_binding_def gated_def to_ascii_lowercase_def to_ascii_lowercase_char_def)

lemma demo_not_frozen: "\<not> is_frozen default_freeze_file (w_fs demo_world)"
  by (simp add: is_frozen_def fs_exists_def demo_world_def default_freeze_file_def resolve_def)

lemma demo_default_policy: "default_path demo_ports = demo_policy"
  by (simp add: default_path_def parent_or_dot_def path_parent_def)

lemma demo_socket_add:
  "\<exists>t. execute (khash_ops True) demo_request demo_cred demo_pin demo_ports demo_sock = (Inr (DoneResponse ''add'' 1), t) \<and>
     so_audit t \<noteq> []"
proof -
  have "\<exists>out w'. apply_add (khash_ops True) demo_pin demo_ports demo_policy [18082] demo_binding
      default_bulk_batch False True True default_nginx_conf default_metrics_file demo_world = (Inr out, w')"
    using demo_more_admissible demo_free
    by (intro apply_add_total [OF healthy_map_khash demo_world_load(3) demo_world_simps(2) demo_world_load(2) _
          demo_world_simps(1) demo_roomy(1)]) (simp_all add: demo_more_def)
  then obtain out w' where add: "apply_add (khash_ops True) demo_pin demo_ports (default_path demo_ports) [18082] demo_binding
      default_bulk_batch False True True default_nginx_conf default_metrics_file demo_world = (Inr out, w')"
    unfolding demo_default_policy by blast
  then have m: "mutate (khash_ops True) demo_request demo_pin demo_ports [18082] demo_world = (Inr (Inr ()), w')"
    by (simp add: mutate_def demo_request_facts ignore_def del: demo_paths)
  show ?thesis
    using execute_mutation [of demo_request "[18082]" demo_sock "khash_ops True" demo_pin demo_ports w' demo_cred] m demo_not_frozen
    by (simp add: demo_request_facts demo_sock_def enforce_ladder_def)
qed

end
