(* ===== verification/Upgrade_Live.thy ===== *)
theory Upgrade_Live
  imports Upgrade_Safe
begin

text \<open>
  Refusals of an upgrade, and its course when the process is not killed and no system call
  fails: the pins, links and the journal after each operation.
\<close>

subsection \<open>Refusals\<close>

lemma keeps_never: "keeps I m (\<lambda>_. False) \<Longrightarrow> keeps I (sbind m f) Q"
  by (rule keeps_sbind [where R = "\<lambda>_. False"]) auto

lemma reuse_refuses:
  assumes "(name, m) \<in> set maps" "abi_of env name m \<notin> {expected_open_ports_abi, expected_redir_socket_abi}"
    "timeless I"
  shows "keeps I (reuse_audited_maps env dir maps) (\<lambda>_. False)"
  using assms(1)
proof (induction maps)
  case (Cons nm maps)
  obtain n k where nm: "nm = (n, k)" by (cases nm)
  obtain p e where want: "wanted_map dir n = (p, e)" by (cases "wanted_map dir n")
  have e: "e \<in> {expected_open_ports_abi, expected_redir_socket_abi}"
    using want by (auto simp: wanted_map_def split: if_splits)
  show ?case
  proof (cases "(name, m) \<in> set maps")
    case True
    note stop = keeps_never [OF Cons.IH [OF True]]
    show ?thesis
      unfolding nm reuse_audited_maps.simps Let_def want abi_of_pinned_def prod.case
      by ((rule keeps_if keeps_pure(2) stop keeps_sbind_any keeps_pure(1,4) step_keeps(2) assms(3) TrueI)+)
  next
    case False
    then have "n = name" "k = m" using Cons.prems nm by auto
    then have "keeps I (lift_res (validate_abi (abi_of env n k) e)) (\<lambda>_. False)"
      using assms(2) e by (intro keeps_pure(4)) (auto simp: validate_abi_def split: if_splits)
    then show ?thesis
      unfolding nm reuse_audited_maps.simps Let_def want prod.case
      by (intro keeps_if keeps_pure(2) keeps_never)
  qed
qed simp

lemma load_candidate_refuses:
  assumes "ue_open env candidate = Inr obj" "(name, m) \<in> set (bo_maps obj)"
    "abi_of env name m \<notin> {expected_open_ports_abi, expected_redir_socket_abi}" "timeless I"
  shows "keeps I (load_candidate env candidate dir) (\<lambda>_. False)"
  unfolding load_candidate_def assms(1)
  by (intro keeps_if keeps_pure keeps_sbind [OF keeps_pure(4) [where Q'' = "\<lambda>x. x = obj"]])
    (auto intro!: keeps_never intro: reuse_refuses [OF assms(2-4)])

lemma keeps_not_in_progress [step_keeps]: "journal_stable env dir I \<Longrightarrow> keeps I (not_in_progress env dir) (\<lambda>_. True)"
  by (auto simp: not_in_progress_def intro!: triple_rules step_keeps)

lemma activate_refuses:
  assumes "ue_open env candidate = Inr obj" "(name, m) \<in> set (bo_maps obj)"
    "abi_of env name m \<notin> {expected_open_ports_abi, expected_redir_socket_abi}"
  shows "keeps (untouched env dir w) (activate env dir candidate window) (\<lambda>_. False)"
proof -
  have "keeps (untouched env dir w) (preflight env dir candidate window) (\<lambda>_. False)"
    unfolding preflight_def
    by (rule keeps_on_result [OF load_candidate_refuses [OF assms]]) (auto intro!: triple_rules step_keeps)
  moreover have "keeps (untouched env dir w) (require_live_pins dir) (\<lambda>_. True)"
    by (auto simp: require_live_pins_def getr_def intro!: keepsI)
  ultimately show ?thesis
    unfolding activate_def
    by (intro keeps_sbind_any [of _ "not_in_progress env dir"] keeps_sbind_any [of _ "require_live_pins dir"]
        keeps_sbind_any [of _ "open_pinned p" for p] keeps_never step_keeps) simp_all
qed

lemma activate_in_progress:
  assumes "bw_files w (resolve (journal_path env dir)) = Some raw" "ue_parse env raw = Some j"
    "\<not> terminal (j_phase j)"
  shows "\<exists>e n. activate env dir candidate window w = (Inl e, w\<lparr>bw_clock := n\<rparr>)"
proof -
  obtain r t where run: "not_in_progress env dir w = (r, t)" by (cases "not_in_progress env dir w")
  have "\<exists>e n. r = Inl e \<and> t = w\<lparr>bw_clock := n\<rparr>"
    using run assms
    by (auto simp: not_in_progress_def read_journal_def read_journal_at_def sys_def sbind_def fail_def Let_def
        split: if_splits) (auto intro: exI [of _ "bw_clock w"])
  then show ?thesis using run by (auto simp: activate_def sbind_def)
qed

subsection \<open>When every step succeeds\<close>

text \<open>The pins, the links and the journal's text, when all is calm.\<close>

definition stands :: "upgrade_env \<Rightarrow> path \<Rightarrow> (path \<Rightarrow> pinned option) \<Rightarrow> (nat \<Rightarrow> prog option) \<Rightarrow> string option \<Rightarrow>
    bpf_world \<Rightarrow> bool" where
  "stands env dir P L J w \<longleftrightarrow> calm w \<and> bw_pins w = P \<and> bw_links w = L \<and>
     bw_files w (resolve (journal_path env dir)) = J"

text \<open>\<open>m\<close> succeeds from every state of \<open>P\<close>.\<close>

abbreviation runs :: "(bpf_world \<Rightarrow> bool) \<Rightarrow> 'a bpf_act \<Rightarrow> ('a \<Rightarrow> bpf_world \<Rightarrow> bool) \<Rightarrow> bool" where
  "runs P m Q \<equiv> triple P m Q (\<lambda>_. False)"

lemma runs_sys:
  assumes "\<And>w. P w \<Longrightarrow> calm w" "\<And>w. P w \<Longrightarrow> \<exists>x t. f (w\<lparr>bw_clock := bw_clock w + 1\<rparr>) = Inr (x, t) \<and> Q x t"
  shows "runs P (sys p f) Q"
  using assms by (force simp: triple_def sys_calm Let_def)

named_theorems calm_rules \<open>the steps when all is calm\<close>

lemma runs_pins [calm_rules]:
  "P p \<noteq> None \<Longrightarrow> runs (stands env dir P L J) (pin_remove p) (\<lambda>_. stands env dir (P(p := None)) L J)"
  "P p = Some x \<Longrightarrow> runs (stands env dir P L J) (pin_rename p q) (\<lambda>_. stands env dir (P(p := None, q := Some x)) L J)"
  "P p = None \<Longrightarrow> runs (stands env dir P L J) (pin_object p x) (\<lambda>_. stands env dir (P(p := Some x)) L J)"
  unfolding pin_remove_def pin_rename_def pin_object_def
  by (rule runs_sys; simp add: stands_def calm_def)+

lemma runs_open [calm_rules]:
  "P p = Some x \<Longrightarrow> runs (stands env dir P L J) (open_pinned p) (\<lambda>y w. y = x \<and> stands env dir P L J w)"
  "P p = Some (MapPin m) \<Longrightarrow> runs (stands env dir P L J) (open_map p) (\<lambda>y w. y = m \<and> stands env dir P L J w)"
  "P p = Some (LinkPin i) \<Longrightarrow> runs (stands env dir P L J) (open_link p) (\<lambda>y w. y = i \<and> stands env dir P L J w)"
  unfolding open_pinned_def open_map_def open_link_def
  by (rule runs_sys; simp add: stands_def calm_def)+

lemma runs_link_update [calm_rules]:
  "L i \<noteq> None \<Longrightarrow> runs (stands env dir P L J) (link_update p i (ProgPin g)) (\<lambda>_. stands env dir P (L(i := Some g)) J)"
  unfolding link_update_def by (rule runs_sys) (auto simp: stands_def calm_def)

subsection \<open>The journal\<close>

fun steps_files :: "fs_step list \<Rightarrow> (path \<Rightarrow> string option) \<Rightarrow> (path \<Rightarrow> string option) option" where
  "steps_files [] m = Some m"
| "steps_files (st # sts) m = (case step_files st m of None \<Rightarrow> None | Some n \<Rightarrow> steps_files sts n)"

lemma steps_files_append:
  "steps_files (xs @ ys) m = (case steps_files xs m of None \<Rightarrow> None | Some n \<Rightarrow> steps_files ys n)"
  by (induction xs arbitrary: m) (auto split: option.splits)

lemma steps_files_appends:
  "m (resolve p) = Some t \<Longrightarrow> steps_files (map (\<lambda>c. Append p [c]) zs) m = Some (m(resolve p := Some (t @ zs)))"
  by (induction zs arbitrary: m t) (auto simp: fun_upd_idem)

lemma runs_file_steps:
  "steps_files sts fs = Some fs' \<Longrightarrow>
     runs (\<lambda>w. calm w \<and> bw_pins w = P \<and> bw_links w = L \<and> bw_files w = fs) (file_steps sts)
       (\<lambda>_ w. calm w \<and> bw_pins w = P \<and> bw_links w = L \<and> bw_files w = fs')"
proof (induction sts arbitrary: fs)
  case Nil
  then show ?case by (simp add: triple_def ret_def)
next
  case (Cons st sts)
  then obtain n where n: "step_files st fs = Some n" "steps_files sts n = Some fs'"
    by (auto split: option.splits)
  have "runs (\<lambda>w. calm w \<and> bw_pins w = P \<and> bw_links w = L \<and> bw_files w = fs) (file_step st)
       (\<lambda>_ w. calm w \<and> bw_pins w = P \<and> bw_links w = L \<and> bw_files w = n)"
    unfolding file_step_def by (rule runs_sys) (auto simp: n calm_def)
  then show ?case using Cons.IH [OF n(2)] by (auto intro: triple_sbind)
qed

lemma resolve_journal_path:
  "resolve (journal_path env dir) = default_journal_dir @ [ue_key env dir @ ''.json'']"
  by (auto simp: journal_path_def journal_path_in_def resolve_def default_journal_dir_def append_eq_Cons_conv)

lemma journal_temp_apart: "resolve (with_extension (journal_path env dir) ''json.tmp'') \<noteq> resolve (journal_path env dir)"
proof -
  have "with_extension (journal_path env dir) ''json.tmp'' =
      default_journal_dir @ [file_stem (ue_key env dir @ ''.json'') @ ''.json.tmp'']"
    by (auto simp: with_extension_def journal_path_def journal_path_in_def path_file_name_def append_eq_Cons_conv)
  then have "resolve (with_extension (journal_path env dir) ''json.tmp'') =
      default_journal_dir @ [file_stem (ue_key env dir @ ''.json'') @ ''.json.tmp'']"
    by (auto simp: resolve_def default_journal_dir_def append_eq_Cons_conv)
  moreover have "last (x @ ''.json.tmp'') \<noteq> last (y @ ''.json'')" for x y :: string
    by simp
  ultimately show ?thesis unfolding resolve_journal_path by (metis append1_eq_conv)
qed

lemma runs_write_journal [calm_rules]:
  "runs (stands env dir P L J) (write_journal env dir j)
     (\<lambda>_. stands env dir P L (Some (ue_print env j @ [CHR 0x0A])))"
proof -
  let ?p = "journal_path env dir" and ?t = "with_extension (journal_path env dir) ''json.tmp''"
    and ?d = "ue_print env j @ [CHR 0x0A]"
  have parent: "path_parent ?p = Some default_journal_dir"
    by (simp add: path_parent_def journal_path_def journal_path_in_def default_journal_dir_def)
  have steps: "\<exists>fs'. steps_files (journal_steps default_journal_dir ?p (ue_print env j)) fs = Some fs' \<and>
      fs' (resolve ?p) = Some ?d" for fs
    by (simp add: journal_steps_def Let_def steps_files_append steps_files_appends [where t = "[]"])
  show ?thesis
  proof (rule tripleI)
    fix s x t
    assume s: "stands env dir P L J s" "write_journal env dir j s = (Inr x, t)"
    obtain fs' where fs': "steps_files (journal_steps default_journal_dir ?p (ue_print env j)) (bw_files s) = Some fs'"
      "fs' (resolve ?p) = Some ?d" using steps by blast
    show "stands env dir P L (Some ?d) t"
      using triple_Inr [OF runs_file_steps [OF fs'(1), of P L], of s x t] s fs'(2)
      by (simp add: stands_def write_journal_def write_journal_at_def parent)
  next
    fix s e t
    assume s: "stands env dir P L J s" "write_journal env dir j s = (Inl e, t)"
    obtain fs' where fs': "steps_files (journal_steps default_journal_dir ?p (ue_print env j)) (bw_files s) = Some fs'"
      using steps by blast
    show False
      using triple_Inl [OF runs_file_steps [OF fs', of P L], of s e t] s
      by (simp add: stands_def write_journal_def write_journal_at_def parent)
  qed
qed

lemma runs_mark [calm_rules]:
  "runs (stands env dir P L J) (mark env dir j ph d)
     (\<lambda>j1 w. j1 = j\<lparr>j_phase := ph, j_detail := d\<rparr> \<and>
        stands env dir P L (Some (ue_print env (j\<lparr>j_phase := ph, j_detail := d\<rparr>) @ [CHR 0x0A])) w)"
  unfolding mark_def Let_def by (rule triple_sbind [OF runs_write_journal]) (auto simp: triple_def ret_def)

lemma runs_read_journal [calm_rules]:
  "runs (stands env dir P L None) (read_journal env dir) (\<lambda>x w. x = None \<and> stands env dir P L None w)"
  "ue_parse env raw = Some j \<Longrightarrow>
     runs (stands env dir P L (Some raw)) (read_journal env dir) (\<lambda>x w. x = Some j \<and> stands env dir P L (Some raw) w)"
  unfolding read_journal_def read_journal_at_def by (rule runs_sys; simp add: stands_def calm_def)+

subsection \<open>A live data plane and a compatible candidate\<close>

text \<open>What an activation finds: the maps, the program and the attached primary link pinned.\<close>

definition live_plane :: "upgrade_env \<Rightarrow> path \<Rightarrow> nat \<Rightarrow> prog \<Rightarrow> (path \<Rightarrow> pinned option) \<Rightarrow> (nat \<Rightarrow> prog option) \<Rightarrow> bool" where
  "live_plane env dir i g P L \<longleftrightarrow>
     (\<exists>m r. P (open_ports_path dir) = Some (MapPin m) \<and> abi_of env ''open_ports'' m = expected_open_ports_abi \<and>
        P (redir_socket_path dir) = Some (MapPin r) \<and> abi_of env ''redir_socket'' r = expected_redir_socket_abi) \<and>
     P (sk_lookup_link_path dir) = Some (LinkPin i) \<and> P (prog_path dir) = Some (ProgPin g) \<and> L i \<noteq> None"

text \<open>A candidate with the audited maps and no other, which the verifier accepts as it is.\<close>

definition compatible :: "upgrade_env \<Rightarrow> path \<Rightarrow> prog \<Rightarrow> bool" where
  "compatible env candidate g \<longleftrightarrow> ue_is_file env candidate \<and>
     (\<exists>obj. ue_open env candidate = Inr obj \<and> set (map fst (bo_maps obj)) = set expected_map_names \<and>
        (\<forall>(name, m) \<in> set (bo_maps obj). abi_of env name m = snd (wanted_map [] name)) \<and>
        (\<forall>maps. ue_load env (obj\<lparr>bo_maps := maps\<rparr>) = Inr (obj\<lparr>bo_maps := maps\<rparr>)) \<and>
        map_of (bo_progs obj) ''dispatch'' = Some g)"

lemma wanted_map_abi: "snd (wanted_map dir name) = snd (wanted_map dir' name)"
  by (simp add: wanted_map_def)

lemma runs_lift [calm_rules]: "r = Inr x \<Longrightarrow> runs S (lift_res r) (\<lambda>y w. y = x \<and> S w)"
  by (simp add: triple_def lift_res_def)

lemma triple_False: "triple (\<lambda>_. False) m Q E"
  by (simp add: triple_def)

lemma runs_sbind_eq:
  assumes "runs S m (\<lambda>y w. y = x \<and> T w)" "triple T (f x) Q E"
  shows "triple S (sbind m f) Q E"
proof (rule triple_sbind)
  show "triple S m (\<lambda>y w. y = x \<and> T w) E" by (rule triple_weaken [OF assms(1)]) auto
  show "triple (\<lambda>w. y = x \<and> T w) (f y) Q E" for y using assms(2) by (simp add: triple_def)
qed

lemma runs_sbind_all:
  assumes "runs S m (\<lambda>_. T)" "\<And>x. triple T (f x) Q E"
  shows "triple S (sbind m f) Q E"
  by (rule triple_sbind [OF triple_weaken [OF assms(1)] assms(2)]) auto

lemma runs_given: "(\<And>s. P s \<Longrightarrow> A \<and> B \<and> S s) \<Longrightarrow> (A \<Longrightarrow> B \<Longrightarrow> runs S m Q) \<Longrightarrow> runs P m Q"
  by (simp add: triple_def)

lemma runs_pure [calm_rules]:
  "runs S (ret x) (\<lambda>y w. y = x \<and> S w)" "runs S (gets f) (\<lambda>y w. y = f w \<and> S w)"
  by (simp_all add: triple_def ret_def gets_def)

lemma layout_of_abi:
  "abi_of env ''open_ports'' m = expected_open_ports_abi \<Longrightarrow> assert_open_ports_layout (ue_ops env) m = Inr ()"
  "abi_of env ''redir_socket'' m = expected_redir_socket_abi \<Longrightarrow> assert_redir_socket_layout (ue_ops env) m = Inr ()"
  by (simp_all add: abi_of_def expected_open_ports_abi_def expected_redir_socket_abi_def assert_open_ports_layout_def
      assert_open_ports_max_entries_def assert_redir_socket_layout_def)

lemma runs_reuse:
  assumes live: "live_plane env dir i g P L"
    and maps: "\<forall>(name, m) \<in> set maps. name \<in> set expected_map_names \<and> abi_of env name m = snd (wanted_map [] name)"
  shows "runs (stands env dir P L J) (reuse_audited_maps env dir maps)
     (\<lambda>ms w. map fst ms = map fst maps \<and> (\<forall>(name, m) \<in> set ms. abi_of env name m = snd (wanted_map [] name)) \<and>
        stands env dir P L J w)"
  using maps
proof (induction maps)
  case Nil
  then show ?case by (simp add: triple_def ret_def)
next
  case (Cons nm maps)
  obtain name m where nm: "nm = (name, m)" by (cases nm)
  obtain p e where want: "wanted_map dir name = (p, e)" by (cases "wanted_map dir name")
  have name: "name \<in> set expected_map_names" and m: "abi_of env name m = e"
    using Cons.prems nm want wanted_map_abi [of "[]" name dir] by auto
  obtain l where l: "P p = Some (MapPin l)" "abi_of env name l = e"
    using live name want by (auto simp: live_plane_def wanted_map_def expected_map_names_def split: if_splits)
  have "runs (stands env dir P L J) (abi_of_pinned env p name) (\<lambda>y w. y = e \<and> stands env dir P L J w)"
    unfolding abi_of_pinned_def by (rule runs_sbind_eq [OF runs_open(2) [where P = P, OF l(1)]]) (simp add: l(2) triple_def ret_def)
  note pinned = runs_sbind_eq [OF this]
  have rest: "runs (stands env dir P L J) (sbind (reuse_audited_maps env dir maps) (\<lambda>rest. ret ((name, l) # rest)))
     (\<lambda>ms w. map fst ms = map fst (nm # maps) \<and>
        (\<forall>(name, m) \<in> set ms. abi_of env name m = snd (wanted_map [] name)) \<and> stands env dir P L J w)"
    using Cons l want wanted_map_abi [of "[]" name dir] nm by (intro triple_sbind [OF Cons.IH]) (auto simp: triple_def ret_def)
  have ok: "validate_abi e e = Inr ()" by (simp add: validate_abi_def)
  show ?case
    unfolding nm reuse_audited_maps.simps Let_def want prod.case m
    by (rule triple_if) (simp_all add: name, rule runs_sbind_eq [OF runs_lift [OF ok] pinned],
        rule runs_sbind_eq [OF runs_lift [OF ok]], rule runs_sbind_eq [OF runs_open(2) [where P = P, OF l(1)]],
        use rest nm in simp)
qed

lemma runs_load_candidate:
  assumes live: "live_plane env dir i g P L" and cand: "compatible env candidate g1"
  shows "runs (stands env dir P L J) (load_candidate env candidate dir)
     (\<lambda>obj w. dispatch_prog obj = Inr g1 \<and> stands env dir P L J w)"
proof -
  obtain obj where obj: "ue_open env candidate = Inr obj" "set (map fst (bo_maps obj)) = set expected_map_names"
    "\<forall>(name, m) \<in> set (bo_maps obj). abi_of env name m = snd (wanted_map [] name)"
    "\<And>maps. ue_load env (obj\<lparr>bo_maps := maps\<rparr>) = Inr (obj\<lparr>bo_maps := maps\<rparr>)"
    "map_of (bo_progs obj) ''dispatch'' = Some g1"
    using cand by (auto simp: compatible_def)
  have maps: "\<forall>(name, m) \<in> set (bo_maps obj). name \<in> set expected_map_names \<and> abi_of env name m = snd (wanted_map [] name)"
    using obj(2,3) by (auto simp del: set_map simp: set_map [symmetric]) force
  have rest: "runs (stands env dir P L J)
      (sbind (lift_res (require_maps expected_map_names ms)) (\<lambda>_.
        sbind (lift_res (ue_load env (obj\<lparr>bo_maps := ms\<rparr>))) (\<lambda>loaded.
        sbind (lift_res (find_map ''open_ports'' loaded)) (\<lambda>open_ports.
        sbind (lift_res (assert_open_ports_layout (ue_ops env) open_ports)) (\<lambda>_.
        sbind (lift_res (find_map ''redir_socket'' loaded)) (\<lambda>redir.
        sbind (lift_res (assert_redir_socket_layout (ue_ops env) redir)) (\<lambda>_.
          ret loaded)))))))
     (\<lambda>obj w. dispatch_prog obj = Inr g1 \<and> stands env dir P L J w)"
    if ms: "map fst ms = map fst (bo_maps obj)" "\<forall>(name, m) \<in> set ms. abi_of env name m = snd (wanted_map [] name)"
    for ms
  proof -
    have keys: "fst ` set ms = set expected_map_names" using ms(1) obj(2) by (metis set_map)
    then have req: "require_maps expected_map_names ms = Inr ()" by (simp add: expected_map_names_def)
    obtain m r where m: "map_of ms ''open_ports'' = Some m" "map_of ms ''redir_socket'' = Some r"
      using keys by (metis expected_map_names_def domIff dom_map_of_conv_image_fst list.set_intros not_None_eq)
    then have "abi_of env ''open_ports'' m = expected_open_ports_abi" "abi_of env ''redir_socket'' r = expected_redir_socket_abi"
      using ms(2) map_of_SomeD [OF m(1)] map_of_SomeD [OF m(2)] by (auto simp: wanted_map_def)
    note lay = layout_of_abi(1) [OF this(1)] layout_of_abi(2) [OF this(2)]
    show ?thesis
      by (simp add: req obj(4) find_map_def m lay sbind_def lift_res_def ret_def triple_def dispatch_prog_def obj(5))
  qed
  have isf: "ue_is_file env candidate" using cand by (simp add: compatible_def)
  show ?thesis
    unfolding load_candidate_def
    by (simp only: isf not_True_eq_False if_False, rule runs_sbind_eq [OF runs_lift [OF obj(1)]],
        rule triple_sbind [OF runs_reuse [OF live maps]], rule runs_given [OF _ rest]) auto
qed

lemma runs_on_result:
  "runs S m (\<lambda>x w. x = y \<and> T w) \<Longrightarrow> runs T (k y) Q \<Longrightarrow> runs S (on_result m h k) Q"
  by (rule triple_on_result [where F = "\<lambda>_. False"]) (auto simp: triple_def)

lemma runs_fails:
  "triple S m (\<lambda>_ _. False) T \<Longrightarrow> (\<And>e. triple T (h e) Q E) \<Longrightarrow> triple S (on_result m h k) Q E"
  by (rule triple_on_result [where R = "\<lambda>_ _. False" and F = T]) (simp_all add: triple_def)

lemma runs_health_check:
  assumes live: "live_plane env dir i g P L" and env: "ue_fail_health env \<noteq> Some ''1''" "window \<le> max_health_window"
  shows "runs (stands env dir P L J) (health_check env dir window) (\<lambda>_. stands env dir P L J)"
proof -
  obtain m r where m: "P (open_ports_path dir) = Some (MapPin m)" "abi_of env ''open_ports'' m = expected_open_ports_abi"
    "P (redir_socket_path dir) = Some (MapPin r)" "abi_of env ''redir_socket'' r = expected_redir_socket_abi"
    "P (sk_lookup_link_path dir) = Some (LinkPin i)" "P (prog_path dir) = Some (ProgPin g)"
    using live by (auto simp: live_plane_def)
  have "\<not> max_health_window < window" using env(2) by simp
  note lay = layout_of_abi(1) [OF m(2)] layout_of_abi(2) [OF m(4)]
  have tail: "runs (stands env dir P L J) (sbind (open_map (open_ports_path dir)) (\<lambda>open_ports.
      sbind (lift_res (assert_open_ports_layout (ue_ops env) open_ports)) (\<lambda>_.
      sbind (open_map (redir_socket_path dir)) (\<lambda>redir.
      sbind (lift_res (assert_redir_socket_layout (ue_ops env) redir)) (\<lambda>_.
      sbind (open_pinned (prog_path dir)) (\<lambda>_. ret ())))))) (\<lambda>_. stands env dir P L J)"
    by (rule runs_sbind_eq [OF runs_open(2) [where P = P, OF m(1)]], rule runs_sbind_eq [OF runs_lift [OF lay(1)]],
        rule runs_sbind_eq [OF runs_open(2) [where P = P, OF m(3)]], rule runs_sbind_eq [OF runs_lift [OF lay(2)]],
        rule runs_sbind_eq [OF runs_open(1) [where P = P, OF m(6)]]) (simp add: triple_def ret_def)
  have linked: "runs (stands env dir P L J) (gets (link_pinned dir)) (\<lambda>b w. b = True \<and> stands env dir P L J w)"
    by (simp add: triple_def gets_def link_pinned_def pin_exists_def stands_def m(5))
  show ?thesis
    unfolding health_check_def
    by (simp only: env(1) \<open>\<not> max_health_window < window\<close> if_False, rule runs_sbind_eq [OF linked])
      (simp add: tail)
qed

text \<open>A forced failure of the health check, or a window beyond the limit.\<close>

lemma health_check_fails:
  assumes "ue_fail_health env = Some ''1'' \<or> window > max_health_window"
  shows "triple S (health_check env dir window) (\<lambda>_ _. False) S"
  using assms by (auto simp: health_check_def triple_def fail_def)

subsection \<open>Activation\<close>

definition ready :: "upgrade_env \<Rightarrow> path \<Rightarrow> path \<Rightarrow> nat \<Rightarrow> prog \<Rightarrow> prog \<Rightarrow> bpf_world \<Rightarrow> bool" where
  "ready env dir candidate i g g1 w \<longleftrightarrow>
     calm w \<and> live_plane env dir i g (bw_pins w) (bw_links w) \<and> compatible env candidate g1 \<and>
     (case bw_files w (resolve (journal_path env dir)) of
        None \<Rightarrow> True
      | Some raw \<Rightarrow> (case ue_parse env raw of None \<Rightarrow> False | Some j \<Rightarrow> terminal (j_phase j)))"

lemma prog_pins_distinct [simp]:
  "prog_path dir \<noteq> prog_previous_path dir" "prog_path dir \<noteq> prog_candidate_path dir"
  "prog_previous_path dir \<noteq> prog_path dir" "prog_candidate_path dir \<noteq> prog_path dir"
  "prog_candidate_path dir \<noteq> prog_previous_path dir" "prog_previous_path dir \<noteq> prog_candidate_path dir"
  "sk_lookup_link_path dir \<noteq> prog_path dir" "sk_lookup_link_path dir \<noteq> prog_previous_path dir"
  "sk_lookup_link_path dir \<noteq> prog_candidate_path dir"
  by (simp_all add: prog_path_def prog_previous_path_def prog_candidate_path_def sk_lookup_link_path_def)

lemma live_plane_prog_pins:
  "live_plane env dir i g P L \<Longrightarrow> (\<forall>p. p \<notin> prog_pins dir \<longrightarrow> P' p = P p) \<Longrightarrow> P' (prog_path dir) = Some (ProgPin h) \<Longrightarrow>
     L' i \<noteq> None \<Longrightarrow> live_plane env dir i h P' L'"
  by (auto simp: live_plane_def)

lemma runs_attempt:
  "triple S m (\<lambda>_. T) T \<Longrightarrow> runs S (attempt m) (\<lambda>_. T)"
  by (rule triple_attempt)

lemma runs_clear_candidate [calm_rules]:
  "runs (stands env dir P L J) (attempt (pin_remove p)) (\<lambda>_. stands env dir (P(p := None)) L J)"
proof (cases "P p")
  case None
  then have "P(p := None) = P" by auto
  then show ?thesis
    by (auto simp: triple_def attempt_def pin_remove_def stands_def sys_calm Let_def calm_def None)
next
  case (Some x)
  then show ?thesis by (intro runs_attempt triple_weaken [OF runs_pins(1)]) auto
qed

lemma runs_promote:
  assumes live: "live_plane env dir i g1 P L" and env: "ue_fail_health env \<noteq> Some ''1''" "window \<le> max_health_window"
  shows "runs (stands env dir P L J) (promote env dir window i old_fd j)
     (\<lambda>j1 w. j_phase j1 = Committed \<and> stands env dir P L (Some (ue_print env j1 @ [CHR 0x0A])) w)"
  unfolding promote_def
  by (rule runs_sbind_eq [OF runs_mark], rule triple_on_result [OF runs_health_check [OF live env]],
      rule triple_weaken [OF runs_mark]) (auto simp: triple_def)

lemma runs_swap_pins:
  assumes "P (prog_path dir) = Some x" "P (prog_candidate_path dir) = Some y"
  shows "runs (stands env dir P L J) (swap_pins dir)
     (\<lambda>_. stands env dir (P(prog_path dir := Some y, prog_previous_path dir := Some x, prog_candidate_path dir := None)) L J)"
proof -
  let ?Q = "(P(prog_path dir := None, prog_previous_path dir := Some x))"
  have "?Q(prog_candidate_path dir := None, prog_path dir := Some y) =
      P(prog_path dir := Some y, prog_previous_path dir := Some x, prog_candidate_path dir := None)"
    by auto
  moreover have "?Q (prog_candidate_path dir) = Some y" by (simp add: assms(2))
  note runs_pins(2) [where P = ?Q, OF this]
  ultimately show ?thesis
    unfolding swap_pins_def
    by (intro runs_sbind_all [OF runs_pins(2) [where P = P, OF assms(1)]]) metis
qed

lemma runs_switch_link:
  assumes live: "live_plane env dir i g P L" and cand: "P (prog_candidate_path dir) = Some (ProgPin g1)"
    and env: "ue_fail_health env \<noteq> Some ''1''" "window \<le> max_health_window"
  shows "runs (stands env dir P L J) (switch_link env dir window i (ProgPin g) g1 j)
     (\<lambda>j1 w. j_phase j1 = Committed \<and>
        stands env dir (P(prog_path dir := Some (ProgPin g1), prog_previous_path dir := Some (ProgPin g),
            prog_candidate_path dir := None)) (L(i := Some g1)) (Some (ue_print env j1 @ [CHR 0x0A])) w)"
proof -
  let ?P = "P(prog_path dir := Some (ProgPin g1), prog_previous_path dir := Some (ProgPin g), prog_candidate_path dir := None)"
  have P: "P (prog_path dir) = Some (ProgPin g)" and L: "L i \<noteq> None" using live by (auto simp: live_plane_def)
  have live1: "live_plane env dir i g1 ?P (L(i := Some g1))"
    by (rule live_plane_prog_pins [OF live]) (auto simp: prog_pins_def)
  show ?thesis
    unfolding switch_link_def
    by (rule runs_sbind_eq [OF runs_mark], rule triple_on_result [OF runs_link_update [where L = L, OF L]],
        rule triple_on_result [OF runs_swap_pins [where P = P, OF P cand]], rule runs_promote [OF live1 env])
      (simp_all add: triple_def)
qed

text \<open>After a failed health check the link and the program pins are back.\<close>

lemma runs_back:
  assumes "P (prog_path dir) = Some y" "P (prog_previous_path dir) = Some x"
  shows "runs (stands env dir P L J) (attempt (pin_rename (prog_path dir) (prog_candidate_path dir)))
      (\<lambda>_. stands env dir (P(prog_path dir := None, prog_candidate_path dir := Some y)) L J)"
    "runs (stands env dir (P(prog_path dir := None, prog_candidate_path dir := Some y)) L J)
      (pin_rename (prog_previous_path dir) (prog_path dir))
      (\<lambda>_. stands env dir (P(prog_path dir := Some x, prog_previous_path dir := None, prog_candidate_path dir := Some y)) L J)"
    "runs (stands env dir (P(prog_path dir := Some x, prog_previous_path dir := None, prog_candidate_path dir := Some y)) L J)
      (attempt (pin_remove (prog_candidate_path dir)))
      (\<lambda>_. stands env dir (P(prog_path dir := Some x, prog_previous_path dir := None, prog_candidate_path dir := None)) L J)"
proof -
  let ?Q = "P(prog_path dir := None, prog_candidate_path dir := Some y)"
  show "runs (stands env dir P L J) (attempt (pin_rename (prog_path dir) (prog_candidate_path dir)))
      (\<lambda>_. stands env dir ?Q L J)"
    by (intro runs_attempt triple_weaken [OF runs_pins(2) [where P = P, OF assms(1)]]) auto
  have "?Q (prog_previous_path dir) = Some x" by (simp add: assms(2))
  note runs_pins(2) [where P = ?Q, OF this, where q = "prog_path dir"]
  moreover have "?Q(prog_previous_path dir := None, prog_path dir := Some x) =
      P(prog_path dir := Some x, prog_previous_path dir := None, prog_candidate_path dir := Some y)"
    by auto
  ultimately show "runs (stands env dir ?Q L J) (pin_rename (prog_previous_path dir) (prog_path dir))
      (\<lambda>_. stands env dir (P(prog_path dir := Some x, prog_previous_path dir := None, prog_candidate_path dir := Some y)) L J)"
    by metis
  show "runs (stands env dir (P(prog_path dir := Some x, prog_previous_path dir := None, prog_candidate_path dir := Some y)) L J)
      (attempt (pin_remove (prog_candidate_path dir)))
      (\<lambda>_. stands env dir (P(prog_path dir := Some x, prog_previous_path dir := None, prog_candidate_path dir := None)) L J)"
    using runs_clear_candidate [where P = "P(prog_path dir := Some x, prog_previous_path dir := None, prog_candidate_path dir := Some y)"
      and p = "prog_candidate_path dir"] by (simp only: fun_upd_upd)
qed

lemma runs_undo_health:
  assumes P: "P (prog_path dir) = Some y" "P (prog_previous_path dir) = Some (ProgPin g)" and L: "L i \<noteq> None"
  shows "triple (stands env dir P L J) (undo_health env dir i (ProgPin g) j e) (\<lambda>_ _. False)
     (\<lambda>w. \<exists>j1. j_phase j1 = RolledBack \<and>
        stands env dir (P(prog_path dir := Some (ProgPin g), prog_previous_path dir := None, prog_candidate_path dir := None))
          (L(i := Some g)) (Some (ue_print env j1 @ [CHR 0x0A])) w)"
proof -
  have done_: "triple (stands env dir P' L' J') (sbind (mark env dir j1 RolledBack d) (\<lambda>_. fail e1 :: journal bpf_act))
      (\<lambda>_ _. False) (\<lambda>w. \<exists>j1. j_phase j1 = RolledBack \<and> stands env dir P' L' (Some (ue_print env j1 @ [CHR 0x0A])) w)"
    for P' L' J' j1 d e1
    by (rule runs_sbind_eq [OF runs_mark])
      (auto simp: triple_def fail_def intro!: exI [of _ "j1\<lparr>j_phase := RolledBack, j_detail := d\<rparr>"])
  show ?thesis
    unfolding undo_health_def Let_def
    by (rule runs_sbind_eq [OF runs_mark], rule triple_on_result [OF runs_link_update [where L = L, OF L]],
        rule runs_sbind_all [OF runs_back(1) [where P = P, OF P]],
        rule runs_sbind_all [OF runs_attempt [OF triple_weaken [OF runs_back(2) [where P = P, OF P]]]],
        assumption, assumption, erule FalseE, rule runs_sbind_all [OF runs_back(3) [where P = P, OF P]],
        simp only: sum.case old.unit.case, rule done_, rule triple_False)
qed

lemma fails_switch_link:
  assumes live: "live_plane env dir i g P L" and cand: "P (prog_candidate_path dir) = Some (ProgPin g1)"
    and env: "ue_fail_health env = Some ''1'' \<or> window > max_health_window"
  shows "triple (stands env dir P L J) (switch_link env dir window i (ProgPin g) g1 j) (\<lambda>_ _. False)
     (\<lambda>w. \<exists>j1. j_phase j1 = RolledBack \<and>
        stands env dir (P(prog_previous_path dir := None, prog_candidate_path dir := None)) (L(i := Some g))
          (Some (ue_print env j1 @ [CHR 0x0A])) w)"
proof -
  let ?P = "P(prog_path dir := Some (ProgPin g1), prog_previous_path dir := Some (ProgPin g), prog_candidate_path dir := None)"
  have P: "P (prog_path dir) = Some (ProgPin g)" and L: "L i \<noteq> None" using live by (auto simp: live_plane_def)
  have "?P (prog_path dir) = Some (ProgPin g1)" "?P (prog_previous_path dir) = Some (ProgPin g)" "(L(i := Some g1)) i \<noteq> None"
    by simp_all
  note back_rule = runs_undo_health [where P = ?P and L = "L(i := Some g1)", OF this]
  have same_pins: "?P(prog_path dir := Some (ProgPin g), prog_previous_path dir := None, prog_candidate_path dir := None) =
      P(prog_previous_path dir := None, prog_candidate_path dir := None)"
    using P by auto
  show ?thesis
    unfolding switch_link_def promote_def
    by (rule runs_sbind_eq [OF runs_mark], rule triple_on_result [OF runs_link_update [where L = L, OF L]],
        rule triple_on_result [OF runs_swap_pins [where P = P, OF P cand]], rule runs_sbind_eq [OF runs_mark],
        rule runs_fails [OF health_check_fails [OF env]], rule triple_weaken [OF back_rule [unfolded same_pins fun_upd_upd]])
      (simp_all add: triple_False)
qed

lemma runs_not_in_progress:
  assumes J: "case J of None \<Rightarrow> True | Some raw \<Rightarrow> (case ue_parse env raw of None \<Rightarrow> False | Some j \<Rightarrow> terminal (j_phase j))"
  shows "runs (stands env dir P L J) (not_in_progress env dir) (\<lambda>_. stands env dir P L J)"
proof (cases J)
  case None
  show ?thesis
    unfolding not_in_progress_def None
    by (rule runs_sbind_eq [OF runs_read_journal(1)]) (simp add: triple_def ret_def)
next
  case (Some raw)
  then obtain j where j: "ue_parse env raw = Some j" "terminal (j_phase j)" using J by (auto split: option.splits)
  show ?thesis
    unfolding not_in_progress_def Some
    by (rule runs_sbind_eq [OF runs_read_journal(2) [OF j(1)]]) (simp add: j(2) triple_def ret_def)
qed

lemma runs_live_pins:
  "live_plane env dir i g P L \<Longrightarrow> runs (stands env dir P L J) (require_live_pins dir) (\<lambda>_. stands env dir P L J)"
  by (auto simp: triple_def require_live_pins_def getr_def stands_def live_plane_def maps_pinned_def
      link_pinned_def pin_exists_def)

lemma runs_preflight:
  assumes "live_plane env dir i g P L" "compatible env candidate g1"
  shows "runs (stands env dir P L J) (preflight env dir candidate window)
      (\<lambda>obj w. dispatch_prog obj = Inr g1 \<and> stands env dir P L J w)"
  unfolding preflight_def
  by (rule triple_on_result [OF runs_load_candidate [OF assms]]) (auto simp: triple_def ret_def)

lemma runs_candidate_pin:
  assumes "P (sk_lookup_link_path dir) = Some (LinkPin i)"
  shows "runs (stands env dir (P(prog_candidate_path dir := None)) L J) (open_link (sk_lookup_link_path dir))
      (\<lambda>y w. y = i \<and> stands env dir (P(prog_candidate_path dir := None)) L J w)"
    "runs (stands env dir (P(prog_candidate_path dir := None)) L J) (pin_object (prog_candidate_path dir) x)
      (\<lambda>_. stands env dir (P(prog_candidate_path dir := Some x)) L J)"
proof -
  have "(P(prog_candidate_path dir := None)) (prog_candidate_path dir) = None" by simp
  from runs_pins(3) [where P = "P(prog_candidate_path dir := None)", OF this]
  show "runs (stands env dir (P(prog_candidate_path dir := None)) L J) (pin_object (prog_candidate_path dir) x)
      (\<lambda>_. stands env dir (P(prog_candidate_path dir := Some x)) L J)" by (simp only: fun_upd_upd)
  have "(P(prog_candidate_path dir := None)) (sk_lookup_link_path dir) = Some (LinkPin i)" by (simp add: assms)
  from runs_open(3) [where P = "P(prog_candidate_path dir := None)", OF this]
  show "runs (stands env dir (P(prog_candidate_path dir := None)) L J) (open_link (sk_lookup_link_path dir))
      (\<lambda>y w. y = i \<and> stands env dir (P(prog_candidate_path dir := None)) L J w)" .
qed

lemma runs_start:
  assumes live: "live_plane env dir i g P L" and cand: "compatible env candidate g1"
    and J: "case J of None \<Rightarrow> True | Some raw \<Rightarrow> (case ue_parse env raw of None \<Rightarrow> False | Some j \<Rightarrow> terminal (j_phase j))"
    and go: "\<And>J' j. triple (stands env dir (P(prog_candidate_path dir := Some (ProgPin g1))) L J')
        (switch_link env dir window i (ProgPin g) g1 j) Q E"
  shows "triple (stands env dir P L J) (activate env dir candidate window) Q E"
proof -
  have P: "P (prog_path dir) = Some (ProgPin g)" "P (sk_lookup_link_path dir) = Some (LinkPin i)"
    using live by (auto simp: live_plane_def)
  have pre: "triple (stands env dir P L J) (preflight env dir candidate window)
      (\<lambda>obj w. dispatch_prog obj = Inr g1 \<and> stands env dir P L J w) E"
    by (rule triple_weaken [OF runs_preflight [OF live cand]]) auto
  have dispatch: "triple (\<lambda>w. dispatch_prog obj = Inr g1 \<and> stands env dir P L J w)
      (sbind (lift_res (dispatch_prog obj)) f) Q E"
    if "triple (stands env dir P L J) (f g1) Q E" for obj f
    using that by (auto simp: triple_def sbind_def lift_res_def)
  show ?thesis
    unfolding activate_def Let_def pin_candidate_def
    by (rule runs_sbind_all [OF runs_not_in_progress [OF J]], rule runs_sbind_all [OF runs_live_pins [OF live]],
        rule runs_sbind_eq [OF runs_open(1) [where P = P, OF P(1)]], rule triple_sbind [OF pre], rule dispatch,
        rule runs_sbind_all [OF runs_write_journal], rule runs_sbind_all [OF runs_clear_candidate],
        rule runs_sbind_eq [OF triple_in_context [OF runs_candidate_pin(1) [where P = P, OF P(2)]]],
        rule triple_on_result [OF runs_candidate_pin(2) [where P = P, OF P(2)]], rule go, rule triple_False)
qed

lemma runs_ex: "runs P m Q \<Longrightarrow> P w \<Longrightarrow> \<exists>x t. m w = (Inr x, t) \<and> Q x t"
  by (cases "m w"; cases "fst (m w)") (auto simp: triple_def)

lemma fails_ex: "triple P m (\<lambda>_ _. False) E \<Longrightarrow> P w \<Longrightarrow> \<exists>e t. m w = (Inl e, t) \<and> E t"
  by (cases "m w"; cases "fst (m w)") (auto simp: triple_def)

lemma ready_stands:
  "ready env dir candidate i g g1 w \<Longrightarrow>
     stands env dir (bw_pins w) (bw_links w) (bw_files w (resolve (journal_path env dir))) w"
  by (simp add: ready_def stands_def)

lemma readyD:
  assumes "ready env dir candidate i g g1 w"
  shows "live_plane env dir i g (bw_pins w) (bw_links w)" "compatible env candidate g1"
    "case bw_files w (resolve (journal_path env dir)) of None \<Rightarrow> True
     | Some raw \<Rightarrow> (case ue_parse env raw of None \<Rightarrow> False | Some j \<Rightarrow> terminal (j_phase j))"
  using assms by (simp_all add: ready_def)

lemma live_plane_candidate:
  "live_plane env dir i g P L \<Longrightarrow> live_plane env dir i g (P(prog_candidate_path dir := x)) L"
  by (simp add: live_plane_def prog_candidate_path_def open_ports_path_def redir_socket_path_def
      sk_lookup_link_path_def prog_path_def)

lemma activate_promotes:
  assumes "ready env dir candidate i g g1 w" "ue_fail_health env \<noteq> Some ''1''" "window \<le> max_health_window"
  shows "\<exists>j t. activate env dir candidate window w = (Inr j, t) \<and> j_phase j = Committed \<and>
     stands env dir ((bw_pins w)(prog_path dir := Some (ProgPin g1), prog_previous_path dir := Some (ProgPin g),
         prog_candidate_path dir := None)) ((bw_links w)(i := Some g1)) (Some (ue_print env j @ [CHR 0x0A])) t"
proof -
  let ?P = "(bw_pins w)(prog_candidate_path dir := Some (ProgPin g1))"
  have live: "live_plane env dir i g ?P (bw_links w)" by (rule live_plane_candidate [OF readyD(1) [OF assms(1)]])
  have cand: "?P (prog_candidate_path dir) = Some (ProgPin g1)" by simp
  have "?P(prog_path dir := Some (ProgPin g1), prog_previous_path dir := Some (ProgPin g), prog_candidate_path dir := None) =
      (bw_pins w)(prog_path dir := Some (ProgPin g1), prog_previous_path dir := Some (ProgPin g), prog_candidate_path dir := None)"
    by auto
  note go = runs_switch_link [OF live cand assms(2,3), unfolded this]
  show ?thesis
    by (rule runs_ex [OF runs_start [OF readyD [OF assms(1)] go] ready_stands [OF assms(1)]])
qed

lemma activate_reverts:
  assumes "ready env dir candidate i g g1 w" "ue_fail_health env = Some ''1'' \<or> window > max_health_window"
  shows "\<exists>e t j. activate env dir candidate window w = (Inl e, t) \<and> j_phase j = RolledBack \<and>
     stands env dir ((bw_pins w)(prog_previous_path dir := None, prog_candidate_path dir := None))
       ((bw_links w)(i := Some g)) (Some (ue_print env j @ [CHR 0x0A])) t"
proof -
  let ?P = "(bw_pins w)(prog_candidate_path dir := Some (ProgPin g1))"
  have live: "live_plane env dir i g ?P (bw_links w)" by (rule live_plane_candidate [OF readyD(1) [OF assms(1)]])
  have cand: "?P (prog_candidate_path dir) = Some (ProgPin g1)" by simp
  have "?P(prog_previous_path dir := None, prog_candidate_path dir := None) =
      (bw_pins w)(prog_previous_path dir := None, prog_candidate_path dir := None)"
    by auto
  note go = fails_switch_link [OF live cand assms(2), unfolded this]
  have "\<exists>e t. activate env dir candidate window w = (Inl e, t) \<and> (\<exists>j1. j_phase j1 = RolledBack \<and>
      stands env dir ((bw_pins w)(prog_previous_path dir := None, prog_candidate_path dir := None))
        ((bw_links w)(i := Some g)) (Some (ue_print env j1 @ [CHR 0x0A])) t)"
    by (rule fails_ex [OF runs_start [OF readyD [OF assms(1)] go] ready_stands [OF assms(1)]])
  then show ?thesis by blast
qed

subsection \<open>Rollback\<close>

lemma runs_read_some:
  assumes "\<And>raw. J = Some raw \<Longrightarrow> ue_parse env raw \<noteq> None"
  shows "\<exists>x. runs (stands env dir P L J) (read_journal env dir) (\<lambda>y w. y = x \<and> stands env dir P L J w)"
proof (cases J)
  case None
  then show ?thesis using runs_read_journal(1) by blast
next
  case (Some raw)
  then obtain j where "ue_parse env raw = Some j" using assms by blast
  then show ?thesis using runs_read_journal(2) Some by blast
qed

lemma rollback_without_previous:
  assumes "calm w" "bw_pins w (prog_previous_path dir) = None"
    and J: "\<And>raw. bw_files w (resolve (journal_path env dir)) = Some raw \<Longrightarrow> ue_parse env raw \<noteq> None"
  shows "\<exists>j t. rollback env dir w = (Inr j, t) \<and>
     (j_phase j = RolledBack \<and> j_detail j = ''no prog_previous; candidate pin cleared (live link unchanged)'') \<and>
     stands env dir ((bw_pins w)(prog_candidate_path dir := None)) (bw_links w) (Some (ue_print env j @ [CHR 0x0A])) t"
proof -
  let ?J = "bw_files w (resolve (journal_path env dir))" and ?P = "bw_pins w" and ?L = "bw_links w"
  obtain x where jr: "runs (stands env dir ?P ?L ?J) (read_journal env dir) (\<lambda>y w. y = x \<and> stands env dir ?P ?L ?J w)"
    using runs_read_some J by metis
  have no: "runs (stands env dir ?P ?L J) (gets (pin_exists (prog_previous_path dir))) (\<lambda>b w. b = False \<and> stands env dir ?P ?L J w)" for J
    by (simp add: triple_def gets_def pin_exists_def stands_def assms(2))
  have last_: "runs (stands env dir P' ?L J') (mark env dir j1 RolledBack d)
     (\<lambda>j w. (j_phase j = RolledBack \<and> j_detail j = d) \<and> stands env dir P' ?L (Some (ue_print env j @ [CHR 0x0A])) w)" for P' J' j1 d
    by (rule triple_weaken [OF runs_mark]) auto
  have "runs (stands env dir ?P ?L ?J) (rollback env dir)
     (\<lambda>j w. (j_phase j = RolledBack \<and> j_detail j = ''no prog_previous; candidate pin cleared (live link unchanged)'') \<and>
        stands env dir (?P(prog_candidate_path dir := None)) ?L (Some (ue_print env j @ [CHR 0x0A])) w)"
    unfolding rollback_def Let_def
    by (rule runs_sbind_eq [OF jr], rule runs_sbind_eq [OF no], simp only: not_False_eq_True if_True,
        rule runs_sbind_all [OF runs_clear_candidate], rule last_)
  then show ?thesis by (rule runs_ex) (simp add: stands_def assms(1))
qed

lemma rollback_restores:
  assumes "calm w" and link: "bw_pins w (sk_lookup_link_path dir) = Some (LinkPin i)" "bw_links w i \<noteq> None"
    and prev: "bw_pins w (prog_previous_path dir) = Some (ProgPin g)" and cur: "bw_pins w (prog_path dir) = Some y"
    and J: "\<And>raw. bw_files w (resolve (journal_path env dir)) = Some raw \<Longrightarrow> ue_parse env raw \<noteq> None"
  shows "\<exists>j t. rollback env dir w = (Inr j, t) \<and> j_phase j = RolledBack \<and>
     stands env dir ((bw_pins w)(prog_path dir := Some (ProgPin g), prog_previous_path dir := None,
         prog_candidate_path dir := None)) ((bw_links w)(i := Some g)) (Some (ue_print env j @ [CHR 0x0A])) t"
proof (rule runs_ex [where P = "stands env dir (bw_pins w) (bw_links w) (bw_files w (resolve (journal_path env dir)))"])
  let ?J = "bw_files w (resolve (journal_path env dir))" and ?P = "bw_pins w" and ?L = "bw_links w"
  show "stands env dir ?P ?L ?J w" using assms(1) by (simp add: stands_def)
  obtain x where jr: "runs (stands env dir ?P ?L ?J) (read_journal env dir) (\<lambda>y w. y = x \<and> stands env dir ?P ?L ?J w)"
    using runs_read_some J by metis
  have g1: "runs (stands env dir ?P ?L J) (gets (pin_exists (prog_previous_path dir))) (\<lambda>b w. b = True \<and> stands env dir ?P ?L J w)"
    "runs (stands env dir ?P ?L J) (gets (link_pinned dir)) (\<lambda>b w. b = True \<and> stands env dir ?P ?L J w)" for J
    by (simp_all add: triple_def gets_def link_pinned_def pin_exists_def stands_def link prev)
  have g2: "runs (stands env dir ?P L J) (gets (pin_exists (prog_path dir))) (\<lambda>b w. b = True \<and> stands env dir ?P L J w)" for L J
    by (simp add: triple_def gets_def pin_exists_def stands_def cur)
  have last_: "runs (stands env dir P' L' J') (mark env dir j1 RolledBack d)
     (\<lambda>j w. j_phase j = RolledBack \<and> stands env dir P' L' (Some (ue_print env j @ [CHR 0x0A])) w)" for P' L' J' j1 d
    by (rule triple_weaken [OF runs_mark]) auto
  have restore: "runs (stands env dir ?P ?L J) (restore_previous env dir i (ProgPin g) j)
     (\<lambda>j w. j_phase j = RolledBack \<and> stands env dir (?P(prog_path dir := Some (ProgPin g), prog_previous_path dir := None,
         prog_candidate_path dir := None)) (?L(i := Some g)) (Some (ue_print env j @ [CHR 0x0A])) w)" for J j
    unfolding restore_previous_def
    by (rule triple_on_result [OF runs_link_update [where L = ?L, OF link(2)]], rule runs_sbind_eq [OF g2],
        simp only: if_True, rule runs_sbind_all [OF runs_back(1) [where P = ?P, OF cur prev]],
        rule runs_sbind_all [OF triple_in_context [OF runs_back(2) [where P = ?P, OF cur prev]]],
        rule runs_sbind_all [OF runs_back(3) [where P = ?P, OF cur prev]], rule last_, rule triple_False)
  show "runs (stands env dir ?P ?L ?J) (rollback env dir)
     (\<lambda>j w. j_phase j = RolledBack \<and> stands env dir (?P(prog_path dir := Some (ProgPin g), prog_previous_path dir := None,
         prog_candidate_path dir := None)) (?L(i := Some g)) (Some (ue_print env j @ [CHR 0x0A])) w)"
    unfolding rollback_def Let_def
    by (rule runs_sbind_eq [OF jr], rule runs_sbind_eq [OF g1(1)], simp only: not_True_eq_False if_False,
        rule runs_sbind_eq [OF g1(2)], simp only: not_True_eq_False if_False, rule runs_sbind_eq [OF runs_mark],
        rule runs_sbind_eq [OF runs_open(1) [where P = ?P, OF prev]],
        rule runs_sbind_eq [OF runs_open(3) [where P = ?P, OF link(1)]], rule restore)
qed

end
