(* ===== verification/Upgrade_Undo.thy ===== *)
theory Upgrade_Undo
  imports Upgrade_Live
begin

text \<open>
  The ways back of an upgrade: what a health check that fails for any reason leaves behind, and what a
  rollback finds after the process was killed between the update of the link and the renames of the pins.
\<close>

subsection \<open>A failed health check\<close>

text \<open>The two arms of the last match, with the journal entry each of them makes.\<close>

lemma undo_health_eq:
  "undo_health env dir i x j e = sbind (mark env dir j RollingBack (''health failed: '' @ ue_show env e)) (\<lambda>j1.
     let finish = (\<lambda>ph detail.
         sbind (attempt (pin_rename (prog_path dir) (prog_candidate_path dir))) (\<lambda>_.
         sbind (attempt (pin_rename (prog_previous_path dir) (prog_path dir))) (\<lambda>_.
         sbind (attempt (pin_remove (prog_candidate_path dir))) (\<lambda>_.
         sbind (mark env dir j1 ph detail) (\<lambda>_. fail (Ctx (Doing ''candidate health window'') e))))))
     in on_result (link_update (sk_lookup_link_path dir) i x)
       (\<lambda>re. finish Failed (''health='' @ ue_show env e @ ''; rollback='' @ ue_show env re))
       (\<lambda>_. finish RolledBack (''health rollback: '' @ ue_show env e)))"
  unfolding undo_health_def Let_def sum.case old.unit.case ..

lemma undo_health_reverts:
  assumes "stands env dir P L J w" "P (prog_previous_path dir) = Some (ProgPin g)"
  shows "\<exists>t j2. undo_health env dir i (ProgPin g) j e w = (Inl (Ctx (Doing ''candidate health window'') e), t) \<and>
     j_phase j2 = (if L i = None then Failed else RolledBack) \<and>
     stands env dir (P(prog_path dir := Some (ProgPin g), prog_previous_path dir := None, prog_candidate_path dir := None))
       (if L i = None then L else L(i := Some g)) (Some (ue_print env j2 @ [CHR 0x0A])) t"
proof -
  let ?L = "if L i = None then L else L(i := Some g)"
  obtain j1 a J1 where a: "mark env dir j RollingBack (''health failed: '' @ ue_show env e) w = (Inr j1, a)" "stands env dir P L J1 a"
    using runs_ex [OF runs_mark assms(1)] by blast
  obtain r b where b: "link_update (sk_lookup_link_path dir) i (ProgPin g) a = (r, b)" by fastforce
  have link: "is_ok r \<longleftrightarrow> L i \<noteq> None" "stands env dir P ?L J1 b"
    using a(2) b by (auto simp: link_update_def stands_def sys_calm Let_def split: option.splits) (auto simp: calm_def)
  define c where "c = snd (pin_rename (prog_path dir) (prog_candidate_path dir) b)"
  obtain P1 where c: "stands env dir P1 ?L J1 c" "P1 (prog_previous_path dir) = Some (ProgPin g)"
    "\<forall>q. q \<notin> prog_pins dir \<longrightarrow> P1 q = P q"
  proof (cases "P (prog_path dir)")
    case None
    then have "stands env dir P ?L J1 c"
      using link(2) by (simp add: c_def pin_rename_def stands_def sys_calm Let_def) (auto simp: calm_def)
    then show ?thesis using assms(2) that by blast
  next
    case (Some x)
    obtain t where "pin_rename (prog_path dir) (prog_candidate_path dir) b = (Inr (), t)"
      "stands env dir (P(prog_path dir := None, prog_candidate_path dir := Some x)) ?L J1 t"
      using runs_ex [OF runs_pins(2) [where P = P, OF Some] link(2)] by auto
    then have "stands env dir (P(prog_path dir := None, prog_candidate_path dir := Some x)) ?L J1 c" by (simp add: c_def)
    then show ?thesis by (rule that) (auto simp: assms(2) prog_pins_def)
  qed
  obtain d where d: "pin_rename (prog_previous_path dir) (prog_path dir) c = (Inr (), d)"
    "stands env dir (P1(prog_previous_path dir := None, prog_path dir := Some (ProgPin g))) ?L J1 d"
    using runs_ex [OF runs_pins(2) [where P = P1, OF c(2)] c(1)] by auto
  have swap: "P1(prog_previous_path dir := None, prog_path dir := Some (ProgPin g), prog_candidate_path dir := None) =
      P(prog_path dir := Some (ProgPin g), prog_previous_path dir := None, prog_candidate_path dir := None)"
    using c(3) by (auto simp: prog_pins_def fun_eq_iff)
  obtain k where k: "attempt (pin_remove (prog_candidate_path dir)) d = (Inr (), k)"
    "stands env dir (P(prog_path dir := Some (ProgPin g), prog_previous_path dir := None, prog_candidate_path dir := None)) ?L J1 k"
    using runs_ex [OF runs_clear_candidate d(2), of "prog_candidate_path dir"] unfolding swap by (auto simp del: fun_upd_apply)
  define ph where "ph = (if L i = None then Failed else RolledBack)"
  define dt where "dt = (case r of Inr u \<Rightarrow> ''health rollback: '' @ ue_show env e
      | Inl re \<Rightarrow> ''health='' @ ue_show env e @ ''; rollback='' @ ue_show env re)"
  obtain j2 t where t: "mark env dir j1 ph dt k = (Inr j2, t)" "j_phase j2 = ph"
    "stands env dir (P(prog_path dir := Some (ProgPin g), prog_previous_path dir := None, prog_candidate_path dir := None)) ?L
       (Some (ue_print env j2 @ [CHR 0x0A])) t"
    using runs_ex [OF runs_mark k(2), of j1 ph dt] by (auto simp del: fun_upd_apply)
  have "undo_health env dir i (ProgPin g) j e w = (Inl (Ctx (Doing ''candidate health window'') e), t)"
    using a(1) b c_def d(1) k(1) t(1) link(1)
    by (cases r; cases "L i") (simp_all add: undo_health_eq sbind_def on_result_def fail_def attempt_def Let_def ph_def dt_def)
  then show ?thesis using t(2,3) by (auto simp: ph_def)
qed

lemma promote_reverts:
  assumes "mark env dir j Healthy ''candidate link active; health window running'' w = (Inr j1, s)"
    and "health_check env dir window s = (Inl e, u)" "calm u" "bw_pins w (prog_previous_path dir) = Some (ProgPin g)"
  shows "\<exists>t j2. promote env dir window i (ProgPin g) j w = (Inl (Ctx (Doing ''candidate health window'') e), t) \<and>
     j_phase j2 = (if bw_links w i = None then Failed else RolledBack) \<and>
     stands env dir ((bw_pins w)(prog_path dir := Some (ProgPin g), prog_previous_path dir := None, prog_candidate_path dir := None))
       (if bw_links w i = None then bw_links w else (bw_links w)(i := Some g)) (Some (ue_print env j2 @ [CHR 0x0A])) t"
proof -
  have "untouched env dir w s" using keepsD [OF keeps_journal(2) [OF journal_stable_frames(2)] untouched_refl assms(1)] by simp
  from keepsD [OF keeps_health_check [OF timeless_frames(2)] this assms(2)] have "bw_pins u = bw_pins w" "bw_links u = bw_links w"
    by (simp_all add: untouched_def)
  then have "stands env dir (bw_pins w) (bw_links w) (bw_files u (resolve (journal_path env dir))) u"
    using assms(3) by (simp add: stands_def)
  from undo_health_reverts [OF this assms(4)] show ?thesis
    using assms(1,2) by (simp add: promote_def sbind_def on_result_def)
qed

subsection \<open>A process killed between the link update and the renames\<close>

text \<open>
  Killed at time \<open>n\<close>, a process does until then what it does when all is calm. An action that does so is
  one that looks at the moment of the kill only through its system calls.
\<close>

definition killed_at :: "nat \<Rightarrow> bpf_world \<Rightarrow> bpf_world" where
  "killed_at n w = w\<lparr>bw_halt := (\<lambda>m. m = n)\<rparr>"

definition replays :: "'a bpf_act \<Rightarrow> bool" where
  "replays m \<longleftrightarrow> (\<forall>w r t. calm w \<longrightarrow> m w = (r, t) \<longrightarrow> calm t \<and> bw_clock w \<le> bw_clock t \<and>
     (\<forall>n \<ge> bw_clock t. m (killed_at n w) = (r, killed_at n t)))"

lemma replaysD:
  "replays m \<Longrightarrow> calm w \<Longrightarrow> m w = (r, t) \<Longrightarrow> calm t \<and> bw_clock w \<le> bw_clock t \<and>
     (\<forall>n \<ge> bw_clock t. m (killed_at n w) = (r, killed_at n t))"
  by (auto simp: replays_def)

lemma killed_at_sel [simp]:
  "bw_pins (killed_at n w) = bw_pins w" "bw_links (killed_at n w) = bw_links w" "bw_files (killed_at n w) = bw_files w"
  "bw_clock (killed_at n w) = bw_clock w" "bw_fault (killed_at n w) = bw_fault w"
  "bw_halt (killed_at n w) m \<longleftrightarrow> m = n"
  by (simp_all add: killed_at_def)

named_theorems replay_rules \<open>actions that replay\<close>

lemma replays_sys:
  assumes "\<And>w x t. f w = Inr (x, t) \<Longrightarrow> bw_clock t = bw_clock w \<and> bw_halt t = bw_halt w \<and> bw_fault t = bw_fault w"
    and "\<And>w n. f (killed_at n w) = map_sum id (map_prod id (killed_at n)) (f w)"
  shows "replays (sys p f)"
  unfolding replays_def
proof (intro allI impI)
  fix w r t assume w: "calm w" and run: "sys p f w = (r, t)"
  let ?v = "w\<lparr>bw_clock := bw_clock w + 1\<rparr>"
  have kill: "killed_at n (w\<lparr>bw_clock := m\<rparr>) = (killed_at n w)\<lparr>bw_clock := m\<rparr>" for n m by (simp add: killed_at_def)
  show "calm t \<and> bw_clock w \<le> bw_clock t \<and> (\<forall>n \<ge> bw_clock t. sys p f (killed_at n w) = (r, killed_at n t))"
  proof (cases "f ?v")
    case (Inl e)
    then have "r = Inl e" "t = ?v" using run by (simp_all add: sys_calm [OF w])
    moreover have "f (killed_at n ?v) = Inl e" for n using assms(2) [of n ?v] Inl by simp
    ultimately show ?thesis using w by (auto simp: sys_def Let_def calm_def kill)
  next
    case (Inr y)
    then obtain x where y: "f ?v = Inr (x, t)" "r = Inr x" using run by (auto simp: sys_calm [OF w] split: prod.splits)
    have "f (killed_at n ?v) = Inr (x, killed_at n t)" for n using assms(2) [of n ?v] y by simp
    moreover have "bw_clock t = bw_clock w + 1" "bw_halt t = bw_halt w" "bw_fault t = bw_fault w"
      using assms(1) [OF y(1)] by simp_all
    ultimately show ?thesis using w y(2) by (auto simp: sys_def Let_def calm_def kill)
  qed
qed

lemma replays_steps [replay_rules]:
  "replays (pin_remove p)" "replays (pin_rename p q)" "replays (pin_object p x)" "replays (open_pinned p)" "replays (open_map p)"
  "replays (open_link p)" "replays (link_update p i x)" "replays (file_step st)" "replays (read_journal_at env p)"
  unfolding pin_remove_def pin_rename_def pin_object_def open_pinned_def open_map_def open_link_def link_update_def file_step_def
    read_journal_at_def
  by (rule replays_sys; auto simp: killed_at_def split: if_splits option.splits pinned.splits)+

lemma replays_pure [replay_rules]:
  "replays (ret x)" "replays (fail e)" "replays (lift_res r)"
  by (simp_all add: replays_def ret_def fail_def lift_res_def)

lemma replays_sbind [replay_rules]:
  assumes "replays m" "\<And>x. replays (f x)"
  shows "replays (sbind m f)"
  unfolding replays_def
proof (intro allI impI)
  fix w r t assume w: "calm w" and run: "sbind m f w = (r, t)"
  obtain r1 u where m: "m w = (r1, u)" by fastforce
  note 1 = replaysD [OF assms(1) w m]
  show "calm t \<and> bw_clock w \<le> bw_clock t \<and> (\<forall>n \<ge> bw_clock t. sbind m f (killed_at n w) = (r, killed_at n t))"
  proof (cases r1)
    case (Inl e)
    then show ?thesis using 1 run m by (auto simp: sbind_def)
  next
    case (Inr x)
    then have "f x u = (r, t)" using run m by (simp add: sbind_def)
    from replaysD [OF assms(2) _ this] show ?thesis using 1 Inr by (auto simp: sbind_def)
  qed
qed

lemma replays_on_result [replay_rules]:
  assumes "replays m" "\<And>e. replays (h e)" "\<And>x. replays (f x)"
  shows "replays (on_result m h f)"
  unfolding replays_def
proof (intro allI impI)
  fix w r t assume w: "calm w" and run: "on_result m h f w = (r, t)"
  obtain r1 u where m: "m w = (r1, u)" by fastforce
  note 1 = replaysD [OF assms(1) w m]
  show "calm t \<and> bw_clock w \<le> bw_clock t \<and> (\<forall>n \<ge> bw_clock t. on_result m h f (killed_at n w) = (r, killed_at n t))"
  proof (cases r1)
    case (Inl e)
    then have "h e u = (r, t)" using run m by (simp add: on_result_def)
    from replaysD [OF assms(2) _ this] show ?thesis using 1 Inl by (auto simp: on_result_def)
  next
    case (Inr x)
    then have "f x u = (r, t)" using run m by (simp add: on_result_def)
    from replaysD [OF assms(3) _ this] show ?thesis using 1 Inr by (auto simp: on_result_def)
  qed
qed

lemma replays_attempt [replay_rules]: "replays m \<Longrightarrow> replays (attempt m)"
  by (auto simp: replays_def attempt_def) (metis prod.collapse snd_conv)+

lemma replays_in_context [replay_rules]: "replays m \<Longrightarrow> replays (in_context c m)"
  by (auto simp: replays_def in_context_def split: prod.splits)

lemma replays_cases [replay_rules]:
  "(b \<Longrightarrow> replays m) \<Longrightarrow> (\<not> b \<Longrightarrow> replays m') \<Longrightarrow> replays (if b then m else m')"
  "(o1 = None \<Longrightarrow> replays m) \<Longrightarrow> (\<And>y. o1 = Some y \<Longrightarrow> replays (f y)) \<Longrightarrow> replays (case o1 of None \<Rightarrow> m | Some y \<Rightarrow> f y)"
  "(\<And>x y. p = (x, y) \<Longrightarrow> replays (g x y)) \<Longrightarrow> replays (case p of (x, y) \<Rightarrow> g x y)"
  by (auto split: option.splits prod.splits)

lemma replays_file_steps [replay_rules]: "replays (file_steps sts)"
  by (induction sts) (auto intro!: replay_rules)

lemma replays_journal [replay_rules]:
  "replays (write_journal env dir j)" "replays (mark env dir j ph d)" "replays (not_in_progress env dir)"
  by (auto simp: write_journal_def write_journal_at_def mark_def not_in_progress_def read_journal_def Let_def intro!: replay_rules)

lemma replays_reuse [replay_rules]: "replays (reuse_audited_maps env dir maps)"
  by (induction maps) (auto simp: abi_of_pinned_def Let_def intro!: replay_rules)

lemma replays_preflight [replay_rules]: "replays (preflight env dir candidate window)"
  unfolding preflight_def load_candidate_def by (intro replay_rules)

lemma replays_live_pins [replay_rules]: "replays (require_live_pins dir)"
  by (auto simp: replays_def require_live_pins_def getr_def maps_pinned_def link_pinned_def pin_exists_def)

text \<open>The state a kill leaves, and the moment of the kill that leads there.\<close>

definition left_as :: "upgrade_env \<Rightarrow> path \<Rightarrow> (path \<Rightarrow> pinned option) \<Rightarrow> (nat \<Rightarrow> prog option) \<Rightarrow> string option \<Rightarrow>
    bpf_world \<Rightarrow> bool" where
  "left_as env dir P L J w \<longleftrightarrow> stands env dir P L J (w\<lparr>bw_halt := (\<lambda>_. False)\<rparr>)"

definition can_end_in :: "(bpf_world \<Rightarrow> bool) \<Rightarrow> 'a bpf_act \<Rightarrow> (bpf_world \<Rightarrow> bool) \<Rightarrow> bool" where
  "can_end_in S m U \<longleftrightarrow> (\<forall>w. S w \<longrightarrow> (\<exists>n \<ge> bw_clock w. U (snd (m (killed_at n w)))))"

lemma can_end_steps:
  assumes "replays m" "runs S m T" "\<And>w. S w \<Longrightarrow> calm w" "\<And>x. can_end_in (T x) (f x) U"
  shows "can_end_in S (sbind m f) U" "can_end_in S (on_result m h f) U"
proof -
  have "\<exists>n \<ge> bw_clock w. U (snd (sbind m f (killed_at n w))) \<and> U (snd (on_result m h f (killed_at n w)))" if w: "S w" for w
  proof -
    obtain x t where t: "m w = (Inr x, t)" "T x t" using runs_ex [OF assms(2) w] by blast
    note 1 = replaysD [OF assms(1,3) t(1), OF w]
    obtain n where "n \<ge> bw_clock t" "U (snd (f x (killed_at n t)))" using assms(4) t(2) by (auto simp: can_end_in_def)
    then show ?thesis using 1 by (auto simp: sbind_def on_result_def intro!: exI [of _ n])
  qed
  then show "can_end_in S (sbind m f) U" "can_end_in S (on_result m h f) U" unfolding can_end_in_def by blast+
qed

lemma can_end_eq: "can_end_in S (f x) U \<Longrightarrow> can_end_in (\<lambda>w. y = x \<and> S w) (f y) U"
  by (auto simp: can_end_in_def)

lemma can_end_stands:
  assumes "replays m" "runs (stands env dir P L J) m T" "\<And>x. can_end_in (T x) (f x) U"
  shows "can_end_in (stands env dir P L J) (sbind m f) U" "can_end_in (stands env dir P L J) (on_result m h f) U"
  using can_end_steps [OF assms(1,2) _ assms(3)] by (auto simp: stands_def)

lemma sys_stopped: "bw_halt w (bw_clock w) \<Longrightarrow> sys p f w = (Inl (UpgradeE Stopped), w)"
  by (simp add: sys_def)

lemma undo_swap_stopped: "bw_halt w (bw_clock w) \<Longrightarrow> snd (undo_swap env dir i x j e w) = w"
  by (simp add: undo_swap_def sbind_def attempt_def link_update_def pin_rename_def pin_remove_def sys_stopped mark_def
      write_journal_def write_journal_at_def journal_steps_def file_step_def Let_def fail_def ret_def split: option.splits)

lemma switch_killed:
  assumes "stands env dir P L J w" "L i \<noteq> None"
  shows "left_as env dir P (L(i := Some g)) J (snd (on_result (link_update p i (ProgPin g)) h
     (\<lambda>_. on_result (swap_pins dir) (undo_swap env dir i x j) k) (killed_at (bw_clock w + 1) w)))"
proof -
  obtain t where t: "link_update p i (ProgPin g) w = (Inr (), t)" "stands env dir P (L(i := Some g)) J t"
    using runs_ex [OF runs_link_update [where L = L, OF assms(2)] assms(1)] by auto
  have "calm w" using assms(1) by (simp add: stands_def)
  from t(1) have clock: "bw_clock t = bw_clock w + 1"
    by (auto simp: link_update_def sys_calm [OF \<open>calm w\<close>] Let_def split: option.splits)
  have run: "link_update p i (ProgPin g) (killed_at (bw_clock w + 1) w) = (Inr (), killed_at (bw_clock w + 1) t)"
    using replaysD [OF replays_steps(7) \<open>calm w\<close> t(1)] clock by simp
  have "swap_pins dir (killed_at (bw_clock w + 1) t) = (Inl (UpgradeE Stopped), killed_at (bw_clock w + 1) t)"
    by (simp add: swap_pins_def sbind_def pin_rename_def sys_stopped clock)
  then have "snd (on_result (link_update p i (ProgPin g)) h (\<lambda>_. on_result (swap_pins dir) (undo_swap env dir i x j) k)
      (killed_at (bw_clock w + 1) w)) = killed_at (bw_clock w + 1) t"
    using run by (simp add: on_result_def undo_swap_stopped clock)
  then show ?thesis using t(2) by (auto simp: left_as_def stands_def calm_def killed_at_def)
qed

lemma activate_killed:
  assumes live: "live_plane env dir i g P L" and cand: "compatible env candidate g1"
    and J: "case J of None \<Rightarrow> True | Some raw \<Rightarrow> (case ue_parse env raw of None \<Rightarrow> False | Some j \<Rightarrow> terminal (j_phase j))"
  shows "can_end_in (stands env dir P L J) (activate env dir candidate window) (\<lambda>t. \<exists>j.
     left_as env dir (P(prog_candidate_path dir := Some (ProgPin g1))) (L(i := Some g1)) (Some (ue_print env j @ [CHR 0x0A])) t)"
    (is "can_end_in _ _ ?U")
proof -
  have P: "P (prog_path dir) = Some (ProgPin g)" "P (sk_lookup_link_path dir) = Some (LinkPin i)" and L: "L i \<noteq> None"
    using live by (auto simp: live_plane_def)
  have switch: "can_end_in (stands env dir (P(prog_candidate_path dir := Some (ProgPin g1))) L (Some (ue_print env j1 @ [CHR 0x0A])))
      (on_result (link_update (sk_lookup_link_path dir) i (ProgPin g1)) h
        (\<lambda>_. on_result (swap_pins dir) (undo_swap env dir i (ProgPin g) j) k)) ?U" for j1 j h k
    unfolding can_end_in_def
  proof (intro allI impI)
    fix w assume "stands env dir (P(prog_candidate_path dir := Some (ProgPin g1))) L (Some (ue_print env j1 @ [CHR 0x0A])) w"
    from switch_killed [where L = L, OF this L]
    show "\<exists>n \<ge> bw_clock w. ?U (snd (on_result (link_update (sk_lookup_link_path dir) i (ProgPin g1)) h
        (\<lambda>_. on_result (swap_pins dir) (undo_swap env dir i (ProgPin g) j) k) (killed_at n w)))"
      by (intro exI [of _ "bw_clock w + 1"] conjI exI [of _ j1]) auto
  qed
  have go: "can_end_in (stands env dir (P(prog_candidate_path dir := Some (ProgPin g1))) L J')
      (switch_link env dir window i (ProgPin g) g1 j) ?U" for J' j
    unfolding switch_link_def by (rule can_end_stands(1) [OF replays_journal(2) runs_mark], rule can_end_eq, rule switch)
  have dispatch: "can_end_in (\<lambda>w. dispatch_prog obj = Inr g1 \<and> stands env dir P L J w) (sbind (lift_res (dispatch_prog obj)) f) ?U"
    if "can_end_in (stands env dir P L J) (f g1) ?U" for obj f
    using that by (auto simp: can_end_in_def sbind_def lift_res_def)
  show ?thesis
    unfolding activate_def Let_def pin_candidate_def
    by (rule can_end_stands(1) [OF replays_journal(3) runs_not_in_progress [OF J]], rule can_end_stands(1) [OF replays_live_pins runs_live_pins [OF live]],
        rule can_end_stands(1) [OF replays_steps(4) runs_open(1) [where P = P, OF P(1)]], rule can_end_eq,
        rule can_end_stands(1) [OF replays_preflight runs_preflight [OF live cand]], rule dispatch,
        rule can_end_stands(1) [OF replays_journal(1) runs_write_journal], rule can_end_stands(1) [OF replays_attempt [OF replays_steps(1)] runs_clear_candidate],
        rule can_end_stands(1) [OF replays_in_context [OF replays_steps(6)] triple_in_context [OF runs_candidate_pin(1) [where P = P, OF P(2)]]],
        rule can_end_eq, rule can_end_stands(2) [OF replays_steps(3) runs_candidate_pin(2) [where P = P, OF P(2)]], rule go)
qed

text \<open>The rollback that follows finds no previous program and leaves the candidate on the link.\<close>

lemma rollback_after_kill:
  assumes "ready env dir candidate i g g1 w" "bw_pins w (prog_previous_path dir) = None"
    and "\<And>j. ue_parse env (ue_print env j @ [CHR 0x0A]) \<noteq> None"
  shows "\<exists>n j t. rollback env dir ((snd (activate env dir candidate window (w\<lparr>bw_halt := (\<lambda>m. m = n)\<rparr>)))\<lparr>bw_halt := (\<lambda>_. False)\<rparr>)
       = (Inr j, t) \<and> j_phase j = RolledBack \<and>
     j_detail j = ''no prog_previous; candidate pin cleared (live link unchanged)'' \<and>
     bw_links t = (bw_links w)(i := Some g1) \<and> bw_pins t = (bw_pins w)(prog_candidate_path dir := None)"
proof -
  obtain n j where n: "left_as env dir ((bw_pins w)(prog_candidate_path dir := Some (ProgPin g1))) ((bw_links w)(i := Some g1))
      (Some (ue_print env j @ [CHR 0x0A])) (snd (activate env dir candidate window (killed_at n w)))"
    using activate_killed [OF readyD [OF assms(1)], of window] ready_stands [OF assms(1)] by (auto simp: can_end_in_def)
  let ?u = "(snd (activate env dir candidate window (killed_at n w)))\<lparr>bw_halt := (\<lambda>_. False)\<rparr>"
  have u: "calm ?u" "bw_pins ?u = (bw_pins w)(prog_candidate_path dir := Some (ProgPin g1))" "bw_links ?u = (bw_links w)(i := Some g1)"
    "bw_files ?u (resolve (journal_path env dir)) = Some (ue_print env j @ [CHR 0x0A])"
    using n by (simp_all add: left_as_def stands_def)
  have "bw_pins ?u (prog_previous_path dir) = None" using u(2) assms(2) by simp
  from rollback_without_previous [OF u(1) this, of env] u(2-4) assms(3) show ?thesis
    unfolding killed_at_def by (auto simp: stands_def simp del: fun_upd_apply intro!: exI [of _ n])
qed

end
