(* ===== verification/Plane_Examples.thy ===== *)
theory Plane_Examples
  imports Upgrade_Undo Load_Facts
begin

text \<open>
  A small data plane on which the properties of the upgrade and of the loader are applied: an
  attached primary and backup link, the pinned maps, and a compatible candidate object.
\<close>

text \<open>A data plane with an attached primary and backup link, and a compatible candidate.\<close>

definition plane_map_sizes :: "map_id kops" where
  "plane_map_sizes = \<lparr>k_le = True, k_key_size = (\<lambda>m. if m = 1 then 2 else 4), k_value_size = (\<lambda>m. if m = 1 then 1 else 8),
     k_max_entries = (\<lambda>m. if m = 1 then 131072 else 2), k_keys = (\<lambda>_. []), k_lookup = (\<lambda>_ _. Inr None),
     k_update = (\<lambda>_ _ m. (Inl KOther, m)), k_delete = (\<lambda>_ m. (Inl KOther, m)),
     k_update_batch = (\<lambda>_ _ _ m. (Inl KOther, m)), k_delete_batch = (\<lambda>_ _ m. (Inl KOther, m))\<rparr>"

definition plane_print :: "journal \<Rightarrow> string" where
  "plane_print j = (case j_phase j of Prepared \<Rightarrow> ''p'' | Activating \<Rightarrow> ''a'' | Healthy \<Rightarrow> ''h'' | RollingBack \<Rightarrow> ''r''
     | RolledBack \<Rightarrow> ''R'' | Committed \<Rightarrow> ''C'' | Failed \<Rightarrow> ''F'')"

definition plane_parse :: "string \<Rightarrow> journal option" where
  "plane_parse s = map_option (\<lambda>ph. \<lparr>j_schema_version = 1, j_phase = ph, j_pin_dir = [], j_candidate = [],
       j_health_window_ms = 0, j_detail = []\<rparr>)
     (map_of [(''p'', Prepared), (''a'', Activating), (''h'', Healthy), (''r'', RollingBack), (''R'', RolledBack),
        (''C'', Committed), (''F'', Failed)] (trim s))"

definition plane_object :: bpf_object where
  "plane_object = \<lparr>bo_maps = [(''open_ports'', 1), (''redir_socket'', 2)], bo_progs = [(''dispatch'', 20)]\<rparr>"

definition plane_env :: upgrade_env where
  "plane_env = \<lparr>ue_ops = plane_map_sizes, ue_is_file = (\<lambda>_. True), ue_open = (\<lambda>_. Inr plane_object), ue_load = Inr,
     ue_key = (\<lambda>_. ''0''), ue_print = plane_print, ue_parse = plane_parse, ue_show = (\<lambda>_. ''e''), ue_fail_health = None\<rparr>"

definition plane_world :: bpf_world where
  "plane_world = \<lparr>bw_pins = map_of [(open_ports_path default_pin_dir, MapPin 1), (redir_socket_path default_pin_dir, MapPin 2),
       (sk_lookup_link_path default_pin_dir, LinkPin 0), (sk_lookup_backup_link_path default_pin_dir, LinkPin 1),
       (prog_path default_pin_dir, ProgPin 10)],
     bw_links = map_of [(0, 10), (1, 10)], bw_fresh = 2, bw_files = (\<lambda>_. None), bw_clock = 0,
     bw_halt = (\<lambda>_. False), bw_fault = (\<lambda>_. False)\<rparr>"

lemmas plane_paths = default_pin_dir_def open_ports_path_def redir_socket_path_def sk_lookup_link_path_def
  sk_lookup_backup_link_path_def prog_path_def prog_previous_path_def prog_candidate_path_def

lemma plane_env_sel [simp]: "ue_ops plane_env = plane_map_sizes" "ue_is_file plane_env p" "ue_open plane_env p = Inr plane_object"
  "ue_load plane_env o1 = Inr o1" "ue_print plane_env = plane_print" "ue_parse plane_env = plane_parse" 
  "ue_fail_health plane_env = None"
  by (simp_all add: plane_env_def)

lemmas plane_runs = sys_def sbind_def ret_def lift_res_def getr_def gets_def attempt_def on_result_def in_context_def Let_def
  pin_exists_def pin_remove_def pin_rename_def pin_object_def open_pinned_def open_map_def open_link_def link_update_def
  maps_pinned_def link_pinned_def file_step_def

lemmas plane_sizes = abi_of_def plane_map_sizes_def expected_open_ports_abi_def expected_redir_socket_abi_def
   open_ports_key_size_def open_ports_value_size_def open_ports_max_entries_def redir_socket_max_entries_def
   redir_socket_key_size_def redir_socket_value_size_def

lemma plane_ready: "ready plane_env default_pin_dir [''/'', ''new.o''] 0 10 20 plane_world"
  by (simp add: ready_def calm_def plane_world_def plane_env_def compatible_def live_plane_def plane_object_def
    plane_map_sizes_def abi_of_def wanted_map_def expected_map_names_def expected_open_ports_abi_def expected_redir_socket_abi_def
    default_pin_dir_def open_ports_path_def redir_socket_path_def sk_lookup_link_path_def sk_lookup_backup_link_path_def
    prog_path_def open_ports_key_size_def open_ports_value_size_def open_ports_max_entries_def
    redir_socket_max_entries_def redir_socket_key_size_def redir_socket_value_size_def)


lemma plane_parses: "ue_parse plane_env (ue_print plane_env j @ [CHR 0x0A]) \<noteq> None"
  by (cases "j_phase j") (auto simp: plane_parse_def plane_print_def trim_def trim_start_def trim_end_matches_def is_whitespace_def)

subsection \<open>After the swap, with the pin of a map missing\<close>

definition plane_swapped :: bpf_world where
  "plane_swapped = plane_world\<lparr>bw_pins := (bw_pins plane_world)(prog_path default_pin_dir := Some (ProgPin 20),
       prog_previous_path default_pin_dir := Some (ProgPin 10), redir_socket_path default_pin_dir := None),
     bw_links := (bw_links plane_world)(0 := Some 20)\<rparr>"

lemma plane_swapped_sel: "bw_pins plane_swapped (prog_previous_path default_pin_dir) = Some (ProgPin 10)"
  "bw_links plane_swapped 0 = Some 20"
  "bw_pins plane_swapped (sk_lookup_link_path default_pin_dir) = Some (LinkPin 0)"
  "bw_pins plane_swapped (open_ports_path default_pin_dir) = Some (MapPin 1)"
  "bw_pins plane_swapped (redir_socket_path default_pin_dir) = None"
  by (simp_all add: plane_swapped_def plane_world_def plane_paths)

lemma plane_unhealthy:
  "\<exists>j1 s e u. mark plane_env default_pin_dir j Healthy ''candidate link active; health window running'' plane_swapped = (Inr j1, s) \<and>
     health_check plane_env default_pin_dir 0 s = (Inl e, u) \<and> calm u"
proof -
  have "stands plane_env default_pin_dir (bw_pins plane_swapped) (bw_links plane_swapped)
      (bw_files plane_swapped (resolve (journal_path plane_env default_pin_dir))) plane_swapped"
    by (simp add: stands_def calm_def plane_swapped_def plane_world_def)
  from runs_ex [OF runs_mark this] obtain j1 s where
    s: "mark plane_env default_pin_dir j Healthy ''candidate link active; health window running'' plane_swapped = (Inr j1, s)"
      "calm s" "bw_pins s = bw_pins plane_swapped"
    unfolding stands_def by blast
  have "assert_open_ports_layout plane_map_sizes 1 = Inr ()"
    by (simp add: assert_open_ports_layout_def assert_open_ports_max_entries_def plane_sizes)
  then have "\<exists>e u. health_check plane_env default_pin_dir 0 s = (Inl e, u) \<and> calm u"
    using s(2) by (auto simp: health_check_def link_pinned_def pin_exists_def s(3) plane_swapped_sel sbind_def gets_def open_map_def
        sys_def calm_def lift_res_def Let_def)
  with s(1) show ?thesis by blast
qed

subsection \<open>A candidate with another map layout\<close>

definition sharded_object :: bpf_object where
  "sharded_object = plane_object\<lparr>bo_maps := [(''open_ports'', 1), (''redir_socket'', 1)]\<rparr>"

lemma sharded_abi: "abi_of (plane_env\<lparr>ue_open := (\<lambda>_. Inr sharded_object)\<rparr>) ''redir_socket'' 1 \<notin>
    {expected_open_ports_abi, expected_redir_socket_abi}"
  by (simp add: plane_env_def plane_sizes)

subsection \<open>A start of the loader\<close>

definition plane_loader :: load_env where
  "plane_loader = \<lparr>le_ops = plane_map_sizes, le_skel = Inr \<lparr>sk_open_ports = 1, sk_redir_socket = 2, sk_dispatch = 30\<rparr>,
     le_load_skel = Inr, le_rust_path = [''rust.o''], le_is_file = (\<lambda>_. False), le_open = (\<lambda>_. Inr plane_object),
     le_load = Inr\<rparr>"

lemma plane_start:
  "\<exists>bpf t. load_and_attach plane_loader BpfC default_pin_dir plane_world = (Inr bpf, t)"
  unfolding load_and_attach_def load_c_def ensure_backup_sk_lookup_def attach_or_upgrade_sk_lookup_def pin_dispatch_prog_def
  by (simp add: plane_loader_def plane_runs reuse_or_def plane_world_def plane_paths assert_open_ports_max_entries_def
      plane_sizes with_dispatch_prog_def)

lemma plane_calm: "calm plane_world" "bw_pins plane_world default_pin_dir = None"
  by (simp_all add: calm_def plane_world_def plane_paths)

lemma plane_backup: "bw_pins plane_world (sk_lookup_backup_link_path default_pin_dir) = Some (LinkPin 1)"
  "bw_pins plane_world (sk_lookup_link_path default_pin_dir) = Some (LinkPin 0)" "bw_fresh plane_world = 2"
  "bw_links plane_world 1 = Some 10" "bw_links plane_world 0 = Some 10" "bw_pins plane_world (prog_path default_pin_dir) = Some (ProgPin 10)"
  by (simp_all add: plane_world_def plane_paths)

end
