(* ===== verification/Ctl_Socket.thy ===== *)
theory Ctl_Socket
  imports Sockctl Act_Logic
begin

text \<open>
  \<open>rust/loader/src/sockctl.rs\<close>: the file of the control socket, which the server binds when it starts
  and binds again when it is gone, and the loop of its thread around the connections of \<open>Sockctl\<close>.
  The state is the socket files with their owner, group and mode, and the directories with theirs.
\<close>

datatype sock_call = MakeDir path | ModeDir path | Unlink path | Bind path | SetMode path | SetGroup path | NonBlocking path

text \<open>Which calls fail, and the owner, group and mode that new files get, are parameters.\<close>

record sock_dir =
  sd_nodes :: "path \<Rightarrow> sock_meta option"
  sd_dirs :: "path \<Rightarrow> u32 option"
  sd_created :: sock_meta
  sd_created_dir :: u32
  sd_fault :: "sock_call \<Rightarrow> bool"

definition sock_do :: "sock_call \<Rightarrow> (sock_dir \<Rightarrow> sock_dir) \<Rightarrow> (sock_dir, unit) act" where
  "sock_do c f s = (if sd_fault s c then (Inl (IoE (IoFault (case c of
       MakeDir p \<Rightarrow> p | ModeDir p \<Rightarrow> p | Unlink p \<Rightarrow> p | Bind p \<Rightarrow> p | SetMode p \<Rightarrow> p | SetGroup p \<Rightarrow> p | NonBlocking p \<Rightarrow> p))), s)
     else (Inr (), f s))"

definition on_node :: "path \<Rightarrow> (sock_meta \<Rightarrow> sock_meta) \<Rightarrow> sock_dir \<Rightarrow> sock_dir" where
  "on_node p f s = s\<lparr>sd_nodes := (sd_nodes s)(p := map_option f (sd_nodes s p))\<rparr>"

text \<open>Binding to a name that is taken fails; the mode is 0660.\<close>

definition bind_listener :: "path \<Rightarrow> u32 option \<Rightarrow> bool \<Rightarrow> (sock_dir, unit) act" where
  "bind_listener p grp unlink_stale =
     sbind (gets (\<lambda>s. sd_nodes s p \<noteq> None)) (\<lambda>there.
     sbind (if unlink_stale \<and> there
            then in_context (Doing ''unlink stale socket'') (sock_do (Unlink p) (\<lambda>s. s\<lparr>sd_nodes := (sd_nodes s)(p := None)\<rparr>))
            else ret ()) (\<lambda>_.
     sbind (getr (\<lambda>s. if sd_nodes s p \<noteq> None then Inl (Ctx (Doing ''bind control socket'') (IoE (IoFault p))) else Inr ())) (\<lambda>_.
     sbind (in_context (Doing ''bind control socket'')
              (sock_do (Bind p) (\<lambda>s. s\<lparr>sd_nodes := (sd_nodes s)(p := Some (sd_created s))\<rparr>))) (\<lambda>_.
     sbind (sock_do (SetMode p) (on_node p (\<lambda>n. n\<lparr>sm_mode := 432\<rparr>))) (\<lambda>_.
     sbind (case grp of
              None \<Rightarrow> ret ()
            | Some gid \<Rightarrow> in_context (Doing ''chown control socket'') (sock_do (SetGroup p) (on_node p (\<lambda>n. n\<lparr>sm_gid := gid\<rparr>)))) (\<lambda>_.
       sock_do (NonBlocking p) (\<lambda>s. s)))))))"

definition start_socket :: "path \<Rightarrow> u32 option \<Rightarrow> (sock_dir, unit) act" where
  "start_socket p grp =
     (let parent = parent_or_dot p in
      sbind (gets (\<lambda>s. sd_dirs s parent \<noteq> None)) (\<lambda>existed.
      sbind (in_context (Doing ''create control socket directory'')
               (sock_do (MakeDir parent) (\<lambda>s. s\<lparr>sd_dirs := (sd_dirs s)(parent := (case sd_dirs s parent of Some m \<Rightarrow> Some m | None \<Rightarrow> Some (sd_created_dir s)))\<rparr>))) (\<lambda>_.
      sbind (if existed then ret () else sock_do (ModeDir parent) (\<lambda>s. s\<lparr>sd_dirs := (sd_dirs s)(parent := Some 488)\<rparr>)) (\<lambda>_.
        bind_listener p grp True))))"

text \<open>
  One turn of the thread: the file is bound again when it is gone, and a connection is handled. What
  the file says when the connection is handled is what its handling reads.
\<close>

record sock_turn =
  st_cred :: "err + peer_cred"
  st_line :: "err + string"
  st_accepted :: bool

definition rebind :: "path \<Rightarrow> u32 option \<Rightarrow> sock_dir \<Rightarrow> sock_dir" where
  "rebind p grp s = (if sd_nodes s p = None then snd (bind_listener p grp False s) else s)"

definition thread_turn ::
    "'m kops \<Rightarrow> (string \<Rightarrow> request option) \<Rightarrow> path \<Rightarrow> path \<Rightarrow> path \<Rightarrow> u32 option \<Rightarrow> sock_turn \<Rightarrow>
      'm sock \<times> sock_dir \<Rightarrow> (err + response) option \<times> 'm sock \<times> sock_dir" where
  "thread_turn ops parse pin_dir ports_file p grp t s =
     (let files = rebind p grp (snd s) in
      if st_accepted t then
        (case handle_conn ops parse pin_dir ports_file
            \<lparr>cn_cred = st_cred t, cn_meta = (case sd_nodes files p of Some m \<Rightarrow> Inr m | None \<Rightarrow> Inl (IoE (NotFound p))),
             cn_line = st_line t\<rparr> (fst s) of
           (r, k) \<Rightarrow> (Some r, k, files))
      else (None, fst s, files))"

text \<open>The server that goes takes its file with it; what fails then is ignored.\<close>

definition drop_server :: "path \<Rightarrow> sock_dir \<Rightarrow> sock_dir" where
  "drop_server p s = snd (attempt (sock_do (Unlink p) (\<lambda>s. s\<lparr>sd_nodes := (sd_nodes s)(p := None)\<rparr>)) s)"

subsection \<open>The file that was bound\<close>

lemma bind_listener_node:
  assumes "bind_listener p grp unlink s = (Inr (), t)"
  shows "\<exists>n. sd_nodes t p = Some n \<and> sm_mode n = 432 \<and> (\<forall>gid. grp = Some gid \<longrightarrow> sm_gid n = gid) \<and>
     sm_uid n = sm_uid (sd_created s) \<and> (\<forall>q. q \<noteq> p \<longrightarrow> sd_nodes t q = sd_nodes s q)"
  using assms
  by (auto simp: bind_listener_def sock_do_def in_context_def on_node_def gets_def getr_def ret_def sbind_def
      split: if_splits option.splits)

lemma start_socket_node:
  assumes "start_socket p grp s = (Inr (), t)"
  shows "\<exists>n. sd_nodes t p = Some n \<and> sm_mode n = 432 \<and> (\<forall>gid. grp = Some gid \<longrightarrow> sm_gid n = gid) \<and>
     sm_uid n = sm_uid (sd_created s)"
proof -
  obtain s1 where "bind_listener p grp True s1 = (Inr (), t)" "sd_created s1 = sd_created s"
    using assms
    by (auto simp: start_socket_def Let_def sock_do_def in_context_def gets_def ret_def sbind_def split: if_splits)
  then show ?thesis using bind_listener_node by metis
qed

text \<open>
  A name that was taken when its file could not be given its mode or group stays taken, and the
  thread does not bind it again.
\<close>

lemma failed_rebind_stays:
  assumes "sd_nodes s p = None" "\<not> sd_fault s (Bind p)" "sd_fault s (SetMode p)"
  shows "rebind p grp s = s\<lparr>sd_nodes := (sd_nodes s)(p := Some (sd_created s))\<rparr> \<and>
     rebind p grp (rebind p grp s) = rebind p grp s"
  using assms
  by (simp add: rebind_def bind_listener_def sock_do_def in_context_def gets_def getr_def ret_def sbind_def)

end
