(* ===== verification/Main_Examples.thy ===== *)
theory Main_Examples
  imports Main_Facts Examples Plane_Examples Ctl_Socket
begin

text \<open>
  A host on which a loader starts: a socket table with one listener, the process that owns it, two
  empty pinned maps and a desired state with one port. The start runs to its end,
  and a reload then opens the ports of another file, also on a frozen machine.
\<close>

subsection \<open>A listener of another process\<close>

definition demo_tcp :: string where
  "demo_tcp = ''sl local remote st'' @ [CHR 0x0A] @ ''0: 0100007F:1F90 0:0 0A 0 0 0 0 0 77''"

definition demo_proc :: proc_view where
  "demo_proc = \<lparr>pv_tcp = Inr demo_tcp, pv_own_pid = 5, pv_entries = Inr [''5'', ''9'', ''net''],
     pv_fds = (\<lambda>name. if name = ''9'' then Some [''3'', ''4''] else None),
     pv_link = (\<lambda>name f. if f = ''4'' then Some ''socket:[77]'' else None),
     pv_pidfd_open = (\<lambda>pid. Inr (pid + 100)), pv_pidfd_getfd = (\<lambda>pidfd fd. Inr 6), pv_poll = (\<lambda>_. 0),
     pv_accept_conn = (\<lambda>_. Some 1)\<rparr>"

definition demo_listener :: captured_listen where
  "demo_listener = \<lparr>cl_inode = 77, cl_fd = 6, cl_owner_pid = 9, cl_owner_pidfd = 109\<rparr>"

lemmas demo_readers = read_ipv4_addr_def read_octet_def read_separator_def read_number_def read_given_char_def Let_def
  radix_digit_def digit_value_def is_ascii_digit_def

lemma demo_ipv4: "parse_ipv4 ''127.0.0.1'' = Some (127, 0, 0, 1)"
  by (simp add: parse_ipv4_def demo_readers)

lemma show77: "show_nat 77 = ''77''"
  by (simp add: show_nat.simps digit_char_def) code_simp

definition demo_row :: tcp_sock where
  "demo_row = \<lparr>ts_addr = (127, 0, 0, 1), ts_port = 8080, ts_state = 10, ts_inode = 77\<rparr>"

lemma demo_lines: "lines demo_tcp = [''sl local remote st'', ''0: 0100007F:1F90 0:0 0A 0 0 0 0 0 77'']"
  by (simp add: lines_def split_on_def demo_tcp_def strip_cr_def)

lemma demo_row_text: "row_of demo_row ''0: 0100007F:1F90 0:0 0A 0 0 0 0 0 77''"
proof -
  have "split_whitespace ''0: 0100007F:1F90 0:0 0A 0 0 0 0 0 77'' =
      [''0:'', ''0100007F:1F90'', ''0:0'', ''0A''] @ [''0'', ''0'', ''0'', ''0'', ''0''] @ [''77''] @ []"
    by (simp add: split_whitespace_def is_whitespace_def)
  then show ?thesis
    unfolding row_of_def
    by (intro conjI exI [of _ "''0:''"] exI [of _ "''0:0''"] exI [of _ "[''0'', ''0'', ''0'', ''0'', ''0'']"] exI [of _ "[]"])
      (simp_all add: demo_row_def kernel_addr_def kernel_port_def kernel_octet_def kernel_digit_def show77 u64_max_def)
qed

lemma demo_inodes: "listen_inodes demo_proc ''127.0.0.1'' 8080 = Inr [77]"
proof -
  have "parse_listen_inodes demo_tcp (127, 0, 0, 1) 8080 = [77]"
    using parse_listen_inodes_rows [OF demo_lines, of "[demo_row]"] demo_row_text by (simp add: demo_row_def)
  then show ?thesis by (simp add: listen_inodes_def demo_ipv4 demo_proc_def Let_def)
qed

lemma demo_parse_i32: "parse_i32 ''9'' = Some 9" "parse_i32 ''5'' = Some 5" "parse_i32 ''4'' = Some 4"
  by (simp_all add: parse_i32_def parse_uint_def strip_plus_def digit_value_def)

lemma demo_found: "find_listen_socket_file demo_proc ''127.0.0.1'' 8080 = Inr demo_listener"
proof -
  have "scan_procs demo_proc 77 [''5'', ''9'', ''net''] None = Inl demo_listener"
    by (simp add: is_pid_name_def digit_value_def is_ascii_digit_def demo_parse_i32 socket_link_def show77 capture_foreign_socket_def
        demo_listener_def demo_proc_def)
  moreover have "pv_entries demo_proc = Inr [''5'', ''9'', ''net'']" by (simp add: demo_proc_def)
  ultimately show ?thesis
    by (simp add: find_listen_socket_file_def demo_inodes first_openable_inode_def open_socket_by_inode_def)
qed

lemma demo_split: "split_target ''127.0.0.1:8080'' = Inr (''127.0.0.1'', 8080)"
proof -
  have "parse_socket_addr ''127.0.0.1:8080'' = Some (V4 (127, 0, 0, 1) 8080)"
    by (simp add: parse_socket_addr_def read_socket_addr_v4_def read_port_def demo_readers)
  moreover have "show_ipv4 (127, 0, 0, 1) = ''127.0.0.1''" by code_simp
  moreover have "parse_uint u16_max (show_port 8080) = Some 8080"
    by (simp add: show_port_def u16_max_def)
  ultimately show ?thesis by (simp add: split_target_def split_host_port_def)
qed

subsection \<open>A start\<close>

definition demo_http :: desired_ports where "demo_http = [(18081, demo_binding)]"

definition demo_redir :: khash where
  "demo_redir = \<lparr>kh_key = 4, kh_value = 8, kh_max = 2, kh_batch = False, kh_data = []\<rparr>"

definition demo_waiting :: waiting where
  "demo_waiting = \<lparr>wt_shutdown = (\<lambda>_. False), wt_view = (\<lambda>_. demo_proc), wt_clock = (\<lambda>i. i)\<rparr>"

definition demo_args :: long_running_args where
  "demo_args = \<lparr>a_bpf_impl = BpfC, a_mode = OpenResty, a_listen = [], a_target = ''127.0.0.1:8080'', a_ports_raw = [],
     a_ports_set = False, a_tls_target = ''127.0.0.1:8443'', a_tls_ports_raw = [], a_tls_ports_set = False, a_wait = 0,
     a_pin_dir = ''/sys/fs/bpf/waf-sklookup'', a_ports_file = ''ports.conf'', a_policy_file = None, a_tenant = [], a_site = [],
     a_cert = None, a_policy = None, a_ctl_sock = None, a_ctl_group = None, a_rescan_interval = 500000000\<rparr>"

definition demo_start_env :: "khash start_env" where
  "demo_start_env = \<lparr>se_ops = khash_ops True, se_locked = True, se_load = plane_loader,
     se_fresh = (\<lambda>i. if i = 1 then demo_map else demo_redir), se_bind = (\<lambda>_. Inr 3), se_dup = Inr, se_nonblocking = (\<lambda>_. Inr ()), se_signals = Inr (),
     se_wait = demo_waiting, se_wait_tls = demo_waiting\<rparr>"

definition demo_host :: "khash host" where
  "demo_host = \<lparr>ho_world = demo_world
       \<lparr>w_fs := \<lparr>fs_files = [[''ports.conf''] \<mapsto> desired_text demo_http], fs_unreadable = (\<lambda>_. False), fs_fault = (\<lambda>_. False)\<rparr>,
        w_pins := [open_ports_path default_pin_dir \<mapsto> demo_map, redir_socket_path default_pin_dir \<mapsto> demo_redir]\<rparr>,
     ho_bpf = plane_world, ho_audit = []\<rparr>"

lemma demo_arg_paths: "path_of ''/sys/fs/bpf/waf-sklookup'' = default_pin_dir" "path_of ''ports.conf'' = [''ports.conf'']"
  by (simp_all add: path_of_def split_on_def starts_with_def default_pin_dir_def)

lemma demo_targets: "port_of_listen_addr ''127.0.0.1:8080'' = Some 8080" "port_of_listen_addr ''127.0.0.1:8443'' = Some 8443"
  by (simp_all add: port_of_listen_addr_def parse_socket_addr_def read_socket_addr_v4_def read_port_def read_ipv4_addr_def demo_readers)

definition demo_start_policy :: policy where
  "demo_start_policy = default_policy\<lparr>p_reserve := insert 8443 (insert 8080 (p_reserve default_policy))\<rparr>"

lemma demo_start_policy_wf: "policy_wf demo_start_policy"
  using policy_wf_default by (auto simp: demo_start_policy_def policy_wf_def)

lemma demo_start_allowed: "port_allowed demo_start_policy 18081"
  by (simp add: port_allowed_def demo_start_policy_def default_policy_def default_deny_def)

lemma demo_http_facts: "om_wf demo_http" "\<forall>e \<in> set demo_http. slot_ok (snd e)" "\<forall>e \<in> set demo_http. hash_free (snd e)"
  "admissible demo_start_policy demo_http"
  using demo_identities demo_start_allowed small_tenants [of demo_http]
  by (simp_all add: demo_http_def demo_binding_def seed_binding_def om_wf_def slot_ok_def hash_free_def redir_primary_def
      admissible_def binding_ok_def open_ports_max_entries_def default_policy_def demo_start_policy_def)

lemma demo_http_load: "load_from_reader_with_policy (desired_text demo_http) demo_start_policy = Inr demo_http"
  using desired_round_trip [OF demo_start_policy_wf demo_http_facts(1,4,2)] demo_http_facts(3) by blast

definition demo_bpf :: loaded_bpf where
  "demo_bpf = LoadedC \<lparr>sk_open_ports = 1, sk_redir_socket = 2, sk_dispatch = 30\<rparr>"

lemma demo_start_bpf:
  "\<exists>t. load_and_attach plane_loader BpfC default_pin_dir (plane_world\<lparr>bw_files := F\<rparr>) = (Inr demo_bpf, t) \<and>
     bw_pins t = bw_pins plane_world \<and> bw_halt t = (\<lambda>_. False) \<and> bw_fault t = (\<lambda>_. False) \<and> bw_files t = F"
  unfolding load_and_attach_def load_c_def ensure_backup_sk_lookup_def attach_or_upgrade_sk_lookup_def pin_dispatch_prog_def
  by (simp add: plane_loader_def plane_runs reuse_or_def plane_world_def plane_paths assert_open_ports_max_entries_def
      plane_sizes with_dispatch_prog_def demo_bpf_def)

lemma demo_pinned:
  assumes "bw_pins w = bw_pins plane_world" "bw_halt w = (\<lambda>_. False)" "bw_fault w = (\<lambda>_. False)"
  shows "\<exists>t. pin_or_warn demo_bpf default_pin_dir True w = (Inr True, t) \<and> bw_pins t = bw_pins plane_world"
  using assms
  by (simp add: pin_or_warn_def ensure_maps_pinned_def pin_if_absent_def plane_runs plane_world_def plane_paths)

definition demo_pins :: "path \<rightharpoonup> khash" where
  "demo_pins = [open_ports_path default_pin_dir \<mapsto> demo_map, redir_socket_path default_pin_dir \<mapsto> demo_redir]"

lemma demo_map_pins: "(\<lambda>p. if is_map_pin (bw_pins plane_world p) then demo_pins p else None) = demo_pins"
  by (auto simp: fun_eq_iff demo_pins_def plane_world_def is_map_pin_def plane_paths)

lemma demo_bpf_pins:
  assumes "w_pins (ho_world g) = demo_pins" "f (ho_bpf g\<lparr>bw_files := fs_files (w_fs (ho_world g))\<rparr>) = (r, t)"
    "bw_pins t = bw_pins plane_world"
  shows "\<exists>k. in_bpf f g = (r, k) \<and> w_pins (ho_world k) = demo_pins \<and> ho_bpf k = t"
  unfolding in_bpf_def assms prod.case demo_map_pins by simp

lemma demo_host_pins: "w_pins (ho_world demo_host) = demo_pins" "ho_bpf demo_host = plane_world"
  by (simp_all add: demo_host_def demo_pins_def)

lemma demo_lock:
  "\<exists>fs. acquire_loader_lock True (w_fs (ho_world demo_host)) = (Inr (), fs) \<and> start_policy demo_args fs = Inr demo_start_policy \<and>
     desired_at_start 7 demo_args demo_start_policy fs = (Inr demo_http, fs)"
proof -
  let ?fs = "\<lparr>fs_files = [[''ports.conf''] \<mapsto> desired_text demo_http, lock_path \<mapsto> []], fs_unreadable = (\<lambda>_. False), fs_fault = (\<lambda>_. False)\<rparr>"
  have l: "acquire_loader_lock True (w_fs (ho_world demo_host)) = (Inr (), ?fs)"
    by (simp add: acquire_loader_lock_def demo_host_def in_context_def fs_do_def gets_def ret_def sbind_def lock_path_def lock_dir_def
        fs_exists_def resolve_def fun_upd_def)
  have "policy_load (policy_file_for demo_args) ?fs = Inr default_policy"
    by (simp add: policy_load_def policy_file_for_def demo_args_def demo_arg_paths default_path_def parent_or_dot_def path_parent_def
        fs_exists_def resolve_def lock_path_def lock_dir_def)
  then have p: "start_policy demo_args ?fs = Inr demo_start_policy"
    by (simp add: start_policy_def reserve_listen_target_def demo_targets demo_args_def demo_start_policy_def)
  have "fs_exists [''ports.conf''] ?fs" "fs_read [''ports.conf''] ?fs = Inr (desired_text demo_http)"
    by (simp_all add: fs_exists_def fs_read_def resolve_def lock_path_def lock_dir_def)
  then have "desired_at_start 7 demo_args demo_start_policy ?fs = (Inr demo_http, ?fs)"
    by (simp add: desired_at_start_def demo_args_def demo_arg_paths demo_http_load)
  with l p show ?thesis by blast
qed

lemma demo_prepare:
  "\<exists>h. prepare demo_start_env demo_args demo_host = (Inr (demo_http, demo_bpf), h) \<and> w_pins (ho_world h) = demo_pins"
proof -
  obtain fs where fs: "acquire_loader_lock True (w_fs (ho_world demo_host)) = (Inr (), fs)"
    "start_policy demo_args fs = Inr demo_start_policy" "desired_at_start 7 demo_args demo_start_policy fs = (Inr demo_http, fs)"
    using demo_lock by blast
  define g where "g = demo_host\<lparr>ho_world := (ho_world demo_host)\<lparr>w_fs := fs\<rparr>\<rparr>"
  have 1: "in_world (on_fs (acquire_loader_lock True)) demo_host = (Inr (), g)" using fs(1) by (simp add: in_world_fs g_def)
  have g: "w_fs (ho_world g) = fs" "w_pid (ho_world g) = 7" "w_pins (ho_world g) = demo_pins" "ho_bpf g = plane_world"
    by (simp_all add: g_def demo_host_pins) (simp_all add: demo_host_def)
  have 3: "in_world (on_fs (desired_at_start 7 demo_args demo_start_policy)) g = (Inr demo_http, g)"
    using fs(3) by (simp only: in_world_fs g prod.case) (simp add: g_def)
  obtain t where t: "load_and_attach plane_loader BpfC default_pin_dir (plane_world\<lparr>bw_files := fs_files fs\<rparr>) = (Inr demo_bpf, t)"
    "bw_pins t = bw_pins plane_world" "bw_halt t = (\<lambda>_. False)" "bw_fault t = (\<lambda>_. False)"
    using demo_start_bpf by blast
  obtain k where 4: "in_bpf (load_and_attach plane_loader BpfC default_pin_dir) g = (Inr demo_bpf, k)"
    "w_pins (ho_world k) = demo_pins" "ho_bpf k = t"
    using demo_bpf_pins [OF g(3), of "load_and_attach plane_loader BpfC default_pin_dir"] t(1,2) g(1,4) by auto
  have "bw_pins (t\<lparr>bw_files := F\<rparr>) = bw_pins plane_world" for F using t(2) by simp
  from demo_pinned [OF this] t(3,4) obtain u where u:
    "pin_or_warn demo_bpf default_pin_dir True (t\<lparr>bw_files := fs_files (w_fs (ho_world k))\<rparr>) = (Inr True, u)" "bw_pins u = bw_pins plane_world"
    by fastforce
  obtain h where 5: "in_bpf (pin_or_warn demo_bpf default_pin_dir True) k = (Inr True, h)" "w_pins (ho_world h) = demo_pins"
    using demo_bpf_pins [OF 4(2), of "pin_or_warn demo_bpf default_pin_dir True"] u 4(3) by auto
  have sel: "se_locked demo_start_env" "se_load demo_start_env = plane_loader" "a_bpf_impl demo_args = BpfC"
    "path_of (a_pin_dir demo_args) = default_pin_dir" "a_mode demo_args = OpenResty"
    "se_signals demo_start_env = Inr ()"
    by (simp_all add: demo_start_env_def demo_args_def demo_arg_paths)
  have 2: "in_world (getr (\<lambda>w. start_policy demo_args (w_fs w))) g = (Inr demo_start_policy, g)" "in_world (gets w_pid) g = (Inr 7, g)"
    by (simp_all add: in_world_looks g fs(2))
  have "prepare demo_start_env demo_args demo_host = (Inr (demo_http, demo_bpf), h)"
    unfolding prepare_def sel sbind_def using 1 2 3 4 5 sel by (simp add: ret_def lift_res_def)
  with 5(2) show ?thesis by blast
qed

context healthy_map
begin

lemma reconcile_map_opens:
  assumes room: "roomy ops m" and d: "om_wf d" "dom (port_view ops view m) \<subseteq> dom (om_get d)"
  shows "\<exists>pl n. reconcile_map ops d m = (Inr pl, n) \<and> same m n"
proof -
  obtain cur where cur: "read_map ops m = Inr cur" "om_get cur = port_view ops view m"
    using read_map_total [OF roomy_layout [OF room]] read_map_spec [OF _ roomy_layout [OF room]] by (auto simp: is_ok_iff)
  obtain k where k: "put_each ops redir_primary (put_primary (plan d cur)) m = (Inr (), k)" "same m k"
    using put_each_total [OF room] by blast
  obtain n where n: "put_each ops redir_tls (put_tls (plan d cur)) k = (Inr (), n)" "same k n"
    using put_each_total [OF roomy_same [OF k(2) room]] by blast
  have "set (plan_delete (plan d cur)) = {}"
    using cur(2) d(2) by (auto simp: set_eq_iff set_plan_delete simp del: set_empty)
  then have "plan_delete (plan d cur) = []" by simp
  then show ?thesis using cur(1) k n same_trans by (auto simp: reconcile_map_def sbind_def getr_def ret_def Let_def)
qed

end

lemma demo_wait: "wait_for_listen_socket demo_waiting ''127.0.0.1:8080'' 0 = Some (Inr demo_listener)"
  unfolding wait_for_listen_socket_def demo_split by (simp add: wait_loop.simps demo_waiting_def demo_found)

definition demo_redir_on :: khash where
  "demo_redir_on = demo_redir\<lparr>kh_data := [([0, 0, 0, 0], [6, 0, 0, 0, 0, 0, 0, 0])]\<rparr>"

lemma demo_slot_bytes: "ne_bytes True 4 (0 :: u32) = [0, 0, 0, 0]" "ne_bytes True 8 (scast (6 :: 32 word) :: u64) = [6, 0, 0, 0, 0, 0, 0, 0]"
  by (simp_all add: ne_bytes_def upt_rec)

lemma demo_register: "register_listen_fd (khash_ops True) 6 0 demo_redir = (Inr (), demo_redir_on)"
proof -
  have "fd_value (khash_ops True) demo_redir 6 = [6, 0, 0, 0, 0, 0, 0, 0]"
    using demo_slot_bytes(2) by (simp add: fd_value_def Let_def khash_ops_def demo_redir_def)
  then show ?thesis
    using demo_slot_bytes(1) by (simp add: register_listen_fd_eq khash_ops_def kh_update_def kh_keys_def kh_entries_def demo_redir_def demo_redir_on_def)
qed

lemma demo_serve:
  "\<exists>n. serve_slot (khash_ops True) 6 redir_primary [18081] (demo_map, demo_redir) = (Inr (), n, demo_redir_on) \<and>
     roomy (khash_ops True) n \<and> port_view (khash_ops True) kh_view n = slot_map demo_http"
proof -
  obtain n where n: "put_each (khash_ops True) redir_primary [18081] demo_map = (Inr (), n)" "kh_same demo_map n"
    using khh.put_each_total [OF demo_map_roomy(1)] by blast
  have "serve_slot (khash_ops True) 6 redir_primary [18081] (demo_map, demo_redir) = (Inr (), n, demo_redir_on)"
    using demo_register n(1)
    by (simp add: serve_slot_def sbind_def on_redir_socket_def on_open_ports_def open_steered_ports_put_each redir_primary_def)
  moreover have "port_view (khash_ops True) kh_view n = steer [18081] redir_primary (port_view (khash_ops True) kh_view demo_map)"
    using kh.put_each_spec [OF n(1) demo_map_roomy(2)] by auto
  moreover have "steer [18081] redir_primary (port_view (khash_ops True) kh_view demo_map) = slot_map demo_http"
    by (auto simp: fun_eq_iff steer_def port_view_def kh_view_def kh_entries_def demo_map_def slot_map_def demo_http_def om_get_def
        demo_binding_def seed_binding_def)
  ultimately show ?thesis using khh.roomy_same [OF n(2) demo_map_roomy(1)] by auto
qed

lemma demo_start:
  "\<exists>s h. run_attached demo_start_env demo_args demo_host = Some (Inr (demo_http, s), h) \<and> rn_held s = [demo_listener] \<and>
     snd (rn_own s) = demo_redir_on \<and> roomy (khash_ops True) (fst (rn_own s))"
proof -
  obtain h1 where h1: "prepare demo_start_env demo_args demo_host = (Inr (demo_http, demo_bpf), h1)" "w_pins (ho_world h1) = demo_pins"
    using demo_prepare by blast
  have sel: "path_of (a_pin_dir demo_args) = default_pin_dir" "se_ops demo_start_env = khash_ops True"
    by (simp_all add: demo_start_env_def demo_args_def demo_arg_paths)
  have pins: "demo_pins (open_ports_path default_pin_dir) = Some demo_map" "demo_pins (redir_socket_path default_pin_dir) = Some demo_redir"
    by (simp_all add: demo_pins_def plane_paths)
  have ids: "with_maps demo_bpf (\<lambda>open_ports redir_socket. Inr (open_ports, redir_socket)) = Inr (1, 2)"
    by (simp add: with_maps_def demo_bpf_def)
  have shown: "show_pin (redir_socket_path default_pin_dir) x (show_pin (open_ports_path default_pin_dir) y h1) = h1" for x y
    by (simp add: show_pin_def h1(2) pins)
  have maps: "own_maps default_pin_dir o1 (ho_world h1) = (demo_map, demo_redir)" for o1
    by (simp add: own_maps_def held_map_def h1(2) pins)
  obtain n where n: "serve_slot (khash_ops True) 6 redir_primary [18081] (demo_map, demo_redir) = (Inr (), n, demo_redir_on)"
    "roomy (khash_ops True) n" "port_view (khash_ops True) kh_view n = slot_map demo_http"
    using demo_serve by blast
  have mode: "start_mode demo_start_env demo_args demo_http (demo_map, demo_redir) = Some (Inr [demo_listener], n, demo_redir_on)"
    using n(1) demo_wait
    by (simp add: start_mode_def run_openresty_mode_def sel slot_ports_def demo_http_def demo_binding_def seed_binding_def
        demo_args_def redir_primary_def redir_tls_def demo_start_env_def demo_listener_def)
  have "dom (port_view (khash_ops True) kh_view n) \<subseteq> dom (om_get demo_http)" unfolding n(3) by (auto simp: slot_map_def)
  then obtain pl l where "reconcile_map (khash_ops True) demo_http n = (Inr pl, l)" "kh_same n l"
    using khh.reconcile_map_opens [OF n(2) demo_http_facts(1)] by blast
  then show ?thesis
    using h1 khh.roomy_same [OF _ n(2)] by (simp add: run_attached_def Let_def ids sel shown maps mode on_open_ports_def)
qed

lemma demo_start_ops: "se_ops demo_start_env = khash_ops True"
  by (simp add: demo_start_env_def)

lemma demo_arg_dir: "path_of (a_pin_dir demo_args) = default_pin_dir" "path_of (a_ports_file demo_args) = [''ports.conf'']"
  by (simp_all add: demo_args_def demo_arg_paths)

lemma demo_start_layout: "start_layout demo_start_env demo_args demo_host"
proof -
  obtain k where k: "prepare demo_start_env demo_args demo_host = (Inr (demo_http, demo_bpf), k)" using demo_prepare by blast
  have "i = 1" if "with_maps demo_bpf (\<lambda>op rd. Inr (op, rd)) = Inr (i, j)" for i j
    using that by (simp add: with_maps_def demo_bpf_def)
  moreover have "port_layout (khash_ops True) (se_fresh demo_start_env 1)" by (simp add: demo_start_env_def)
  moreover have "demo_pins (open_ports_path default_pin_dir) = Some demo_map" by (simp add: demo_pins_def plane_paths)
  ultimately show ?thesis by (auto simp: start_layout_def k demo_start_ops demo_arg_dir demo_host_pins)
qed

definition demo_loader_helpers :: "khash \<times> khash \<Rightarrow> bytes helpers" where
  "demo_loader_helpers maps = \<lparr>h_le = True, h_open_ports = kh_view (fst maps), h_redir_socket = kh_view (snd maps), h_assign = (\<lambda>_ _. 0)\<rparr>"

subsection \<open>A reload that opens ports\<close>

lemma demo_reload_opens:
  assumes "load_with_policy (path_of (a_ports_file args)) (policy_file_for args) (w_fs (so_world (rn_sock s))) = Inr d"
    and "roomy (khash_ops True) (fst (current_maps args s))"
    and "dom (port_view (khash_ops True) kh_view (fst (current_maps args s))) \<subseteq> dom (om_get d)"
  shows "port_view (khash_ops True) kh_view (fst (current_maps args (reload_map (khash_ops True) args s))) = slot_map d"
proof -
  have "om_wf d" using load_with_policy_inv [OF assms(1)] by (auto simp: desired_inv_def)
  then have "is_ok (fst (reconcile_map (khash_ops True) d (fst (current_maps args s))))"
    using khh.reconcile_map_opens [OF assms(2) _ assms(3)] by auto
  then show ?thesis
    using kh.reload_map_spec [OF _ refl, of True args s] khh.roomy_layout [OF assms(2)] assms(1)
    by (simp add: current_maps_def Let_def)
qed

definition demo_other_file :: "khash running \<Rightarrow> khash running" where
  "demo_other_file s = s\<lparr>rn_sock := (rn_sock s)\<lparr>so_world := (so_world (rn_sock s))\<lparr>w_fs := w_fs demo_world\<rparr>\<rparr>\<rparr>"

definition demo_turn :: loop_turn where
  "demo_turn = \<lparr>lt_shutdown = False, lt_reload = True, lt_rescan = True, lt_due = False, lt_view = demo_proc, lt_view_tls = demo_proc\<rparr>"

lemma demo_other_load:
  "load_with_policy (path_of (a_ports_file demo_args)) (policy_file_for demo_args) (w_fs demo_world) = Inr demo_desired"
  using demo_world_load(1) by (simp add: demo_arg_dir(2) policy_file_for_def demo_args_def demo_arg_paths default_path_def parent_or_dot_def
      path_parent_def)

lemma demo_running:
  assumes "\<not> so_poisoned (rn_sock s)" "current_maps demo_args s = (op, rd)" "roomy (khash_ops True) op"
    "port_view (khash_ops True) kh_view op = slot_map demo_http"
  shows "\<exists>t. reaches (khash_ops True) parse demo_args has_tls s t \<and>
     port_view (khash_ops True) kh_view (fst (current_maps demo_args t)) = slot_map demo_desired"
proof -
  let ?s = "demo_other_file s" and ?step = "running_step (khash_ops True) parse demo_args has_tls"
  define r where "r = reload_map (khash_ops True) demo_args ?s"
  define t where "t = rescan_turn (khash_ops True) demo_proc demo_proc demo_args has_tls r"
  have 1: "?step s ?s" unfolding demo_other_file_def by (rule running_step.Other) simp
  have "so_poisoned (rn_sock ?s) = so_poisoned (rn_sock s)" by (simp add: demo_other_file_def)
  then have "main_turn (khash_ops True) demo_args has_tls demo_turn ?s = (Inr (), t)"
    using assms(1) by (simp add: main_turn_def reload_turn_def demo_turn_def sbind_def t_def r_def demo_args_def)
  then have 2: "?step ?s t" by (rule running_step.Turn)
  have maps: "current_maps demo_args ?s = (op, rd)"
    using assms(2) by (simp add: current_maps_def own_maps_def held_map_def demo_other_file_def)
  have body: "w_fs (so_world (rn_sock ?s)) = w_fs demo_world" by (simp add: demo_other_file_def)
  have "port_view (khash_ops True) kh_view (fst (current_maps demo_args r)) = slot_map demo_desired"
    unfolding r_def
    by (rule demo_reload_opens) (use maps assms(3,4) demo_other_load in
      \<open>auto simp: body slot_map_def demo_http_def demo_desired_def om_get_def split: if_splits\<close>)
  moreover have "fst (current_maps demo_args t) = fst (current_maps demo_args r)"
    by (auto simp: t_def rescan_turn_def current_maps_def Let_def split: prod.split)
  ultimately show ?thesis using 1 2 unfolding reaches_def by (intro exI [of _ t]) auto
qed

lemma demo_start_running:
  "\<exists>s h t. run_attached demo_start_env demo_args demo_host = Some (Inr (demo_http, s), h) \<and>
     rn_held s = [demo_listener] \<and> snd (rn_own s) = demo_redir_on \<and> current_maps demo_args s = rn_own s \<and>
     reaches (khash_ops True) parse demo_args has_tls s t \<and>
     port_view (khash_ops True) kh_view (fst (current_maps demo_args t)) = slot_map demo_desired"
proof -
  obtain s h where s: "run_attached demo_start_env demo_args demo_host = Some (Inr (demo_http, s), h)" "rn_held s = [demo_listener]"
    "snd (rn_own s) = demo_redir_on" "roomy (khash_ops True) (fst (rn_own s))"
    using demo_start by blast
  note run = kh.run_attached_Inr [OF s(1) demo_start_ops demo_start_layout]
  have maps: "current_maps demo_args s = rn_own s" using conjunct1 [OF conjunct2 [OF run]] by (simp add: current_maps_def)
  have "port_view (khash_ops True) kh_view (fst (rn_own s)) = slot_map demo_http" "\<not> so_poisoned (rn_sock s)"
    using run by (simp_all add: serving_def)
  moreover have "current_maps demo_args s = (fst (rn_own s), snd (rn_own s))" using maps by simp
  ultimately obtain t where "reaches (khash_ops True) parse demo_args has_tls s t"
    "port_view (khash_ops True) kh_view (fst (current_maps demo_args t)) = slot_map demo_desired"
    using demo_running s(4) by blast
  with maps s(1-3) show ?thesis by blast
qed

definition demo_frozen :: "khash running" where
  "demo_frozen = \<lparr>rn_sock = \<lparr>so_world = demo_world
       \<lparr>w_fs := (w_fs demo_world)\<lparr>fs_files := (fs_files (w_fs demo_world))(resolve default_freeze_file \<mapsto> [])\<rparr>, w_pins := demo_pins\<rparr>,
      so_audit = [], so_poisoned = False\<rparr>,
     rn_held = [demo_listener], rn_own = (demo_map, demo_redir_on)\<rparr>"

lemma demo_frozen_facts:
  "is_frozen default_freeze_file (w_fs (so_world (rn_sock demo_frozen)))"
  "fst (current_maps demo_args demo_frozen) = demo_map"
  "load_with_policy (path_of (a_ports_file demo_args)) (policy_file_for demo_args) (w_fs (so_world (rn_sock demo_frozen))) = Inr demo_desired"
proof -
  show "is_frozen default_freeze_file (w_fs (so_world (rn_sock demo_frozen)))"
    by (simp add: demo_frozen_def is_frozen_def fs_exists_def)
  show "fst (current_maps demo_args demo_frozen) = demo_map"
    by (simp add: current_maps_def own_maps_def held_map_def demo_frozen_def demo_arg_dir demo_pins_def plane_paths)
  have other: "resolve default_freeze_file \<noteq> resolve [''ports.conf'']" "resolve default_freeze_file \<noteq> resolve [''.'', ''policy.conf'']"
    by (simp_all add: default_freeze_file_def resolve_def)
  have "load_with_policy [''ports.conf''] [''.'', ''policy.conf''] (w_fs (so_world (rn_sock demo_frozen))) =
      load_with_policy [''ports.conf''] [''.'', ''policy.conf''] (w_fs demo_world)"
    using other by (simp add: load_with_policy_def policy_load_def fs_read_def fs_exists_def demo_frozen_def cong: if_cong option.case_cong)
  then show "load_with_policy (path_of (a_ports_file demo_args)) (policy_file_for demo_args) (w_fs (so_world (rn_sock demo_frozen))) = Inr demo_desired"
    using demo_other_load by (simp add: demo_arg_dir(2) policy_file_for_def demo_args_def demo_arg_paths default_path_def parent_or_dot_def
      path_parent_def)
qed

definition demo_sock_dir :: sock_dir where
  "demo_sock_dir = \<lparr>sd_nodes = (\<lambda>_. None), sd_dirs = (\<lambda>_. Some 493), sd_created = \<lparr>sm_uid = 0, sm_gid = 0, sm_mode = 493\<rparr>,
     sd_created_dir = 493, sd_fault = (\<lambda>_. False)\<rparr>"

lemma demo_sock_start: "\<exists>t. start_socket [''run'', ''ctl.sock''] (Some 20) demo_sock_dir = (Inr (), t)"
  by (simp add: start_socket_def bind_listener_def sock_do_def in_context_def on_node_def gets_def getr_def ret_def sbind_def Let_def
      demo_sock_dir_def)

end
