(* ===== verification/Loader_Main.thy ===== *)
theory Loader_Main
  imports Main_Facts Ctl_Socket
begin

text \<open>
  \<open>rust/loader/src/main.rs\<close>: which of its parts the process runs, and a run of the loader from its
  start to its end, with the control socket around the loop.
\<close>

subsection \<open>The parts of the process\<close>

text \<open>What the words of the command line ask for, the program's own name left out.\<close>

datatype entry = ClientRun "string list" | CommandRun "string list" | UsageRun | LoaderRun long_running_args | BadCommandLine err

definition choose_entry :: "(string \<Rightarrow> nat \<Rightarrow> nat option) \<Rightarrow> (string \<Rightarrow> string option) \<Rightarrow> string list \<Rightarrow> entry" where
  "choose_entry scale env words =
     (let loader = (case parse_long_running scale env words of
          Inl e \<Rightarrow> BadCommandLine e | Inr None \<Rightarrow> UsageRun | Inr (Some args) \<Rightarrow> LoaderRun args) in
      case words of
        [] \<Rightarrow> loader
      | w # rest \<Rightarrow> if w = ''ctl'' then ClientRun rest else if is_ctl_command w then CommandRun words else loader)"

subsection \<open>A run of the loader\<close>

text \<open>A control socket that cannot be bound is logged, and the loader runs without it.\<close>

definition control_socket :: "long_running_args \<Rightarrow> sock_dir \<Rightarrow> path option \<times> sock_dir" where
  "control_socket args s =
     (case a_ctl_sock args of
        None \<Rightarrow> (None, s)
      | Some p \<Rightarrow>
          (case start_socket (path_of p) (map_option of_nat (a_ctl_group args)) s of
             (Inl e, t) \<Rightarrow> (None, t)
           | (Inr _, t) \<Rightarrow> (Some (path_of p), t)))"

text \<open>
  \<open>run_loader\<close>, with what \<open>run_attached\<close> does after the start: the control socket, the loop, and the
  server that goes with the loop, whatever ends it. A wait or a loop that never ends is \<open>None\<close>.
\<close>

definition run_loader ::
    "'m start_env \<Rightarrow> long_running_args \<Rightarrow> (nat \<Rightarrow> loop_turn) \<Rightarrow> 'm host \<times> sock_dir \<Rightarrow>
      ((err + unit) \<times> 'm host \<times> sock_dir) option" where
  "run_loader env args turns s =
     (case s of (h, files) \<Rightarrow>
        if a_mode args \<in> {ClosePort, OpenPort, DumpPorts} then
          (case in_world (run_map_edit (se_ops env) args) h of (r, t) \<Rightarrow> Some (r, t, files))
        else (case run_attached env args h of
            None \<Rightarrow> None
          | Some (Inl e, t) \<Rightarrow> Some (Inl e, t, files)
          | Some (Inr (d, k), t) \<Rightarrow>
              (case control_socket args files of (server, bound) \<Rightarrow>
                (case main_loop (se_ops env) args (slot_ports redir_tls d \<noteq> []) turns 0 k of
                   None \<Rightarrow> None
                 | Some (r, u) \<Rightarrow> Some (r, t\<lparr>ho_world := so_world (rn_sock u)\<rparr>,
                     (case server of None \<Rightarrow> bound | Some p \<Rightarrow> drop_server p bound))))))"

subsection \<open>Facts\<close>

text \<open>Every name of a command goes to the command line, whatever follows it.\<close>

lemma choose_command: "is_ctl_command w \<Longrightarrow> choose_entry scale env (w # rest) = CommandRun (w # rest)"
  by (auto simp: choose_entry_def is_ctl_command_def)

lemma choose_ctl: "choose_entry scale env (''ctl'' # rest) = ClientRun rest"
  by (simp add: choose_entry_def)

lemma entry_command:
  "choose_entry scale env words = CommandRun argv \<Longrightarrow> \<exists>op args. argv = op # args \<and> map_of (ctl_commands ce argv args) op \<noteq> None"
  using command_names by (fastforce simp: choose_entry_def Let_def split: list.splits if_splits sum.splits option.splits)

text \<open>A loop fails only when the mutation lock is poisoned, which no turn does.\<close>

lemma reload_poisoned [simp]: "so_poisoned (rn_sock (reload_map ops args s)) = so_poisoned (rn_sock s)"
  by (auto simp: reload_map_def Let_def split: sum.split prod.split)

lemma rescan_poisoned [simp]: "so_poisoned (rn_sock (rescan_turn ops v w args has_tls s)) = so_poisoned (rn_sock s)"
  by (auto simp: rescan_turn_def Let_def split: prod.split)

lemma main_turn_runs:
  assumes "\<not> so_poisoned (rn_sock s)"
  shows "\<exists>u. main_turn ops args has_tls t s = (Inr (), u) \<and> \<not> so_poisoned (rn_sock u)"
  using assms by (simp add: main_turn_def reload_turn_def sbind_def ret_def)

text \<open>The state after a number of turns from the \<open>i\<close>-th on.\<close>

fun after_turns ::
    "'m kops \<Rightarrow> long_running_args \<Rightarrow> bool \<Rightarrow> (nat \<Rightarrow> loop_turn) \<Rightarrow> nat \<Rightarrow> nat \<Rightarrow> 'm running \<Rightarrow> 'm running" where
  "after_turns ops args has_tls turns i 0 s = s"
| "after_turns ops args has_tls turns i (Suc n) s =
     after_turns ops args has_tls turns (Suc i) n (snd (main_turn ops args has_tls (turns i) s))"

lemma after_turns_reaches:
  "\<not> so_poisoned (rn_sock s) \<Longrightarrow> reaches ops parse args has_tls s (after_turns ops args has_tls turns i n s)"
proof (induction n arbitrary: i s)
  case 0
  then show ?case by (simp add: reaches_def)
next
  case (Suc n)
  obtain u where u: "main_turn ops args has_tls (turns i) s = (Inr (), u)" "\<not> so_poisoned (rn_sock u)"
    using main_turn_runs [OF Suc.prems] by blast
  have "running_step ops parse args has_tls s u" using u(1) by (rule running_step.Turn)
  then show ?case using Suc.IH [OF u(2), of "Suc i"] u(1) by (simp add: reaches_def)
qed

text \<open>The loop ends at the first turn that finds the flag of the shutdown, and only there.\<close>

lemma main_loop_ends:
  assumes "\<not> so_poisoned (rn_sock s)" "lt_shutdown (turns (i + n))" "\<forall>j < n. \<not> lt_shutdown (turns (i + j))"
  shows "main_loop ops args has_tls turns i s = Some (Inr (), after_turns ops args has_tls turns i n s)"
  using assms
proof (induction n arbitrary: i s)
  case 0
  then show ?case by (subst main_loop.simps) simp
next
  case (Suc n)
  have on: "\<not> lt_shutdown (turns i)" using Suc.prems(3) by (metis add_0_right zero_less_Suc)
  obtain u where u: "main_turn ops args has_tls (turns i) s = (Inr (), u)" "\<not> so_poisoned (rn_sock u)"
    using main_turn_runs [OF Suc.prems(1)] by blast
  have "main_loop ops args has_tls turns (Suc i) u = Some (Inr (), after_turns ops args has_tls turns (Suc i) n u)"
  proof (rule Suc.IH [OF u(2)])
    show "lt_shutdown (turns (Suc i + n))" using Suc.prems(2) by simp
    show "\<forall>j < n. \<not> lt_shutdown (turns (Suc i + j))"
      using Suc.prems(3) by (metis Suc_less_eq add_Suc_right add_Suc)
  qed
  then show ?case using on u(1) by (subst main_loop.simps) simp
qed

lemma main_loop_shutdown:
  assumes "main_loop ops args has_tls turns i s = Some r" "\<not> so_poisoned (rn_sock s)"
  shows "\<exists>n. lt_shutdown (turns n)"
proof -
  have "\<not> so_poisoned (rn_sock s) \<longrightarrow> (\<exists>n. lt_shutdown (turns n))"
  proof (induction ops args has_tls turns i s r rule: main_loop.raw_induct)
    case (1 rec ops args has_tls turns i s r)
    show ?case
    proof
      assume p: "\<not> so_poisoned (rn_sock s)"
      obtain u where u: "main_turn ops args has_tls (turns i) s = (Inr (), u)" "\<not> so_poisoned (rn_sock u)"
        using main_turn_runs [OF p] by blast
      show "\<exists>n. lt_shutdown (turns n)"
        using 1(1) [of ops args has_tls turns "Suc i" u r] 1(2) u by (auto split: if_splits)
    qed
  qed (rule assms(1))
  then show ?thesis using assms(2) by blast
qed

text \<open>The file of the server is gone after the run, and a file that is no socket of it stays.\<close>

lemma drop_server_node: "\<not> sd_fault s (Unlink p) \<Longrightarrow> sd_nodes (drop_server p s) = (sd_nodes s)(p := None)"
  by (simp add: drop_server_def attempt_def sock_do_def)

lemma sock_do_fault: "sock_do c f s = (r, t) \<Longrightarrow> (\<And>x. sd_fault (f x) = sd_fault x) \<Longrightarrow> sd_fault t = sd_fault s"
  by (auto simp: sock_do_def split: if_splits)

lemma start_socket_fault: "start_socket p grp s = (r, t) \<Longrightarrow> sd_fault t = sd_fault s"
  by (auto simp: start_socket_def bind_listener_def sock_do_def in_context_def on_node_def gets_def getr_def ret_def sbind_def Let_def
      split: if_splits option.splits)

lemma control_socket_fault: "control_socket args s = (server, t) \<Longrightarrow> sd_fault t = sd_fault s"
  by (auto simp: control_socket_def split: option.splits prod.splits sum.splits dest: start_socket_fault)

text \<open>A loader that has started ends exactly when it is told to, after the turns before that.\<close>

lemma run_loader_ends:
  assumes "run_attached env args h = Some (Inr (d, s), h')" "a_mode args \<in> {Toy, OpenResty}" "\<not> so_poisoned (rn_sock s)"
  shows "(\<exists>r. run_loader env args turns (h, files) = Some r) \<longleftrightarrow> (\<exists>k. lt_shutdown (turns k))"
    "lt_shutdown (turns k) \<Longrightarrow> \<forall>i < k. \<not> lt_shutdown (turns i) \<Longrightarrow> \<exists>files'.
       run_loader env args turns (h, files) = Some (Inr (), h'\<lparr>ho_world := so_world (rn_sock
         (after_turns (se_ops env) args (slot_ports redir_tls d \<noteq> []) turns 0 k s))\<rparr>, files') \<and>
       (\<forall>p. fst (control_socket args files) = Some p \<and> \<not> sd_fault files (Unlink p) \<longrightarrow> sd_nodes files' p = None)"
proof -
  let ?loop = "main_loop (se_ops env) args (slot_ports redir_tls d \<noteq> []) turns 0 s"
  let ?final = "\<lambda>k. after_turns (se_ops env) args (slot_ports redir_tls d \<noteq> []) turns 0 k s"
  obtain server bound where c: "control_socket args files = (server, bound)" by fastforce
  let ?files = "case server of None \<Rightarrow> bound | Some p \<Rightarrow> drop_server p bound"
  have run: "run_loader env args turns (h, files) =
      (case ?loop of None \<Rightarrow> None | Some (r, u) \<Rightarrow> Some (r, h'\<lparr>ho_world := so_world (rn_sock u)\<rparr>, ?files))"
    using assms(1,2) c by (auto simp: run_loader_def split: option.splits)
  have ends: "?loop = Some (Inr (), ?final k)" if "lt_shutdown (turns k)" "\<forall>i < k. \<not> lt_shutdown (turns i)" for k
    using main_loop_ends [OF assms(3), of turns 0 k] that by simp
  show "(\<exists>r. run_loader env args turns (h, files) = Some r) \<longleftrightarrow> (\<exists>k. lt_shutdown (turns k))"
  proof
    assume "\<exists>r. run_loader env args turns (h, files) = Some r"
    then obtain x where "?loop = Some x" using run by (auto split: option.splits)
    then show "\<exists>k. lt_shutdown (turns k)" using main_loop_shutdown assms(3) by blast
  next
    assume "\<exists>k. lt_shutdown (turns k)"
    then obtain k where "lt_shutdown (turns k)" "\<forall>i < k. \<not> lt_shutdown (turns i)"
      using exists_least_iff [of "\<lambda>k. lt_shutdown (turns k)"] by blast
    then show "\<exists>r. run_loader env args turns (h, files) = Some r" using run ends by simp
  qed
  assume "lt_shutdown (turns k)" "\<forall>i < k. \<not> lt_shutdown (turns i)"
  then have "run_loader env args turns (h, files) = Some (Inr (), h'\<lparr>ho_world := so_world (rn_sock (?final k))\<rparr>, ?files)"
    using run ends by simp
  moreover have "sd_nodes ?files p = None" if "server = Some p" "\<not> sd_fault files (Unlink p)" for p
    using that drop_server_node control_socket_fault [OF c] by simp
  ultimately show "\<exists>files'. run_loader env args turns (h, files) = Some (Inr (), h'\<lparr>ho_world := so_world (rn_sock (?final k))\<rparr>, files') \<and>
      (\<forall>p. fst (control_socket args files) = Some p \<and> \<not> sd_fault files (Unlink p) \<longrightarrow> sd_nodes files' p = None)"
    using c by auto
qed

end
