(* ===== verification/Spec2Isabelle.thy ===== *)
theory Spec2Isabelle
  imports Main_Examples Loader_Main
begin

text \<open>
  \<^bold>\<open>The program.\<close> \<open>waf-sklookup\<close> steers TCP connections to external ports to one or two internal listeners
  of OpenResty. A BPF program at the \<open>sk_lookup\<close> hook (\<open>dispatch.bpf.c\<close>, \<open>rust/bpf/src/lib.rs\<close>) reads
  two pinned maps: \<open>open_ports\<close> gives a port its slot, \<open>redir_socket\<close> gives a slot its socket. A
  long-running loader (\<open>rust/loader/src/main.rs\<close>) loads and attaches the program, puts the listeners
  into the slots and brings \<open>open_ports\<close> to the desired state of \<open>ports.conf\<close>. The same binary is a
  command line (\<open>ctl.rs\<close>) that edits file and map together, and serves such edits over a Unix socket
  (\<open>sockctl.rs\<close>); the BPF program can be exchanged in place (\<open>upgrade.rs\<close>).

  \<^bold>\<open>The theories.\<close> All sources are under \<open>src/rust/loader/src\<close> unless another path is given.
  \<^item> \<open>Prelude\<close>: machine types, errors, actions with state and early return; \<open>Rust_Text\<close>, \<open>Sock_Addr\<close>: the text
    and address functions of the standard library and the two readers of listen targets;
    \<open>Ordered_Map\<close>: \<open>BTreeMap\<close> as a locale and its model; \<open>File_System\<close>: files, with writing as single
    steps that may fail or be the last one before a crash; \<open>Act_Logic\<close>: triples for actions.
  \<^item> \<open>Ports\<close> (\<open>ports.rs\<close>), \<open>Policy\<close> (\<open>policy.rs\<close>), \<open>Desired\<close> (\<open>desired.rs\<close>), \<open>State_Files\<close> (\<open>freeze.rs\<close>,
    \<open>metrics.rs\<close>), \<open>Central\<close> (\<open>central.rs\<close>), \<open>Nginx_Listen\<close> (\<open>nginx_listen.rs\<close>), \<open>Cli\<close> (\<open>cli.rs\<close>).
  \<^item> \<open>Kernel_Map\<close>: what the documentation promises of BPF maps, as the locales \<open>kernel_map\<close> and
    \<open>healthy_map\<close>, interpreted on a hash map; what a lookup and a listing of keys return is promised of the
    map of the ports only, and of a socket map only what an update does; \<open>Bulk\<close> (\<open>bulk.rs\<close> and the map side of \<open>desired.rs\<close>).
  \<^item> \<open>Dispatch\<close>: the BPF program, in Rust and in C.
  \<^item> \<open>Ctl\<close>, \<open>Run_Ctl\<close> (\<open>ctl.rs\<close>): the commands, and one run with its audit; \<open>Sockctl\<close>, \<open>Ctl_Socket\<close>
    (\<open>sockctl.rs\<close>): requests, and the socket file.
  \<^item> \<open>Bpf_Pins\<close> (\<open>pin.rs\<close>), \<open>Load\<close> (\<open>load.rs\<close>), \<open>Upgrade\<close> (\<open>upgrade.rs\<close>): pins, links and programs, one fault
    and one kill choice for every system call.
  \<^item> \<open>Listen_Fd\<close> (\<open>listen_fd.rs\<close>), \<open>Openresty\<close> (\<open>openresty.rs\<close>, \<open>toy.rs\<close>), \<open>Main_Loop\<close> and
    \<open>Loader_Main\<close> (\<open>main.rs\<close>): finding and holding the listeners, a start, the loop, and a whole run.
  \<^item> \<open>Ctl_Agree\<close>, \<open>Ctl_Live\<close>, \<open>Load_Facts\<close>, \<open>Upgrade_Safe\<close>, \<open>Upgrade_Live\<close>, \<open>Upgrade_Undo\<close>, \<open>Addr_Facts\<close>, \<open>Listen_Facts\<close>,
    \<open>Openresty_Facts\<close>, \<open>Run_Ctl_Facts\<close>, \<open>Main_Facts\<close>: the lemmas of the component they name.
  \<^item> \<open>Examples\<close>, \<open>Plane_Examples\<close>, \<open>Main_Examples\<close>: concrete machines on which the properties are applied.

  \<^bold>\<open>State.\<close> A command works on a \<open>world\<close>: the files, the maps by pin path, standard input, environment,
  clock and process id. The machine of a run (\<open>host\<close>) adds the pins and links of the BPF file system and
  the audit. A running loader (\<open>running\<close>) has that world behind the mutation lock, the list of listeners
  it holds and its two maps; a pinned map is the world's, so that commands and the loader share it. Errors
  are values of a sum type; every early return is a branch. Ports, slots and bytes are words.

  \<^bold>\<open>What is shown.\<close>
  \<^item> Data: the desired file and the central state read back as they were written (up to the comment
    sign), what is accepted is exactly what the policy admits, port lists are distinct and in range.
  \<^item> Maps: bulk operations steer exactly their ports, or a prefix of them, on the batch and on the
    fallback path; a reconcile gives every port its old or its desired slot, and the desired one on
    success; the BPF program steers an open port to its listener or drops it, and the C and Rust programs
    are the same.
  \<^item> Commands and requests: file and map agree before and after; a failing add changes nothing before
    the puts; the freeze gate, the authorization of the socket, and the audit of both ways in.
  \<^item> Crashes: a write leaves the old or the new text; a start and an upgrade, stopped anywhere, keep the
    other links and pins and a known program on the primary one; what a failed health check, a rollback and
    a rollback after a kill leave behind.
  \<^item> The loader: a successful start serves the desired state, never steers its own listeners, and every
    port reaches the listener that was waited for; each slot follows the held listener through all
    turns, requests and outside changes; the loop ends exactly at a shutdown; the wait and the include walk end.
  The theorems without a number below are facts that other properties extend.

  \<^bold>\<open>Bounds and fuel.\<close> Loops over data are structural or have a measure. The include walk takes the number
  of nginx files plus one as fuel, which is proved enough: every step visits a file for the first time. The wait
  for a listener and the loop of the loader are partial functions over an endless sequence of turns: \<open>None\<close> is
  one that never ends; the wait ends when its clock passes the deadline, the loop at a shutdown. File texts are
  written a character at a time, so that a crash may cut them anywhere.

  \<^bold>\<open>Arguments of the model.\<close> What is not code of the repository is an argument: the operations of a map
  (\<open>kops\<close>, with the laws of \<open>kernel_map\<close>), the BPF helpers, opening and loading of objects by libbpf,
  the JSON and hash libraries, the double-precision product of a duration, the clock, the environment, the
  registration of the signal handlers and the flags they set, what \<open>/proc\<close>, \<open>pidfd_open\<close> and \<open>poll\<close> answer in
  each turn, \<open>flock\<close>, and the connections of the socket. Faults and
  kills of the BPF file system are a function of the number of system calls done. The loop is considered
  for outside processes that edit files and the map of the ports; one that unpins the maps or
  registers sockets itself (\<open>unpin\<close>, \<open>rescan-listen\<close>) while the loader runs is not among its steps.

  \<^bold>\<open>Not modelled.\<close> The texts of log lines and instructions and the usage text, elapsed times, thread
  sleeps and the memory limit call have no effect on the state and are left out. The standard output and error
  are taken to be writable: in the code a progress line that fails ends a bulk operation with its error. The
  accept loop of the toy server, which hands connections to threads, is left out too.
  \<open>rust/loader/build.rs\<close> runs compilers at build time. The unit tests are not translated.
\<close>

text \<open>
  C3: Writing a desired state and reading the file back under the same policy gives the same
  state exactly when no identity in it holds the comment sign, which the reader cuts lines at.
\<close>

theorem desired_file_round_trip:
  assumes "policy_wf pol" "om_wf d" "admissible pol d" "\<forall>e \<in> set d. slot_ok (snd e)"
  shows "load_from_reader_with_policy (desired_text d) pol = Inr d \<longleftrightarrow>
    (\<forall>e \<in> set d. hash_free (snd e))"
  using assms by (rule desired_round_trip)

theorem desired_file_round_trip_witness:
  "load_from_reader_with_policy (desired_text demo_desired) default_policy = Inr demo_desired \<and>
   load_from_reader_with_policy (desired_text hash_desired) default_policy \<noteq> Inr hash_desired"
  using desired_file_round_trip [of default_policy demo_desired]
    desired_file_round_trip [of default_policy hash_desired] policy_wf_default by simp

text \<open>
  C4: Whatever the desired file and the policy file hold, a state that loads is a well-formed map
  the policy admits, and it opens neither port 0, nor a built-in denied port, nor a reserved one.
\<close>

theorem loaded_state_is_admissible:
  assumes "load_with_policy path policy_path fs = Inr d"
  shows "\<exists>pol. policy_load policy_path fs = Inr pol \<and> om_wf d \<and> admissible pol d \<and>
    (\<forall>p \<in> dom (om_get d). p \<noteq> 0 \<and> p \<notin> set default_deny \<and> p \<notin> p_reserve pol)"
proof -
  obtain pol where pol: "policy_load policy_path fs = Inr pol" "desired_inv pol d"
    using load_with_policy_inv [OF assms] by blast
  note wf = policy_load_wf [OF pol(1)]
  have "port_allowed pol p" if "p \<in> dom (om_get d)" for p
    using that pol(2) om_get_Some_iff [of d p] by (auto simp: desired_inv_def admissible_def)
  then show ?thesis
    using pol wf port_allowed_nonzero port_allowed_not_default_denied
    by (auto simp: desired_inv_def port_allowed_def)
qed

theorem loaded_state_is_admissible_witness:
  "\<exists>pol. policy_load demo_policy_file demo_fs = Inr pol \<and> om_wf demo_desired \<and>
    admissible pol demo_desired \<and> (18081 :: port) \<notin> p_reserve pol"
proof -
  have "18081 \<in> dom (om_get demo_desired)" by (simp add: demo_desired_def om_get_def)
  then show ?thesis using loaded_state_is_admissible [OF demo_load] by blast
qed

text \<open>
  C32: The check of a whole state accepts exactly the states that fit the capacity and the machine
  quota, whose bindings are all valid on allowed ports, and in which every tenant is within its quota.
\<close>

theorem validate_accepts_exactly_admissible:
  "validate d pol = Inr () \<longleftrightarrow>
     length d \<le> open_ports_max_entries \<and> length d \<le> p_max_ports_per_machine pol \<and>
     (\<forall>(p, b) \<in> set d. binding_ok b \<and> port_allowed pol p) \<and>
     (\<forall>t. length (tenant_ports d t) \<le> p_max_ports_per_tenant pol)"
  by (simp add: validate_iff admissible_def)

theorem validate_accepts_exactly_admissible_witness:
  "length (tenant_ports demo_desired ''demo'') \<le> p_max_ports_per_tenant default_policy \<and>
   binding_ok demo_binding \<and> port_allowed default_policy 18081"
proof -
  have "validate demo_desired default_policy = Inr ()" by (simp add: validate_iff)
  moreover have "(18081, demo_binding) \<in> set demo_desired" by (simp add: demo_desired_def)
  ultimately show ?thesis
    using validate_accepts_exactly_admissible [of demo_desired default_policy] by fastforce
qed

text \<open>
  C5: Replacing the desired file is atomic: after any prefix of its steps, also one cut short by a
  failing step or a crash, the file holds the old text or the whole new one.
\<close>

theorem desired_write_is_crash_atomic:
  assumes "names_file path"
    and "fs_run (take k (replace_steps (tmp_path pid path) path had_old (desired_text d))) fs = (r, fs')"
  shows "fs_files fs' (resolve path) \<in> {fs_files fs (resolve path), Some (desired_text d)}"
proof (cases "k < length (replace_steps (tmp_path pid path) path had_old (desired_text d))")
  case True
  then show ?thesis
    using replace_prefix_frame [OF assms(2) True] tmp_path_neq [OF assms(1), of pid] by simp
next
  case False
  then have run: "fs_run (replace_steps (tmp_path pid path) path had_old (desired_text d)) fs = (r, fs')"
    using assms(2) by simp
  show ?thesis
  proof (cases r)
    case (Inl e)
    then show ?thesis
      using replace_failure_frame run tmp_path_neq [OF assms(1), of pid] by (metis insertCI)
  next
    case (Inr u)
    then show ?thesis using replace_success run by fastforce
  qed
qed

theorem desired_write_is_crash_atomic_witness:
  "fs_files (snd (fs_run (take 3 (replace_steps (tmp_path 7 demo_file) demo_file True (desired_text [])))
     demo_fs)) (resolve demo_file) \<in> {fs_files demo_fs (resolve demo_file), Some (desired_text [])}"
  by (rule desired_write_is_crash_atomic [OF _ prod.collapse [symmetric]])
    (simp add: names_file_def demo_file_def)

text \<open>
  The outcome of replacing the desired file: on success it holds the new text and the temporary
  file is gone; on failure no other file than the temporary one differs.
\<close>

theorem desired_write_outcome:
  assumes "names_file path" "desired_write pid path d fs = (r, fs')"
  shows "(is_ok r \<longrightarrow> fs_files fs' = (fs_files fs)(resolve (tmp_path pid path) := None,
        resolve path := Some (desired_text d))) \<and>
    (\<not> is_ok r \<longrightarrow> (\<forall>q. q \<noteq> resolve (tmp_path pid path) \<longrightarrow> fs_files fs' q = fs_files fs q))"
  using assms(2) replace_file_Inr replace_file_Inl unfolding desired_write_def
  by (cases r) (auto simp del: fun_upd_apply)

theorem desired_write_outcome_witness:
  "fs_files (snd (desired_write 7 demo_file [] (demo_fs\<lparr>fs_fault := \<lambda>st. st = Create (tmp_path 7 demo_file)\<rparr>)))
       (resolve demo_file) = fs_files demo_fs (resolve demo_file)"
proof -
  let ?fs = "demo_fs\<lparr>fs_fault := \<lambda>st. st = Create (tmp_path 7 demo_file)\<rparr>"
  have "\<not> is_ok (fst (desired_write 7 demo_file [] ?fs))"
    by (simp add: desired_write_def replace_file_def replace_steps_def fs_do_def sbind_def Let_def demo_fs_def)
  moreover have nf: "names_file demo_file" by (simp add: names_file_def demo_file_def)
  moreover have "resolve demo_file \<noteq> resolve (tmp_path 7 demo_file)"
    using tmp_path_neq [OF nf, of 7] by simp
  ultimately show ?thesis
    using desired_write_outcome [OF nf prod.collapse [symmetric], of 7 "[]" ?fs] by (simp add: demo_fs_def)
qed

text \<open>
  C29: A bulk put that succeeds steers its ports to its slot and changes no other port; one that
  fails has steered a prefix of them and nothing else. This covers the batch path, the fallback
  to single puts, and a failure between them.
\<close>

theorem bulk_put_steers_exactly_its_ports:
  assumes "kernel_map ops view same" "port_layout ops m" "length ports < 2 ^ 32"
    and "bulk_put_ports ops ports slot batch progress m = (r, n)"
  shows "(\<forall>res. r = Inr res \<longrightarrow> bulk_n res = length ports \<and>
      (\<forall>p. port_view ops view n p = (if p \<in> set ports then Some slot else port_view ops view m p))) \<and>
    (\<exists>k \<le> length ports. \<forall>p. port_view ops view n p =
      (if p \<in> set (take k ports) then Some slot else port_view ops view m p))"
  using kernel_map.bulk_put_ports_spec [OF assms(1,4,2,3)] by (auto simp: steer_def)

theorem bulk_put_steers_exactly_its_ports_witness:
  "\<exists>res n. bulk_put_ports (khash_ops True) [18081, 18082] redir_primary 0 False demo_map = (Inr res, n) \<and>
     bulk_n res = 2 \<and> port_view (khash_ops True) kh_view n 18082 = Some redir_primary"
proof -
  obtain res n where n: "bulk_put_ports (khash_ops True) [18081, 18082] redir_primary 0 False demo_map = (Inr res, n)"
    using demo_put by blast
  from bulk_put_steers_exactly_its_ports [OF kernel_map_khash demo_map_roomy(2) _ n] n show ?thesis by simp
qed

text \<open>
  On a map of the main layout that refuses updates only for lack of room, a bulk put succeeds,
  whether the kernel supports batches or not.
\<close>

theorem bulk_put_succeeds:
  assumes "healthy_map ops view same supports_batch"
    and "k_key_size ops m = 2" "k_value_size ops m = 1" "k_max_entries ops m = open_ports_max_entries"
    and "length ports < 2 ^ 32"
  shows "\<exists>res n. bulk_put_ports ops ports slot batch progress m = (Inr res, n)"
proof -
  have "is_ok (fst (bulk_put_ports ops ports slot batch progress m))"
    using assms(2-5) by (intro healthy_map.bulk_put_ports_total [OF assms(1)])
      (simp_all add: roomy_def port_layout_def)
  then show ?thesis by (metis is_ok_iff prod.collapse)
qed

theorem bulk_put_succeeds_witness:
  "\<exists>res n. bulk_put_ports (khash_ops False) [18081, 18082] redir_tls 1 True demo_map = (Inr res, n)"
  by (rule bulk_put_succeeds [OF healthy_map_khash])
    (simp_all add: khash_ops_def demo_map_def open_ports_max_entries_def)

text \<open>
  C30: A bulk delete that succeeds removes its ports and changes no other port; one that fails has
  removed a prefix of them. Keys that are missing do not fail it.
\<close>

theorem bulk_delete_unsteers_exactly_its_ports:
  assumes "kernel_map ops view same" "port_layout ops m" "length ports < 2 ^ 32"
    and "bulk_delete_ports ops ports batch progress m = (r, n)"
  shows "(\<forall>res. r = Inr res \<longrightarrow> bulk_n res = length ports \<and>
      (\<forall>p. port_view ops view n p = (if p \<in> set ports then None else port_view ops view m p))) \<and>
    (\<exists>k \<le> length ports. \<forall>p. port_view ops view n p =
      (if p \<in> set (take k ports) then None else port_view ops view m p))"
  using kernel_map.bulk_delete_ports_spec [OF assms(1,4,2,3)] by (auto simp: unsteer_def)

theorem bulk_delete_unsteers_exactly_its_ports_witness:
  "\<exists>res n. bulk_delete_ports (khash_ops True) [18081, 18082] 0 False demo_map = (Inr res, n) \<and>
     bulk_n res = 2 \<and> port_view (khash_ops True) kh_view n 18082 = None"
proof -
  obtain res n where n: "bulk_delete_ports (khash_ops True) [18081, 18082] 0 False demo_map = (Inr res, n)"
    using demo_delete by blast
  from bulk_delete_unsteers_exactly_its_ports [OF kernel_map_khash demo_map_roomy(2) _ n] n show ?thesis by simp
qed

text \<open>
  A bulk delete succeeds whenever single deletes fail only because the key is missing.
\<close>

theorem bulk_delete_succeeds_on_missing_keys:
  assumes "healthy_map ops view same supports_batch" "port_layout ops m"
  shows "\<exists>res n. bulk_delete_ports ops ports batch progress m = (Inr res, n)"
  using healthy_map.bulk_delete_ports_total [OF assms] by (metis is_ok_iff prod.collapse)

theorem bulk_delete_succeeds_on_missing_keys_witness:
  "\<exists>res n. bulk_delete_ports (khash_ops True) [18081] 0 False demo_map = (Inr res, n)"
  by (rule bulk_delete_succeeds_on_missing_keys [OF healthy_map_khash demo_map_roomy(2)])

text \<open>
  Reading the kernel map returns exactly the steered ports with their slots.
\<close>

theorem read_map_reads_every_port:
  assumes "kernel_map ops view same" "port_layout ops m" "read_map ops m = Inr cur"
  shows "om_wf cur \<and> (\<forall>p. om_get cur p = port_view ops view m p)"
  using kernel_map.read_map_spec [OF assms(1,3,2)] by simp

theorem read_map_reads_every_port_witness:
  "om_wf (om_empty :: (port, slot) omap) \<and>
     (\<forall>p. om_get om_empty p = port_view (khash_ops True) kh_view demo_map p)"
  by (rule read_map_reads_every_port [OF kernel_map_khash demo_map_roomy(2)])
    (simp add: read_map_def khash_ops_def kh_keys_def kh_entries_def demo_map_def)

text \<open>
  A reconcile that succeeds makes the map the desired state; at every point, also when it fails
  midway, each port has its old slot or its desired one.
\<close>

theorem reconcile_makes_the_map_the_desired_state:
  assumes "kernel_map ops view same" "port_layout ops m"
    and "om_wf d" "\<forall>e \<in> set d. slot_ok (snd e)" "reconcile_map ops d m = (r, n)"
  shows "(\<forall>p. port_view ops view n p \<in> {port_view ops view m p, map_option b_slot (om_get d p)}) \<and>
    (is_ok r \<longrightarrow> (\<forall>p. port_view ops view n p = map_option b_slot (om_get d p)))"
  using kernel_map.reconcile_map_spec [OF assms(1,5,2,3,4)] by (auto simp: slot_map_def)

theorem reconcile_makes_the_map_the_desired_state_witness:
  "\<forall>p. port_view (khash_ops True) kh_view (snd (reconcile_map (khash_ops True) demo_desired demo_map)) p
     \<in> {port_view (khash_ops True) kh_view demo_map p, map_option b_slot (om_get demo_desired p)}"
  using reconcile_makes_the_map_the_desired_state [OF kernel_map_khash demo_map_roomy(2) demo_facts(1,3)
      prod.collapse [symmetric], of True] by simp

text \<open>
  The reconcile plan touches exactly the ports whose live slot is not the desired one, applying
  it gives the desired slots, and its three lists are in ascending order.
\<close>

theorem plan_is_exactly_the_difference:
  assumes "om_wf d" "om_wf cur" "\<forall>e \<in> set d. slot_ok (snd e)"
  shows "set (put_primary (plan d cur)) \<union> set (put_tls (plan d cur)) \<union> set (plan_delete (plan d cur))
      = {p. om_get cur p \<noteq> map_option b_slot (om_get d p)} \<and>
    om_get (plan_apply (plan d cur) cur) = (\<lambda>p. map_option b_slot (om_get d p)) \<and>
    sorted_wrt (<) (put_primary (plan d cur)) \<and> sorted_wrt (<) (put_tls (plan d cur)) \<and>
    sorted_wrt (<) (plan_delete (plan d cur))"
  using plan_minimal [OF assms] plan_apply_get [OF assms(1,2,3)] plan_lists [OF assms(1,2)]
  by (simp add: slot_map_def [abs_def])

theorem plan_is_exactly_the_difference_witness:
  "plan_delete (plan demo_desired [(9000, 0), (18081, 0)]) = [9000] \<and>
   {p. om_get [(9000, 0), (18081, 0)] p \<noteq> map_option b_slot (om_get demo_desired p)} = {9000, 18443}"
proof -
  have "om_wf [(9000 :: port, 0 :: slot), (18081, 0)]" by (simp add: om_wf_def)
  note p = plan_is_exactly_the_difference [OF demo_facts(1) this demo_facts(3)]
  have "plan demo_desired [(9000, 0), (18081, 0)] =
      \<lparr>put_primary = [], put_tls = [18443], plan_delete = [9000]\<rparr>"
    by (simp add: plan_def demo_desired_def demo_binding_def seed_binding_def needs_put_def om_get_def
        om_keys_def redir_primary_def redir_tls_def)
  then show ?thesis using conjunct1 [OF p] by auto
qed

text \<open>
  Reconciling again does nothing: against a map that already is the desired state the plan is empty.
\<close>

theorem plan_of_the_desired_state_is_empty:
  assumes "om_wf d" "\<forall>e \<in> set d. slot_ok (snd e)" "\<forall>p. om_get cur p = map_option b_slot (om_get d p)"
  shows "plan d cur = \<lparr>put_primary = [], put_tls = [], plan_delete = []\<rparr>"
  using assms by (intro plan_idempotent) (auto simp: slot_map_def fun_eq_iff)

theorem plan_of_the_desired_state_is_empty_witness:
  "plan demo_desired [(18081, 0), (18443, 1)] = \<lparr>put_primary = [], put_tls = [], plan_delete = []\<rparr>"
  by (rule plan_of_the_desired_state_is_empty [OF demo_facts(1,3)])
    (simp add: demo_desired_def demo_binding_def seed_binding_def om_get_def redir_primary_def redir_tls_def)

text \<open>
  C31: The fate of every connection: a TCP connection to an open port is steered to the socket of its
  slot or dropped, and never falls through to the ordinary listeners; every other one does.
\<close>

theorem dispatch_steers_or_fails_closed:
  "fate (dispatch h ctx) =
     (if sk_protocol ctx \<noteq> 6 then Ordinary
      else case helper_slots h (ucast (local_port ctx)) of
          None \<Rightarrow> Ordinary
        | Some s \<Rightarrow>
            if s > 1 then Dropped
            else (case helper_socks h s of
                None \<Rightarrow> Dropped
              | Some sk \<Rightarrow> if h_assign h ctx sk = 0 then Steered sk else Dropped))"
  by (simp add: dispatch_fate steering_fate_def ipproto_tcp_def)

text \<open>
  The program releases every socket it looked up, once, after its last use.
\<close>

theorem dispatch_balances_references:
  "refs_ok [] (snd (dispatch h ctx)) \<and> acquired (snd (dispatch h ctx)) = released (snd (dispatch h ctx))"
  using dispatch_refs by (auto simp: dispatch_def Let_def split: option.splits)

text \<open>
  The C program and the Rust program make the same helper calls and return the same verdict.
\<close>

theorem c_program_equals_rust_program: "dispatch_c h ctx = dispatch h ctx"
  by (rule dispatch_c_eq)

text \<open>
  C1: A connection to a port that a bulk put added is steered by the kernel program to the socket
  registered for its slot.
\<close>

theorem added_ports_are_steered:
  assumes "kernel_map ops view same" "port_layout ops m" "length ports < 2 ^ 32"
    and "bulk_put_ports ops ports slot batch progress m = (Inr res, n)"
    and "h_le h = k_le ops" "h_open_ports h = view n"
    and "sk_protocol ctx = 6" "ucast (local_port ctx) \<in> set ports"
    and "slot = redir_primary \<or> slot = redir_tls" "helper_socks h slot = Some sk" "h_assign h ctx sk = 0"
  shows "fate (dispatch h ctx) = Steered sk"
proof -
  have "port_view ops view n (ucast (local_port ctx)) = Some slot"
    using kernel_map.bulk_put_ports_spec [OF assms(1,4,2,3)] assms(8) by (auto simp: steer_def)
  then have "helper_slots h (ucast (local_port ctx)) = Some slot"
    using assms(5,6) by (simp add: helper_slots_def port_view_def)
  moreover have "\<not> slot > 1" using assms(9) by (auto simp: redir_primary_def redir_tls_def)
  ultimately show ?thesis
    using assms(7,10,11) by (simp add: dispatch_fate steering_fate_def ipproto_tcp_def)
qed

theorem added_ports_are_steered_witness:
  "\<exists>res n. bulk_put_ports (khash_ops True) [18081, 18082] redir_primary 0 False demo_map = (Inr res, n) \<and>
     fate (dispatch (demo_helpers (kh_view n)) demo_ctx) = Steered ''listen''"
proof -
  obtain res n where n: "bulk_put_ports (khash_ops True) [18081, 18082] redir_primary 0 False demo_map = (Inr res, n)"
    using demo_put by blast
  have "fate (dispatch (demo_helpers (kh_view n)) demo_ctx) = Steered ''listen''"
    by (rule added_ports_are_steered [OF kernel_map_khash demo_map_roomy(2) _ n])
      (simp_all add: demo_helpers_def khash_ops_def demo_ctx_def helper_socks_def u32_bytes_def redir_primary_def)
  with n show ?thesis by blast
qed

text \<open>
  Writing the central desired state and loading it gives the same state, if the JSON library
  reads back what it printed.
\<close>

theorem central_state_round_trip:
  assumes "central_write print_json path d fs = (Inr (), fs')"
    and "parse_json (print_json \<lparr>c_version = 1, c_ports = map central_entry d\<rparr>) =
      Some \<lparr>c_version = 1, c_ports = map central_entry d\<rparr>"
    and "om_wf d" "\<forall>(p, b) \<in> set d. p \<noteq> 0 \<and> slot_ok b" "length d \<le> open_ports_max_entries"
    and "\<not> fs_unreadable fs (resolve path)"
  shows "central_load parse_json path fs' = Inr d"
proof -
  have "central_load_from_str parse_json (print_json \<lparr>c_version = 1, c_ports = map central_entry d\<rparr>) = Inr d"
    by (rule central_round_trip, rule assms(2)) (use assms(3-5) in \<open>auto simp: central_inv_def\<close>)
  then show ?thesis
    using central_write_success [OF assms(1)] assms(6) by (simp add: central_load_def fs_read_def)
qed

theorem central_state_round_trip_witness:
  "central_load demo_parse [''c.json''] (snd (central_write (\<lambda>_. ''state'') [''c.json''] demo_desired demo_fs))
     = Inr demo_desired"
proof (rule central_state_round_trip)
  show "central_write (\<lambda>_. ''state'') [''c.json''] demo_desired demo_fs =
      (Inr (), snd (central_write (\<lambda>_. ''state'') [''c.json''] demo_desired demo_fs))"
    by (simp add: central_write_def path_parent_def fs_write_steps_def sbind_def act_simps fs_do_def
        demo_fs_def Let_def resolve_def)
  show "demo_parse ''state'' = Some \<lparr>c_version = 1, c_ports = map central_entry demo_desired\<rparr>"
    by (simp add: demo_parse_def demo_central_def)
  show "\<forall>(p, b) \<in> set demo_desired. p \<noteq> 0 \<and> slot_ok b" "length demo_desired \<le> open_ports_max_entries"
    by (auto simp: demo_desired_def open_ports_max_entries_def demo_binding_def seed_binding_def slot_ok_def
        redir_primary_def redir_tls_def)
qed (simp_all add: demo_fs_def)

text \<open>
  Materializing the central state writes the local file only with a state the policy admits; on
  any error the local file is as it was.
\<close>

theorem central_apply_writes_only_valid_states:
  assumes "apply_cache parse_json pid central_path ports_file policy_file fs = (r, fs')"
    and "names_file ports_file"
  shows "case r of
      Inr d \<Rightarrow> \<exists>pol. policy_load policy_file fs = Inr pol \<and> admissible pol d \<and>
        fs_files fs' (resolve ports_file) = Some (desired_text d)
    | Inl e \<Rightarrow> fs_files fs' (resolve ports_file) = fs_files fs (resolve ports_file)"
proof (cases r)
  case (Inr d)
  with assms(1) show ?thesis by (auto dest!: apply_cache_Inr)
next
  case (Inl e)
  with assms show ?thesis
    using apply_cache_Inl [of parse_json pid central_path ports_file policy_file fs e fs'
        "resolve ports_file"] tmp_path_neq [OF assms(2), of pid] by auto
qed

theorem central_apply_writes_only_valid_states_witness:
  "case fst (apply_cache demo_parse 7 [''c.json''] demo_file demo_policy_file
       (demo_fs\<lparr>fs_files := [[''c.json''] \<mapsto> ''state'']\<rparr>)) of
      Inr d \<Rightarrow> \<exists>pol. policy_load demo_policy_file (demo_fs\<lparr>fs_files := [[''c.json''] \<mapsto> ''state'']\<rparr>) = Inr pol \<and>
        admissible pol d \<and> fs_files (snd (apply_cache demo_parse 7 [''c.json''] demo_file demo_policy_file
       (demo_fs\<lparr>fs_files := [[''c.json''] \<mapsto> ''state'']\<rparr>))) (resolve demo_file) = Some (desired_text d)
    | Inl e \<Rightarrow> fs_files (snd (apply_cache demo_parse 7 [''c.json''] demo_file demo_policy_file
       (demo_fs\<lparr>fs_files := [[''c.json''] \<mapsto> ''state'']\<rparr>))) (resolve demo_file) =
        fs_files (demo_fs\<lparr>fs_files := [[''c.json''] \<mapsto> ''state'']\<rparr>) (resolve demo_file)"
  by (rule central_apply_writes_only_valid_states [OF prod.collapse [symmetric]])
    (simp add: names_file_def demo_file_def)

text \<open>
  The fill returns exactly the first ports from its start upwards that are not skipped, and
  never wraps around to port 0.
\<close>

theorem fill_is_the_first_free_ports:
  "generate_fill_ports start count skip = Inr ps \<longleftrightarrow>
     count \<noteq> 0 \<and> start \<noteq> 0 \<and> length ps = count \<and> sorted_wrt (<) ps \<and>
     set ps \<subseteq> {q. start \<le> q} - skip \<and> (\<forall>q \<in> {q. start \<le> q} - skip - set ps. \<forall>p \<in> set ps. p < q)"
proof
  assume "generate_fill_ports start count skip = Inr ps"
  then have c: "count \<noteq> 0" "start \<noteq> 0" "count \<le> length (fill_candidates start skip)"
    "ps = take count (fill_candidates start skip)"
    by (auto simp: generate_fill_ports_eq Let_def split: if_splits)
  define rest where "rest = drop count (fill_candidates start skip)"
  have "sorted_wrt (<) (ps @ rest)" unfolding c(4) rest_def using sorted_fill_candidates by simp
  moreover have "set (ps @ rest) = {q. start \<le> q} - skip"
    unfolding c(4) rest_def using set_fill_candidates by simp
  ultimately show "count \<noteq> 0 \<and> start \<noteq> 0 \<and> length ps = count \<and> sorted_wrt (<) ps \<and>
     set ps \<subseteq> {q. start \<le> q} - skip \<and> (\<forall>q \<in> {q. start \<le> q} - skip - set ps. \<forall>p \<in> set ps. p < q)"
    using c by (auto simp: sorted_wrt_append)
next
  assume r: "count \<noteq> 0 \<and> start \<noteq> 0 \<and> length ps = count \<and> sorted_wrt (<) ps \<and>
     set ps \<subseteq> {q. start \<le> q} - skip \<and> (\<forall>q \<in> {q. start \<le> q} - skip - set ps. \<forall>p \<in> set ps. p < q)"
  have ps: "ps = take count (fill_candidates start skip)"
  proof -
    have "ps = take (length ps) (fill_candidates start skip)"
      by (rule sorted_prefix) (use r sorted_fill_candidates in \<open>simp_all add: set_fill_candidates\<close>)
    then show ?thesis using r by simp
  qed
  moreover have "length ps \<le> 65536" using r by (intro length_distinct_ports) (simp add: strict_sorted_iff)
  moreover have "count \<le> length (fill_candidates start skip)" using ps r by (metis length_take min_def nle_le)
  ultimately show "generate_fill_ports start count skip = Inr ps"
    using r by (auto simp: generate_fill_ports_eq Let_def open_ports_max_entries_def)
qed

theorem fill_is_the_first_free_ports_witness:
  "generate_fill_ports 8079 3 {8080} = Inr [8079, 8081, 8082] \<and>
   generate_fill_ports 65535 2 {} \<noteq> Inr [65535, 0]"
proof
  have "\<forall>q \<in> {q. 8079 \<le> q} - {8080} - set [8079, 8081, 8082 :: port]. \<forall>p \<in> set [8079, 8081, 8082]. p < q"
    using fill_demo_gap by simp
  then show "generate_fill_ports 8079 3 {8080} = Inr [8079, 8081, 8082]"
    unfolding fill_is_the_first_free_ports by simp
  show "generate_fill_ports 65535 2 {} \<noteq> Inr [65535, 0]"
    unfolding fill_is_the_first_free_ports by simp
qed

text \<open>
  The text of a range is parsed to the ports of the closed interval in ascending order, up to and
  including 65535; a reversed range is an error.
\<close>

theorem port_range_denotes_its_interval:
  assumes "a \<noteq> 0" "b \<noteq> 0"
  shows "parse_port_range (show_port a @ ''-'' @ show_port b) =
    (if b < a then Inl (PortE (RangeReversed (show_port a @ ''-'' @ show_port b)))
     else Inr (map of_nat [unat a ..< Suc (unat b)]))"
proof -
  let ?s = "show_port a @ ''-'' @ show_port b"
  have ws: "\<not> is_whitespace CHR ''-''" by (simp add: is_whitespace_def)
  have t: "trim ?s = ?s" using show_port_no_ws [of a] show_port_no_ws [of b] ws by (intro trim_no_ws) auto
  have s: "split_once CHR ''-'' ?s = Some (show_port a, show_port b)"
    using split_once_append [OF show_port_no_dash] by simp
  have "show_port p \<noteq> []" for p by (simp add: show_port_def)
  then show ?thesis
    unfolding parse_port_range_def t s
    using assms show_port_no_dash [of b]
    by (cases "b < a") (simp_all add: parse_port_number_show range_loop_upt del: upt_Suc)
qed

theorem port_range_denotes_its_interval_witness:
  "parse_port_range ''5000-5002'' = Inr [5000, 5001, 5002]"
proof -
  have s: "show_port 5000 = ''5000''" "show_port 5002 = ''5002''" 
    by (simp_all add: show_port_def show_nat.simps digit_char_def char_of_eq_iff)
  show ?thesis
    using port_range_denotes_its_interval [of 5000 5002] unfolding s by (simp add: upt_rec)
qed

text \<open>
  C33: The ports collected from all sources of a command are distinct, not empty, without port 0,
  and at most 65535 of them.
\<close>

theorem collected_ports_are_distinct_and_valid:
  assumes "collect_bulk_ports read stdin range_spec file_path from_stdin extra = Inr ps"
  shows "ps \<noteq> [] \<and> distinct ps \<and> 0 \<notin> set ps \<and> length ps \<le> 65535"
proof -
  obtain o1 o2 o3 out where
    o1: "(case range_spec of Some r \<Rightarrow> if r = [] then Inr [] else parse_port_range r | None \<Rightarrow> Inr []) = Inr o1"
    and o2: "(case file_path of Some f \<Rightarrow> if f = [] then Inr []
         else rbind (read f) (\<lambda>text. with_context (InFileName f) (load_ports_from_reader text))
       | None \<Rightarrow> Inr []) = Inr o2"
    and o3: "(if from_stdin then with_context InStdin (load_ports_from_reader stdin) else Inr []) = Inr o3"
    and out: "rfold (\<lambda>a out. rbind (parse_port_list_flexible a) (\<lambda>ps. Inr (out @ ps))) extra (o1 @ o2 @ o3) = Inr out"
    and ps: "ps = unique_ports out" "ps \<noteq> []"
    using assms by (auto simp: collect_bulk_ports_def Let_def split: if_splits)
  have "0 \<notin> set o1"
    using o1 by (auto split: option.splits if_splits elim!: parse_port_range_Inr simp: range_loop_set word_le_0_iff)
  moreover have "0 \<notin> set o2"
    using o2 by (auto split: option.splits if_splits dest!: load_ports_from_reader_nonzero)
  moreover have "0 \<notin> set o3"
    using o3 by (auto split: if_splits dest!: load_ports_from_reader_nonzero)
  ultimately have "0 \<notin> set out"
    by (intro rfold_invariant [OF out, where I = "\<lambda>out. 0 \<notin> set out"])
      (auto dest: parse_port_list_flexible_nonzero)
  then have z: "0 \<notin> set ps" by (simp add: ps(1))
  have d: "distinct ps" by (simp add: ps(1))
  have "length (0 # ps) \<le> 65536" by (rule length_distinct_ports) (use d z in simp)
  with ps d z show ?thesis by simp
qed

theorem collected_ports_are_distinct_and_valid_witness:
  "[9000, 80 :: port] \<noteq> [] \<and> distinct [9000, 80 :: port] \<and> 0 \<notin> set [9000, 80 :: port] \<and> length [9000, 80 :: port] \<le> 65535"
proof (rule collected_ports_are_distinct_and_valid)
  show "collect_bulk_ports (\<lambda>_. Inl (PortE NoPorts)) [] None None False [''9000'', ''80,9000''] = Inr [9000, 80]"
    by (simp add: collect_bulk_ports_def parse_port_list_flexible_def split_on_def parse_port_token_def
        parse_port_number_def trim_def trim_start_def trim_end_matches_def is_whitespace_def parse_uint_def
        strip_plus_def u64_max_def u16_max_def digit_value_def unique_ports_def open_ports_max_entries_def)
qed

text \<open>
  Removing duplicates keeps the first occurrence of each port, in order.
\<close>

theorem unique_ports_keeps_first_occurrences: "unique_ports ps = rev (remdups (rev ps))"
  by (rule unique_ports_remdups)

text \<open>
  The freeze gate refuses every gated operation from when it is set until it is cleared.
\<close>

theorem freeze_gate_blocks_until_cleared:
  assumes "set_frozen path fs = (Inr (), fs1)" "clear_frozen path fs1 = (Inr (), fs2)"
  shows "reject_if_frozen path op tenant site ports fs1 = Inl (CtlE (Frozen op tenant site (ports_text ports))) \<and>
    reject_if_frozen path op tenant site ports fs2 = Inr ()"
  using set_frozen_frozen [OF assms(1)] clear_frozen_clears [OF assms(2)]
  by (simp add: reject_if_frozen_def)

theorem freeze_gate_blocks_until_cleared_witness:
  "reject_if_frozen [''f''] ''add'' ''demo'' ''local'' [18081] (snd (set_frozen [''f''] demo_fs))
     = Inl (CtlE (Frozen ''add'' ''demo'' ''local'' (ports_text [18081])))"
proof (rule freeze_gate_blocks_until_cleared [THEN conjunct1])
  show "set_frozen [''f''] demo_fs = (Inr (), snd (set_frozen [''f''] demo_fs))"
    by (simp add: set_frozen_def act_simps sbind_def fs_do_def demo_fs_def)
  show "clear_frozen [''f''] (snd (set_frozen [''f''] demo_fs)) =
      (Inr (), snd (clear_frozen [''f''] (snd (set_frozen [''f''] demo_fs))))"
    by (simp add: clear_frozen_def set_frozen_def act_simps sbind_def fs_do_def demo_fs_def)
qed

text \<open>
  The failure counter grows by one each time and stops at the largest value instead of wrapping.
\<close>

theorem failure_counter_counts:
  assumes "\<And>st. \<not> fs_fault fs st" "\<not> fs_unreadable fs (resolve path)"
  shows "metrics_read path (metrics_increment path fs) = min (metrics_read path fs + 1) 18446744073709551615"
  using metrics_increment_read [OF assms] by (simp add: u64_max_def)

theorem failure_counter_counts_witness:
  "metrics_read [''m''] (metrics_increment [''m''] demo_fs) = min (metrics_read [''m''] demo_fs + 1) 18446744073709551615"
  by (rule failure_counter_counts) (simp_all add: demo_fs_def)

text \<open>
  The capacity snapshot clamps at the capacity, entries and headroom add up to it, and the
  pressure is between 0 and 1.
\<close>

theorem capacity_snapshot_adds_up:
  "cap_entries (capacity_snapshot n) = min n 131072 \<and>
   cap_entries (capacity_snapshot n) + cap_headroom (capacity_snapshot n) = 131072 \<and>
   0 \<le> cap_pressure (capacity_snapshot n) \<and> cap_pressure (capacity_snapshot n) \<le> 1"
  using capacity_snapshot_sound [of n] by (simp add: open_ports_max_entries_def)

text \<open>
  C6: From agreement of the desired file with the live map, an add that also writes the file and succeeds, of a
  binding for slot 0 or 1 with no comment sign in its identities, ends in agreement: the file loads and the map
  steers exactly what it says. So does every remove that also writes the file and succeeds.
\<close>

theorem add_and_remove_keep_agreement:
  assumes "kernel_map ops view same" "agree ops view pin_dir ports_file policy_file w"
    and "files_apart ports_file policy_file (w_pid w)" "length ports < 2 ^ 32"
  shows "(case apply_add ops pin_dir ports_file policy_file ports binding batch progress summ True conf metrics w of
        (Inr _, w') \<Rightarrow> hash_free binding \<and> slot_ok binding \<longrightarrow> agree ops view pin_dir ports_file policy_file w'
      | (Inl _, _) \<Rightarrow> True) \<and>
    (case apply_remove ops pin_dir ports_file policy_file ports batch progress summ True w of
        (Inr _, w') \<Rightarrow> agree ops view pin_dir ports_file policy_file w' | (Inl _, _) \<Rightarrow> True)"
  using apply_add_agree [OF assms(1,2)] apply_remove_agree [OF assms(1,2)] assms(3,4)
  by (simp split: prod.splits sum.splits)

theorem add_and_remove_keep_agreement_witness:
  "\<exists>out w'. apply_add (khash_ops True) demo_pin demo_ports demo_policy [18082] demo_binding 0 False False True
     demo_conf demo_metrics demo_world = (Inr out, w') \<and> agree (khash_ops True) kh_view demo_pin demo_ports demo_policy w'"
proof -
  obtain out w' where run: "apply_add (khash_ops True) demo_pin demo_ports demo_policy [18082] demo_binding 0 False False True
     demo_conf demo_metrics demo_world = (Inr out, w')" using demo_add_runs by blast
  have len: "length [18082 :: port] < 2 ^ 32" by simp
  have ap: "files_apart demo_ports demo_policy (w_pid demo_world)" using demo_apart by simp
  from add_and_remove_keep_agreement [OF kernel_map_khash demo_agree ap len, of demo_binding 0 False False demo_conf demo_metrics]
  show ?thesis using run by (auto simp del: demo_paths)
qed

text \<open>
  C17: A failing add either changed neither the desired file nor the map, or everything it checks was
  in order: then the file has its whole new text and the error is that of the batched put.
\<close>

theorem failed_add_changes_nothing_or_stops_in_the_puts:
  assumes "apply_add ops pin_dir ports_file policy_file ports binding batch progress summ sync conf metrics w = (Inl e, w')"
    and "resolve metrics \<noteq> resolve ports_file" "names_file ports_file"
  shows "(fs_files (w_fs w') (resolve ports_file) = fs_files (w_fs w) (resolve ports_file) \<and> w_pins w' = w_pins w) \<or>
    (\<exists>d0 pol m n. desired_or_empty ports_file policy_file (w_fs w) = Inr d0 \<and> policy_load policy_file (w_fs w) = Inr pol \<and>
       admissible pol (om_insert_all ports binding d0) \<and>
       fs_files (w_fs w') (resolve ports_file) =
         (if sync then Some (desired_text (om_insert_all ports binding d0)) else fs_files (w_fs w) (resolve ports_file)) \<and>
       w_pins w (open_ports_path pin_dir) = Some m \<and>
       bulk_put_ports ops ports (b_slot binding) batch progress m = (Inl e, n) \<and>
       w_pins w' = (w_pins w)(open_ports_path pin_dir := Some n))"
  using assms by (rule apply_add_Inl)

theorem failed_add_changes_nothing_or_stops_in_the_puts_witness:
  "\<exists>e w'. apply_add (khash_ops True) [''/'', ''none''] demo_ports demo_policy [18082] demo_binding 0 False False True
     demo_conf demo_metrics demo_world = (Inl e, w') \<and>
     fs_files (w_fs w') (resolve demo_ports) = Some (desired_text demo_desired) \<and> w_pins w' = w_pins demo_world"
proof -
  let ?run = "apply_add (khash_ops True) [''/'', ''none''] demo_ports demo_policy [18082] demo_binding 0 False False True
     demo_conf demo_metrics demo_world"
  have none: "w_pins demo_world (open_ports_path [''/'', ''none'']) = None"
    by (simp add: demo_world_def open_ports_path_def pin_dir_of_def get_or_def path_of_def starts_with_def split_on_def)
  obtain r w' where run: "?run = (r, w')" by fastforce
  moreover have "\<not> is_ok r"
  proof
    assume "is_ok r"
    then obtain out where "?run = (Inr out, w')" using run by (auto simp: is_ok_iff)
    then show False by (rule apply_add_Inr) (use none in simp)
  qed
  ultimately obtain e where e: "?run = (Inl e, w')" by (cases r) auto
  have apart: "resolve demo_metrics \<noteq> resolve demo_ports" "names_file demo_ports"
    by (simp_all add: metrics_file_of_def get_or_def path_of_def starts_with_def split_on_def resolve_def names_file_def)
  from failed_add_changes_nothing_or_stops_in_the_puts [OF e apart] e none show ?thesis
    by (auto simp: demo_world_def resolve_def)
qed

text \<open>
  C7: Reconcile makes the map what the desired file says; stopped at any point it leaves every port at
  its old or its desired slot, and it never writes a file but the failure counter.
\<close>

theorem reconcile_command_converges:
  assumes "kernel_map ops view same"
    and "reconcile_with ops pin_dir ports_file policy_file conf metrics batch progress w = (r, w')"
    and "w_pins w (open_ports_path pin_dir) = Some m" "port_layout ops m"
  shows "\<exists>n. w_pins w' = (w_pins w)(open_ports_path pin_dir := Some n) \<and>
    (w_fs w' = w_fs w \<or> w_fs w' = metrics_increment metrics (w_fs w)) \<and>
    (n = m \<and> \<not> is_ok r \<or> (\<exists>d. load_with_policy ports_file policy_file (w_fs w) = Inr d \<and>
      (\<forall>p. port_view ops view n p \<in> {port_view ops view m p, slot_map d p}) \<and>
      (is_ok r \<longrightarrow> port_view ops view n = slot_map d \<and> w_fs w' = w_fs w)))"
  using reconcile_with_spec [OF assms] by blast

theorem reconcile_command_converges_witness:
  "\<exists>out w' n. reconcile_with (khash_ops True) demo_pin demo_ports demo_policy demo_conf demo_metrics None False demo_world
     = (Inr out, w') \<and> w_pins w' (open_ports_path demo_pin) = Some n \<and>
     port_view (khash_ops True) kh_view n = slot_map demo_desired"
proof -
  obtain out w' where run: "reconcile_with (khash_ops True) demo_pin demo_ports demo_policy demo_conf demo_metrics None False
     demo_world = (Inr out, w')" using demo_reconcile_runs by blast
  from reconcile_command_converges [OF kernel_map_khash run demo_world_simps(1) demo_roomy(2)]
  obtain n where "w_pins w' (open_ports_path demo_pin) = Some n" "port_view (khash_ops True) kh_view n = slot_map demo_desired"
    by (auto simp del: demo_paths)
  then show ?thesis using run by blast
qed

text \<open>
  C34: The reconcile command returns its counts, and then file and map agree, when its flags parse and do not ask
  for help, the machine is not frozen, the desired file loads, the nginx listens can be read and are disjoint from
  the desired and the live ports, the batch size is valid, and the pinned map fails only for lack of room.
\<close>

theorem reconcile_command_succeeds:
  assumes "healthy_map ops view same batch"
    and "parse_go_flags args reconcile_bools reconcile_vals = Inr f" "\<not> bool_flag f ''help''"
    and "\<not> is_frozen (freeze_file_of f) (w_fs w)"
    and "load_with_policy (ports_file_of f) (policy_file_of f) (w_fs w) = Inr d" "real_ports (nginx_conf_of f) w = Inr reals"
    and "w_pins w (open_ports_path (pin_dir_of f)) = Some m" "roomy ops m"
    and "reals \<inter> (dom (om_get d) \<union> dom (port_view ops view m)) = {}" "parse_batch (flag_get f ''batch'') = Inr bt"
  shows "\<exists>counts w'. ctl_reconcile ops args w = (Inr (Some counts), w') \<and>
    agree ops view (pin_dir_of f) (ports_file_of f) (policy_file_of f) w'"
proof -
  obtain counts w' where run: "reconcile_with ops (pin_dir_of f) (ports_file_of f) (policy_file_of f) (nginx_conf_of f)
      (metrics_file_of f) (flag_get f ''batch'') (\<not> bool_flag f ''quiet'') w = (Inr counts, w')"
    using reconcile_with_total [OF assms(1,5,6,7,8,9,10)] by blast
  have "reject_frozen f op t s ps w = Inr ()" for op t s ps using assms(4) reject_frozen_Inr [of f op t s ps w "()"] by simp
  then have "ctl_reconcile ops args w = (Inr (Some counts), w')"
    by (simp add: ctl_reconcile_def with_flags_run [OF assms(2,3)] sbind_def getr_def run ret_def)
  with reconcile_with_agree [OF healthy_map.axioms(1) [OF assms(1)] run assms(7) healthy_map.roomy_layout [OF assms(1,8)]]
  show ?thesis by blast
qed

theorem reconcile_command_succeeds_witness:
  "\<exists>counts w'. ctl_reconcile (khash_ops True) [] demo_world = (Inr (Some counts), w') \<and>
     agree (khash_ops True) kh_view demo_pin demo_ports demo_policy w'"
proof (rule reconcile_command_succeeds [OF healthy_map_khash _ _ _ demo_world_load(1) demo_world_simps(2) demo_world_simps(1)
        demo_roomy(1)])
  show "parse_go_flags [] reconcile_bools reconcile_vals = Inr no_flags" by (simp add: parse_go_flags_def)
  show "\<not> is_frozen (freeze_file_of no_flags) (w_fs demo_world)" by (simp add: demo_freeze is_frozen_def fs_exists_def demo_world_def resolve_def)
qed (use demo_free in \<open>auto simp: parse_batch_def bool_flag_def\<close>)

text \<open>
  C8: A successful apply-central ran on an unfrozen machine, left the text of the central state in the
  desired file, and the live map agrees with that file.
\<close>

theorem apply_central_installs_the_central_state:
  assumes "kernel_map ops view same"
    and "ctl_apply_central parse_json ops args w = (Inr (Some ()), w')"
    and "parse_go_flags args central_bools central_vals = Inr f"
    and "w_pins w (open_ports_path (pin_dir_of f)) = Some m" "port_layout ops m"
    and "resolve (apply_stamp_of f) \<notin> {resolve (ports_file_of f), resolve (policy_file_of f)}"
  shows "\<not> is_frozen (freeze_file_of f) (w_fs w) \<and>
    (\<exists>d. central_load parse_json (central_source f) (w_fs w) = Inr d \<and>
       fs_files (w_fs w') (resolve (ports_file_of f)) = Some (desired_text d)) \<and>
    agree ops view (pin_dir_of f) (ports_file_of f) (policy_file_of f) w'"
  using assms by (rule apply_central_agree)

theorem apply_central_installs_the_central_state_witness:
  "\<exists>w'. ctl_apply_central demo_parse (khash_ops True) [] demo_world = (Inr (Some ()), w') \<and>
     fs_files (w_fs w') (resolve demo_ports) = Some (desired_text demo_desired) \<and>
     agree (khash_ops True) kh_view demo_pin demo_ports demo_policy w'"
proof -
  have f: "parse_go_flags [] central_bools central_vals = Inr no_flags" by (simp add: parse_go_flags_def)
  have src: "central_source no_flags = [''central'', ''desired-state.json'']"
    by (simp add: central_source_def get_or_def path_of_def split_on_def starts_with_def)
  have nz: "\<forall>e \<in> set demo_desired. fst e \<noteq> 0 \<and> slot_ok (snd e)" "length demo_desired = 2"
    using demo_facts(3) by (simp_all add: demo_desired_def)
  have "rfold insert_central (map central_entry demo_desired) om_empty = Inr demo_desired"
    using rfold_insert_central_entries [of "[]" demo_desired] nz by (simp add: om_empty_def)
  then have load: "central_load demo_parse (central_source no_flags) (w_fs demo_world) = Inr demo_desired"
    by (simp add: central_load_def src fs_read_def demo_world_def resolve_def central_load_from_str_def demo_parse_def
        demo_central_def nz open_ports_max_entries_def)
  have apart: "freeze_file_of no_flags = [''/'', ''run'', ''waf-sklookup'', ''frozen'']"
    "apply_stamp_of no_flags = [''/'', ''run'', ''waf-sklookup'', ''last-apply-central'']"
    by (simp_all add: freeze_file_of_def apply_stamp_of_def get_or_def path_of_def split_on_def starts_with_def resolve_def)
  have "\<exists>w'. ctl_apply_central demo_parse (khash_ops True) [] demo_world = (Inr (Some ()), w')"
  proof (rule apply_central_total [OF healthy_map_khash f _ _ _ load demo_world_load(2) demo_admissible(1) _ demo_facts(1)
        demo_world_simps(2) _ demo_world_simps(1) demo_roomy(1) demo_world_simps(3)])
    show "\<forall>e \<in> set demo_desired. storable e" using demo_facts by (simp add: storable_def)
    show "files_apart demo_ports demo_policy (w_pid demo_world)" using demo_apart by simp
    show "inner_real_ports \<inter> (dom (om_get demo_desired) \<union> dom (kh.ports_of True demo_live)) = {}" using demo_free by auto
  qed (simp_all add: bool_flag_def is_frozen_def fs_exists_def parse_batch_def demo_world_def apart resolve_def
      tmp_path_def parent_or_dot_def path_parent_def path_file_name_def)
  then obtain w' where run: "ctl_apply_central demo_parse (khash_ops True) [] demo_world = (Inr (Some ()), w')" by blast
  from apply_central_installs_the_central_state [OF kernel_map_khash run f demo_world_simps(1) demo_roomy(2)] load run
  show ?thesis by (auto simp: apart resolve_def simp del: demo_paths) (simp_all add: resolve_def)
qed

text \<open>
  C16: On a frozen machine every gated command ends in an error and changes nothing at all.
\<close>

theorem frozen_machine_refuses_to_open:
  assumes "is_frozen (freeze_file_of f) (w_fs w)" "\<not> bool_flag f ''help''"
  shows "(parse_go_flags args add_bools add_vals = Inr f \<longrightarrow> (\<exists>e. ctl_add ops args w = (Inl e, w))) \<and>
    (parse_go_flags args bulk_add_bools bulk_add_vals = Inr f \<longrightarrow> (\<exists>e. ctl_bulk_add ops args w = (Inl e, w))) \<and>
    (parse_go_flags args bulk_remove_bools bulk_remove_vals = Inr f \<longrightarrow> (\<exists>e. ctl_bulk_remove ops args w = (Inl e, w))) \<and>
    (parse_go_flags args fill_bools fill_vals = Inr f \<longrightarrow> (\<exists>e. ctl_bulk_fill ops args w = (Inl e, w))) \<and>
    (parse_go_flags args reconcile_bools reconcile_vals = Inr f \<longrightarrow> (\<exists>e. ctl_reconcile ops args w = (Inl e, w))) \<and>
    (parse_go_flags args central_bools central_vals = Inr f \<longrightarrow> (\<exists>e. ctl_apply_central parse_json ops args w = (Inl e, w))) \<and>
    (parse_go_flags args import_bools import_vals = Inr f \<longrightarrow> (\<exists>e. ctl_import_listens print_json args w = (Inl e, w)))"
  using frozen_add [OF assms] frozen_bulk_add [OF assms] frozen_bulk_remove [OF assms] frozen_fill [OF assms]
    frozen_reconcile [OF assms] frozen_central [OF assms] frozen_import [OF assms]
  by (simp add: stuck_def)

theorem frozen_machine_refuses_to_open_witness:
  "\<exists>e. ctl_reconcile (khash_ops True) [] (demo_world\<lparr>w_fs := \<lparr>fs_files = [resolve (freeze_file_of no_flags) \<mapsto> ''frozen''],
       fs_unreadable = (\<lambda>_. False), fs_fault = (\<lambda>_. False)\<rparr>\<rparr>) =
     (Inl e, demo_world\<lparr>w_fs := \<lparr>fs_files = [resolve (freeze_file_of no_flags) \<mapsto> ''frozen''],
       fs_unreadable = (\<lambda>_. False), fs_fault = (\<lambda>_. False)\<rparr>\<rparr>)"
proof -
  let ?w = "demo_world\<lparr>w_fs := \<lparr>fs_files = [resolve (freeze_file_of no_flags) \<mapsto> ''frozen''],
       fs_unreadable = (\<lambda>_. False), fs_fault = (\<lambda>_. False)\<rparr>\<rparr>"
  have "is_frozen (freeze_file_of no_flags) (w_fs ?w)" by (simp add: is_frozen_def fs_exists_def)
  from frozen_machine_refuses_to_open [OF this, of "[]" "khash_ops True"] show ?thesis
    by (simp add: parse_go_flags_def bool_flag_def)
qed

text \<open>
  C35: For a readable map, the status report says that file and map agree exactly when they do; its put count is
  the number of desired ports whose live slot is not the desired one, and its delete count that of the live
  ports that are not desired.
\<close>

theorem status_tells_the_drift:
  assumes "kernel_map ops view same"
    and "status_value_with_stamp ops conf ports_file policy_file pin_dir freeze_file metrics stamp w = Inr st"
    and "w_pins w (open_ports_path pin_dir) = Some m" "port_layout ops m" "read_map ops m = Inr cur"
    and "desired_or_empty ports_file policy_file (w_fs w) = Inr d"
  shows "(st_file_map_agree st \<longleftrightarrow> port_view ops view m = slot_map d) \<and>
    st_drift_put st = card {p \<in> dom (slot_map d). port_view ops view m p \<noteq> slot_map d p} \<and>
    st_drift_delete st = card (dom (port_view ops view m) - dom (slot_map d))"
  using status_agree_iff [OF assms] status_drift [OF assms] by blast

theorem status_tells_the_drift_witness:
  "\<exists>st. status_value_with_stamp (khash_ops True) demo_conf demo_ports demo_policy demo_pin [''/'', ''f''] [''/'', ''m'']
     [''/'', ''s''] (demo_world\<lparr>w_fs := (w_fs demo_world)\<lparr>fs_files := (fs_files (w_fs demo_world))(resolve demo_ports := None)\<rparr>\<rparr>) =
     Inr st \<and> \<not> st_file_map_agree st \<and> st_drift_put st = 0 \<and> st_drift_delete st = 2"
proof -
  let ?w = "demo_world\<lparr>w_fs := (w_fs demo_world)\<lparr>fs_files := (fs_files (w_fs demo_world))(resolve demo_ports := None)\<rparr>\<rparr>"
  obtain cur where cur: "read_map (khash_ops True) demo_live = Inr cur"
    using healthy_map.read_map_total [OF healthy_map_khash demo_roomy(2)] by (auto simp: is_ok_iff)
  have none: "desired_or_empty demo_ports demo_policy (w_fs ?w) = Inr om_empty"
    by (simp add: desired_or_empty_def fs_exists_def)
  have "real_ports demo_conf ?w = real_ports demo_conf demo_world" by (simp add: real_ports_def)
  then have reals: "real_ports demo_conf ?w = Inr inner_real_ports" using demo_world_simps(2) by simp
  obtain st where st: "status_value_with_stamp (khash_ops True) demo_conf demo_ports demo_policy demo_pin [''/'', ''f'']
     [''/'', ''m''] [''/'', ''s''] ?w = Inr st"
    using reals none by (simp add: status_value_with_stamp_def Let_def split_beta del: demo_paths)
  have pin: "w_pins ?w (open_ports_path demo_pin) = Some demo_live" using demo_world_simps(1) by simp
  have "slot_map om_empty = (\<lambda>_. None)" by (simp add: fun_eq_iff slot_map_def om_get_empty)
  moreover have dom: "dom (slot_map demo_desired) = {18081, 18443}"
    by (auto simp: slot_map_def demo_desired_def om_get_def split: if_splits)
  moreover have "slot_map demo_desired \<noteq> (\<lambda>_. None)" using dom by force
  ultimately show ?thesis
    using status_tells_the_drift [OF kernel_map_khash st pin demo_roomy(2) cur none] st by (simp add: demo_view)
qed

text \<open>
  The emergency close touches only the map: stopped at any point it has only removed ports, and
  on success no port is steered.
\<close>

theorem close_all_empties_the_map:
  assumes "kernel_map ops view same" "close_all_with ops pin_dir batch progress w = (r, w')"
    and "w_pins w (open_ports_path pin_dir) = Some m" "port_layout ops m"
  shows "\<exists>n. w' = w\<lparr>w_pins := (w_pins w)(open_ports_path pin_dir := Some n)\<rparr> \<and>
    (\<forall>p. port_view ops view n p = port_view ops view m p \<or> port_view ops view n p = None) \<and>
    (is_ok r \<longrightarrow> port_view ops view n = (\<lambda>_. None))"
  using close_all_spec [OF assms] by (auto simp: repinned_def)

theorem close_all_empties_the_map_witness:
  "\<exists>n. w_pins (snd (close_all_with (khash_ops True) demo_pin None False demo_world)) (open_ports_path demo_pin) = Some n \<and>
     (port_view (khash_ops True) kh_view n 18081 = Some 0 \<or> port_view (khash_ops True) kh_view n 18081 = None)"
proof -
  have "port_view (khash_ops True) kh_view demo_live 18081 = Some 0"
    by (simp add: demo_view slot_map_def demo_desired_def om_get_def)
  moreover obtain n where "snd (close_all_with (khash_ops True) demo_pin None False demo_world) =
      demo_world\<lparr>w_pins := (w_pins demo_world)(open_ports_path demo_pin := Some n)\<rparr>"
    "\<forall>p. port_view (khash_ops True) kh_view n p = port_view (khash_ops True) kh_view demo_live p \<or>
       port_view (khash_ops True) kh_view n p = None"
    using close_all_empties_the_map [where pin_dir = demo_pin and batch = None and progress = False,
        OF kernel_map_khash [of True] prod.collapse [symmetric] demo_world_simps(1) demo_roomy(2)] by blast
  ultimately show ?thesis by (intro exI [of _ n]) (simp, metis)
qed

text \<open>
  C36: A successful import ran on an unfrozen machine, took only listen ports the policy admits and never
  80 or 443, accounted for every listen port, and changed neither the map nor the nginx files.
\<close>

theorem import_takes_only_admitted_listens:
  assumes "ctl_import_listens print_json args w = (Inr (Some (Imported ports skipped)), w')"
    and "parse_go_flags args import_bools import_vals = Inr f"
  shows "\<not> is_frozen (freeze_file_of f) (w_fs w) \<and> w_pins w' = w_pins w \<and> w_nginx w' = w_nginx w \<and>
    (\<exists>pol b d0 listens. policy_load (policy_file_of f) (w_fs w) = Inr pol \<and> import_binding f w = Inr b \<and>
       desired_or_empty (ports_file_of f) (policy_file_of f) (w_fs w) = Inr d0 \<and>
       parse_listen_ports_from_conf (w_nginx w) (case flag_get f ''from'' of Some v \<Rightarrow> path_of v | None \<Rightarrow> nginx_conf_of f)
         = Inr listens \<and>
       set ports \<subseteq> {p \<in> set listens. port_allowed pol p \<and> p \<noteq> 80 \<and> p \<noteq> 443} \<and>
       set ports \<union> fst ` set skipped = set listens \<and>
       admissible pol (om_insert_all ports b d0) \<and>
       (flag_get f ''central-out'' = None \<longrightarrow>
         fs_files (w_fs w') (resolve (ports_file_of f)) = Some (desired_text (om_insert_all ports b d0))))"
proof -
  from import_Inr [OF assms] obtain pol b d0 listens extra where
    i: "\<not> is_frozen (freeze_file_of f) (w_fs w)" "w_pins w' = w_pins w" "w_nginx w' = w_nginx w"
      "policy_load (policy_file_of f) (w_fs w) = Inr pol" "import_binding f w = Inr b"
      "desired_or_empty (ports_file_of f) (policy_file_of f) (w_fs w) = Inr d0"
      "parse_listen_ports_from_conf (w_nginx w) (case flag_get f ''from'' of Some v \<Rightarrow> path_of v | None \<Rightarrow> nginx_conf_of f)
         = Inr listens"
      "importable_ports listens pol extra = (ports, skipped)" "admissible pol (om_insert_all ports b d0)"
      "flag_get f ''central-out'' = None \<longrightarrow>
         fs_files (w_fs w') (resolve (ports_file_of f)) = Some (desired_text (om_insert_all ports b d0))"
    apply (elim conjE exE)
    apply (rule that)
    apply assumption+
    done
  have "set ports \<subseteq> {p \<in> set listens. port_allowed pol p \<and> p \<noteq> 80 \<and> p \<noteq> 443}"
    "set ports \<union> fst ` set skipped = set listens"
    using i(8) by (auto simp: importable_ports_eq skip_reason_None image_iff) 
  then show ?thesis using i by (intro conjI exI [of _ pol] exI [of _ b] exI [of _ d0] exI [of _ listens])
qed

theorem import_takes_only_admitted_listens_witness:
  "\<exists>w'. ctl_import_listens (\<lambda>_. []) demo_import demo_nginx_world = (Inr (Some (Imported [18500] [])), w') \<and>
     w_pins w' = w_pins demo_nginx_world \<and> port_allowed default_policy 18500"
proof -
  obtain w' where run: "ctl_import_listens (\<lambda>_. []) demo_import demo_nginx_world = (Inr (Some (Imported [18500] [])), w')"
    using demo_import_runs by blast
  from import_takes_only_admitted_listens [OF run demo_import_parse] run demo_world_load(2) show ?thesis
    by (auto simp: demo_import_paths demo_nginx_world_def simp del: demo_paths)
qed

text \<open>
  C40: The walk over nginx includes ends without running out of its fuel, also on include cycles, and
  returns each file once with its own text.
\<close>

theorem include_walk_visits_each_file_once:
  "case read_expanded_files ng conf of
     Inl e \<Rightarrow> e \<noteq> NginxE IncludesTooDeep
   | Inr files \<Rightarrow> distinct (map (\<lambda>e. visit_key ng (fst e)) files) \<and>
       (\<forall>(path, txt) \<in> set files. ng_read ng path = Inr txt)"
  by (rule read_expanded_files_spec)

theorem include_walk_visits_each_file_once_witness:
  "read_expanded_files demo_nginx [''missing''] \<noteq> Inl (NginxE IncludesTooDeep)"
  using include_walk_visits_each_file_once [of demo_nginx "[''missing'']"]
  by (cases "read_expanded_files demo_nginx [''missing'']") auto

text \<open>
  C21: Whatever step of an upgrade or of an explicit rollback fails and whenever the process is killed,
  only the three program pins, the journal and the primary link can have changed; the primary link
  stays attached and runs either its old program, the pinned one or the candidate's, and the backup
  link keeps the connections steered by the program it had.
\<close>

theorem upgrade_switches_only_the_primary_link:
  "only_switches env dir (pinned_progs (prog_path dir) w \<union> candidate_progs env candidate) w
     (snd (activate env dir candidate window w)) \<and>
   only_switches env dir (pinned_progs (prog_previous_path dir) w) w (snd (rollback env dir w))"
  by (metis activate_switches rollback_switches prod.collapse)

text \<open>
  C22: A candidate with a map of another layout is refused, whatever else happens: the upgrade ends in
  an error, and no pin, no link and no file but the journal has changed.
\<close>

theorem incompatible_candidate_is_refused:
  assumes "ue_open env candidate = Inr obj" "(name, m) \<in> set (bo_maps obj)"
    "abi_of env name m \<notin> {expected_open_ports_abi, expected_redir_socket_abi}"
  shows "\<exists>e t. activate env dir candidate window w = (Inl e, t) \<and> untouched env dir w t"
proof (cases "activate env dir candidate window w")
  case (Pair r t)
  then show ?thesis
    using keepsD [OF activate_refuses [OF assms] untouched_refl Pair] activate_refuses [OF assms, of dir w window]
    by (cases r) (auto simp: keeps_def dest: triple_Inr)
qed

theorem incompatible_candidate_is_refused_witness:
  "\<exists>e t. activate (plane_env\<lparr>ue_open := (\<lambda>_. Inr sharded_object)\<rparr>) default_pin_dir [''/'', ''new.o''] 0 plane_world = (Inl e, t) \<and>
     bw_links t 0 = Some 10"
proof -
  let ?env = "plane_env\<lparr>ue_open := (\<lambda>_. Inr sharded_object)\<rparr>"
  have "ue_open ?env [''/'', ''new.o''] = Inr sharded_object" "(''redir_socket'', 1) \<in> set (bo_maps sharded_object)"
    by (simp_all add: sharded_object_def)
  from incompatible_candidate_is_refused [OF this sharded_abi, of default_pin_dir 0 plane_world]
  show ?thesis by (auto simp: untouched_def plane_backup)
qed

text \<open>
  C23: When no step fails, a compatible candidate is committed: the primary link runs it, it is the
  pinned program, the old program is kept as the previous one, and the journal on disk says so.
\<close>

theorem activation_commits:
  assumes "ready env dir candidate i g g1 w" "ue_fail_health env \<noteq> Some ''1''" "window \<le> max_health_window"
  shows "\<exists>j t. activate env dir candidate window w = (Inr j, t) \<and> j_phase j = Committed \<and>
     bw_links t = (bw_links w)(i := Some g1) \<and>
     bw_pins t = (bw_pins w)(prog_path dir := Some (ProgPin g1), prog_previous_path dir := Some (ProgPin g),
         prog_candidate_path dir := None) \<and>
     bw_files t (resolve (journal_path env dir)) = Some (ue_print env j @ [CHR 0x0A])"
  using activate_promotes [OF assms] unfolding stands_def by blast

theorem activation_commits_witness:
  "\<exists>j t. activate plane_env default_pin_dir [''/'', ''new.o''] 0 plane_world = (Inr j, t) \<and> j_phase j = Committed \<and>
     bw_links t 0 = Some 20"
  using activation_commits [OF plane_ready, of 0] by (auto simp: max_health_window_def)

text \<open>
  C24: A health check that fails for whatever reason, when no call after it fails, ends the activation in
  its error with the old program back under its pin and no candidate or previous pin left. The primary link
  runs the old program again and the journal says rolled back; a link detached meanwhile stays so, and the
  journal says failed.
\<close>

theorem failed_health_check_reverts:
  assumes "mark env dir j Healthy ''candidate link active; health window running'' w = (Inr j1, s)"
    and "health_check env dir window s = (Inl e, u)" "calm u"
    and "bw_pins w (prog_previous_path dir) = Some (ProgPin g)"
  shows "\<exists>t j2. promote env dir window i (ProgPin g) j w = (Inl (Ctx (Doing ''candidate health window'') e), t) \<and>
     bw_pins t = (bw_pins w)(prog_path dir := Some (ProgPin g), prog_previous_path dir := None, prog_candidate_path dir := None) \<and>
     bw_files t (resolve (journal_path env dir)) = Some (ue_print env j2 @ [CHR 0x0A]) \<and>
     (if bw_links w i = None then bw_links t = bw_links w \<and> j_phase j2 = Failed
      else bw_links t = (bw_links w)(i := Some g) \<and> j_phase j2 = RolledBack)"
  using promote_reverts [OF assms, of i] unfolding stands_def by (cases "bw_links w i") (auto simp del: fun_upd_apply)

theorem failed_health_check_reverts_witness:
  "bw_pins plane_swapped (redir_socket_path default_pin_dir) = None \<and> bw_links plane_swapped 0 = Some 20 \<and>
   (\<exists>e t. promote plane_env default_pin_dir 0 0 (ProgPin 10) (new_journal default_pin_dir [] 0 Activating []) plane_swapped = (Inl e, t) \<and> bw_links t 0 = Some 10 \<and>
      bw_pins t (prog_path default_pin_dir) = Some (ProgPin 10) \<and> bw_pins t (prog_previous_path default_pin_dir) = None)"
proof -
  obtain j1 s e u where
    h: "mark plane_env default_pin_dir (new_journal default_pin_dir [] 0 Activating []) Healthy ''candidate link active; health window running'' plane_swapped = (Inr j1, s)"
      "health_check plane_env default_pin_dir 0 s = (Inl e, u)" "calm u"
    using plane_unhealthy by blast
  from failed_health_check_reverts [OF h plane_swapped_sel(1), of 0] plane_swapped_sel(2,5) show ?thesis by fastforce
qed

text \<open>
  The whole activation from a world in which no call fails: the forced failure of the check and a window over
  the limit leave everything as it was, but an older previous program, whose pin is gone.
\<close>

theorem forced_failure_reverts_the_activation:
  assumes "ready env dir candidate i g g1 w" "ue_fail_health env = Some ''1'' \<or> window > max_health_window"
  shows "\<exists>e t j. activate env dir candidate window w = (Inl e, t) \<and> j_phase j = RolledBack \<and>
     bw_links t = (bw_links w)(i := Some g) \<and>
     bw_pins t = (bw_pins w)(prog_previous_path dir := None, prog_candidate_path dir := None) \<and>
     bw_files t (resolve (journal_path env dir)) = Some (ue_print env j @ [CHR 0x0A])"
  using activate_reverts [OF assms] unfolding stands_def by blast

theorem forced_failure_reverts_the_activation_witness:
  "\<exists>e t. activate plane_env default_pin_dir [''/'', ''new.o''] (max_health_window + 1) plane_world = (Inl e, t) \<and>
     bw_links t 0 = Some 10 \<and> bw_pins t (prog_path default_pin_dir) = Some (ProgPin 10)"
proof -
  have "default_pin_dir @ x = default_pin_dir @ y \<longleftrightarrow> x = y" for x y :: path by simp
  then show ?thesis
    using forced_failure_reverts_the_activation [OF plane_ready, of "max_health_window + 1"] plane_backup(6)
    by (auto simp: plane_paths)
qed

text \<open>
  C25: When no call fails, an explicit rollback after a committed activation puts the program that was pinned
  before the upgrade back on the primary link and under its pin. It is not the program the link ran, when that
  was another one; and the pin of an older previous program is gone.
\<close>

theorem rollback_undoes_activation:
  assumes "ready env dir candidate i g g1 w" "activate env dir candidate window w = (Inr j, t)"
    "\<And>k. ue_parse env (ue_print env k @ [CHR 0x0A]) \<noteq> None"
    "ue_fail_health env \<noteq> Some ''1''" "window \<le> max_health_window"
  shows "\<exists>k u. rollback env dir t = (Inr k, u) \<and> j_phase k = RolledBack \<and> bw_links u = (bw_links w)(i := Some g) \<and>
     bw_pins u = (bw_pins w)(prog_previous_path dir := None, prog_candidate_path dir := None)"
proof -
  have t: "stands env dir ((bw_pins w)(prog_path dir := Some (ProgPin g1), prog_previous_path dir := Some (ProgPin g),
         prog_candidate_path dir := None)) ((bw_links w)(i := Some g1)) (Some (ue_print env j @ [CHR 0x0A])) t"
    using activate_promotes [OF assms(1,4,5)] assms(2) by auto
  have live: "bw_pins w (sk_lookup_link_path dir) = Some (LinkPin i)" "bw_pins w (prog_path dir) = Some (ProgPin g)"
    using readyD(1) [OF assms(1)] by (auto simp: live_plane_def)
  have "\<exists>k u. rollback env dir t = (Inr k, u) \<and> j_phase k = RolledBack \<and>
     stands env dir ((bw_pins t)(prog_path dir := Some (ProgPin g), prog_previous_path dir := None,
         prog_candidate_path dir := None)) ((bw_links t)(i := Some g)) (Some (ue_print env k @ [CHR 0x0A])) u"
    by (rule rollback_restores [where y = "ProgPin g1"]) (use t live assms(3) in \<open>auto simp: stands_def\<close>)
  then show ?thesis
    using t live(2) unfolding stands_def by (elim exE conjE, intro exI conjI) (assumption | force)+
qed

theorem rollback_undoes_activation_witness:
  "\<exists>j t k u. activate plane_env default_pin_dir [''/'', ''new.o''] 0 plane_world = (Inr j, t) \<and> bw_links t 0 = Some 20 \<and>
     rollback plane_env default_pin_dir t = (Inr k, u) \<and> bw_links u = bw_links plane_world"
proof -
  obtain j t where run: "activate plane_env default_pin_dir [''/'', ''new.o''] 0 plane_world = (Inr j, t)" "bw_links t 0 = Some 20"
    using activate_promotes [OF plane_ready, of 0] by (auto simp: max_health_window_def stands_def)
  have "(bw_links plane_world)(0 := Some 10) = bw_links plane_world" using plane_backup(5) by auto
  with rollback_undoes_activation [OF plane_ready run(1) plane_parses] run show ?thesis
    by (auto simp: max_health_window_def)
qed

text \<open>
  C26: In every plane that is ready for an upgrade and has no previous program there is a moment, between the
  link update and the renames of the program pins, such that a rollback after a kill then reports the live link
  unchanged, in the phase rolled back, and leaves the candidate on the link and the old program under its pin.
\<close>

theorem rollback_after_a_kill_keeps_the_candidate:
  assumes "ready env dir candidate i g g1 w" "bw_pins w (prog_previous_path dir) = None"
    and "\<And>j. ue_parse env (ue_print env j @ [CHR 0x0A]) \<noteq> None"
  shows "\<exists>n j t. rollback env dir ((snd (activate env dir candidate window (w\<lparr>bw_halt := (\<lambda>m. m = n)\<rparr>)))\<lparr>bw_halt := (\<lambda>_. False)\<rparr>)
       = (Inr j, t) \<and> j_phase j = RolledBack \<and>
     j_detail j = ''no prog_previous; candidate pin cleared (live link unchanged)'' \<and>
     bw_links t = (bw_links w)(i := Some g1) \<and> bw_pins t (prog_path dir) = Some (ProgPin g) \<and>
     bw_pins t = (bw_pins w)(prog_candidate_path dir := None)"
proof -
  have "bw_pins w (prog_path dir) = Some (ProgPin g)" using readyD(1) [OF assms(1)] by (auto simp: live_plane_def)
  then show ?thesis using rollback_after_kill [OF assms, of window] by fastforce
qed

theorem rollback_after_a_kill_keeps_the_candidate_witness:
  "\<exists>n j t. rollback plane_env default_pin_dir ((snd (activate plane_env default_pin_dir [''/'', ''new.o''] 0
       (plane_world\<lparr>bw_halt := (\<lambda>m. m = n)\<rparr>)))\<lparr>bw_halt := (\<lambda>_. False)\<rparr>) = (Inr j, t) \<and>
     bw_links plane_world 0 = Some 10 \<and> bw_links t 0 = Some 20"
proof -
  have "bw_pins plane_world (prog_previous_path default_pin_dir) = None" by (simp add: plane_world_def plane_paths)
  from rollback_after_a_kill_keeps_the_candidate [OF plane_ready this plane_parses, of 0] plane_backup(5) show ?thesis by fastforce
qed

text \<open>
  C27: A start of the loader, at whatever step it fails or is killed, keeps every pin that was there and
  its object, adds pins only under the names of the two links and the program, and leaves the program
  of every attached link alone but that of the primary one, which stays attached.
\<close>

theorem start_keeps_what_is_pinned:
  "boots dir w (snd (load_and_attach env impl dir w))"
  using keepsD [OF keeps_load_and_attach boots_refl] by (metis prod.collapse)

text \<open>
  After a successful start the primary link is attached, pinned and runs the program of the object
  just loaded, the backup link is pinned, and a program that was pinned before is still the pinned
  one: after a restart with a new object the program pin is not what the primary link runs.
\<close>

theorem start_runs_the_loaded_program:
  assumes "load_and_attach env impl dir w = (Inr bpf, t)"
  shows "(\<exists>i g. bw_pins t (sk_lookup_link_path dir) = Some (LinkPin i) \<and> with_dispatch_prog bpf = Inr g \<and>
            bw_links t i = Some g) \<and>
     backup_link_pinned dir t \<and>
     bw_pins t (prog_path dir) \<in> (if bw_pins w (prog_path dir) = None then UNIV else {bw_pins w (prog_path dir)})"
  using load_and_attach_yields [OF assms] by (auto simp: primary_runs_def boots_def)

theorem start_runs_the_loaded_program_witness:
  "\<exists>bpf t i. load_and_attach plane_loader BpfC default_pin_dir plane_world = (Inr bpf, t) \<and>
     bw_pins t (sk_lookup_link_path default_pin_dir) = Some (LinkPin i) \<and>
     bw_pins t (prog_path default_pin_dir) = Some (ProgPin 10)"
  using plane_start start_runs_the_loaded_program [where w = plane_world and dir = default_pin_dir] plane_backup(6)
  by fastforce

text \<open>
  C28: When no step fails, unpinning removes every pin of the data plane, detaches the two pinned links
  and touches no other pin and no other link.
\<close>

theorem unpin_removes_the_data_plane:
  assumes "calm w" "bw_pins w dir = None"
  shows "\<exists>t. unpin_dataplane dir w = (Inr (), t) \<and>
     bw_pins t = (\<lambda>p. if p \<in> {prog_path dir, prog_previous_path dir, prog_candidate_path dir, sk_lookup_link_path dir,
         sk_lookup_backup_link_path dir, open_ports_path dir, redir_socket_path dir} then None else bw_pins w p) \<and>
     bw_links t = (\<lambda>i. if LinkPin i \<in> {x. bw_pins w (sk_lookup_link_path dir) = Some x \<or>
         bw_pins w (sk_lookup_backup_link_path dir) = Some x} then None else bw_links w i)"
proof -
  have "plane_pins dir = {prog_path dir, prog_previous_path dir, prog_candidate_path dir, sk_lookup_link_path dir,
         sk_lookup_backup_link_path dir, open_ports_path dir, redir_socket_path dir}"
    by (auto simp: plane_pins_def prog_pins_def)
  moreover have "detached y (detached x L) = (\<lambda>i. if LinkPin i \<in> {z. x = Some z \<or> y = Some z} then None else L i)" for x y L
    by (auto simp: detached_def fun_eq_iff split: option.splits pinned.splits)
  ultimately show ?thesis using unpin_dataplane_bare [OF assms] by simp
qed

theorem unpin_removes_the_data_plane_witness:
  "\<exists>t. unpin_dataplane default_pin_dir plane_world = (Inr (), t) \<and> bw_pins t (sk_lookup_link_path default_pin_dir) = None \<and>
     bw_links t 0 = None \<and> bw_links t 1 = None"
  using unpin_removes_the_data_plane [OF plane_calm] by (auto simp: plane_backup)

text \<open>
  C18: A request over the control socket that changes anything is recorded: either the files and the map
  are as before, or one audit line was written that names the caller and says whether it succeeded.
\<close>

theorem socket_changes_are_audited:
  "let (r, t) = execute ops req cred dir pf s in
     so_world t = so_world s \<or>
     (\<exists>a. so_audit t = so_audit s @ [a] \<and> au_cred a = cred \<and> au_op a = actual_op req \<and> au_ok a = is_ok r)"
proof (cases "execute ops req cred dir pf s")
  case (Pair r t)
  then show ?thesis using execute_accounted [OF Pair] by (auto simp: accounted_def)
qed

text \<open>
  C19: A connection that changes anything comes from root, the owner of the socket or its group, through
  a socket file that is closed to others; and on a frozen machine no request that opens ports changes
  the files or the map.
\<close>

theorem socket_serves_the_authorized_and_unfrozen:
  assumes "cn_cred conn = Inr cred" "cn_meta conn = Inr meta" "handle_conn ops parse dir pf conn s = (r, t)" "t \<noteq> s"
  shows "Bit_Operations.and (sm_mode meta) 7 = 0 \<and>
     (pc_uid cred = 0 \<or> pc_uid cred = sm_uid meta \<or> pc_gid cred = sm_gid meta) \<and>
     (\<exists>req. execute ops req cred dir pf s = (r, t) \<and>
        (so_world t = so_world s \<or> \<not> (is_frozen default_freeze_file (w_fs (so_world s)) \<and> gated req)))"
proof -
  from handle_executes [OF assms(3)] assms(1,2,4) obtain req where "authorize cred (sm_uid meta) (sm_gid meta) (sm_mode meta) = Inr ()"
    "execute ops req cred dir pf s = (r, t)"
    by auto
  moreover have "so_world t = so_world s \<or> \<not> (is_frozen default_freeze_file (w_fs (so_world s)) \<and> gated req)"
    using execute_frozen [of s req ops cred dir pf] calculation(2) by auto
  ultimately show ?thesis by (auto simp: authorize_iff)
qed

theorem socket_serves_the_authorized_and_unfrozen_witness:
  "\<exists>r t req. handle_conn (khash_ops True) (\<lambda>_. Some demo_request) demo_pin demo_ports
       \<lparr>cn_cred = Inr demo_cred, cn_meta = Inr \<lparr>sm_uid = 7, sm_gid = 8, sm_mode = 432\<rparr>, cn_line = Inr []\<rparr> demo_sock = (r, t) \<and>
     execute (khash_ops True) req demo_cred demo_pin demo_ports demo_sock = (r, t) \<and> is_ok r"
proof -
  let ?conn = "\<lparr>cn_cred = Inr demo_cred, cn_meta = Inr \<lparr>sm_uid = 7, sm_gid = 8, sm_mode = 432 :: u32\<rparr>, cn_line = Inr []\<rparr>"
  obtain t where ex: "execute (khash_ops True) demo_request demo_cred demo_pin demo_ports demo_sock = (Inr (DoneResponse ''add'' 1), t)"
    and "so_audit t \<noteq> []"
    using demo_socket_add by blast
  then have "handle_conn (khash_ops True) (\<lambda>_. Some demo_request) demo_pin demo_ports ?conn demo_sock = (Inr (DoneResponse ''add'' 1), t)"
    by (simp add: handle_conn_def sbind_def lift_res_def authorize_def demo_cred_def utf8_length_def)
  moreover have "t \<noteq> demo_sock" using \<open>so_audit t \<noteq> []\<close> by (auto simp: demo_sock_def)
  ultimately show ?thesis
    using socket_serves_the_authorized_and_unfrozen [of ?conn demo_cred _ "khash_ops True" "\<lambda>_. Some demo_request" demo_pin demo_ports demo_sock]
    by fastforce
qed

text \<open>
  C20: A mutating request over the socket that succeeds, whichever operation it is, keeps the desired file and the
  live map in agreement, when no identity it carries holds the comment sign, the files it uses are apart and
  the two paths are in the normal form that a command line gives them.
\<close>

theorem socket_requests_keep_agreement:
  assumes "kernel_map ops view same" "agree ops view dir pf (default_path pf) (so_world s)"
    "execute ops req cred dir pf s = (Inr (DoneResponse op n), t)" "hash_free (request_binding req)"
    "length (rq_ports req) < 2 ^ 32" "files_apart pf (default_path pf) (w_pid (so_world s))" "path_canon dir" "path_canon pf"
  shows "agree ops view dir pf (default_path pf) (so_world t)"
  by (rule execute_agree [OF assms])

theorem socket_requests_keep_agreement_witness:
  "\<exists>t. execute (khash_ops True) demo_request demo_cred demo_pin demo_ports demo_sock = (Inr (DoneResponse ''add'' 1), t) \<and>
     agree (khash_ops True) kh_view demo_pin demo_ports demo_policy (so_world t)"
proof -
  obtain t where ex: "execute (khash_ops True) demo_request demo_cred demo_pin demo_ports demo_sock = (Inr (DoneResponse ''add'' 1), t)"
    using demo_socket_add by blast
  have w: "so_world demo_sock = demo_world" by (simp add: demo_sock_def)
  have "hash_free (request_binding demo_request)" "length (rq_ports demo_request) < 2 ^ 32"
    by (simp_all add: demo_request_facts hash_free_def demo_binding_def seed_binding_def)
  moreover have "path_canon demo_pin" "path_canon demo_ports"
    by (simp_all add: pin_dir_of_def ports_file_of_def get_or_def path_canon_path_of)
  ultimately have "agree (khash_ops True) kh_view demo_pin demo_ports demo_policy (so_world t)"
    using socket_requests_keep_agreement [OF kernel_map_khash _ ex] demo_agree demo_apart demo_default_policy w by simp
  then show ?thesis using ex by blast
qed

text \<open>
  C2: A connection to a port of the desired state a start returns is steered by the kernel program to the
  listener the start waited for: that of the TLS target for a TLS port, that of the target otherwise.
\<close>

theorem started_ports_reach_the_listener:
  assumes "kernel_map ops view same" "run_attached env args h = Some (Inr (d, s), h')"
    and "se_ops env = ops" "start_layout env args h" "a_mode args \<noteq> Toy"
    and "h_le hp = k_le ops" "h_open_ports hp = view (fst (rn_own s))"
    and "h_redir_socket hp = (\<lambda>k. map_option sock (view (snd (rn_own s)) k))" "h_assign hp ctx = (\<lambda>_. 0)"
    and "sk_protocol ctx = 6" "om_get d (ucast (local_port ctx)) = Some b"
  shows "\<exists>c \<in> set (rn_held s). fate (dispatch hp ctx) = Steered (sock (fd_value ops (snd (rn_own s)) (cl_fd c))) \<and>
    (if b_slot b = redir_tls then waited_for (se_wait_tls env) (a_tls_target args) c
     else waited_for (se_wait env) (a_target args) c)"
proof -
  note run = kernel_map.run_attached_Inr [OF assms(1-4)]
  have s: "serving ops view env args d s" using run by simp
  obtain pol where "start_policy args (start_files env h) = Inr pol" "start_ok pol d" using run by blast
  then have ok: "slot_ok b" "om_wf d" using start_ok_ports [OF _ start_policy_wf] assms(11) by (auto simp: start_ok_def)
  define i where "i = (if b_slot b = redir_tls then 1 else 0 :: nat)"
  have slot: "b_slot b = of_nat i" "\<not> b_slot b > 1" using ok(1) by (auto simp: slot_ok_def i_def redir_primary_def redir_tls_def)
  have "slot_ports redir_tls d \<noteq> []" if "b_slot b = redir_tls"
    using that assms(11) om_get_Some_iff [OF ok(2)] by (force simp: slot_ports_def filter_empty_conv)
  then have i: "i < length (rn_held s)" and w: "if b_slot b = redir_tls then waited_for (se_wait_tls env) (a_tls_target args) (rn_held s ! i)
     else waited_for (se_wait env) (a_target args) (rn_held s ! i)"
    using s assms(5) by (auto simp: serving_def i_def)
  have "helper_slots hp (ucast (local_port ctx)) = Some (b_slot b)"
    using s assms(6,7,11) by (simp add: serving_def helper_slots_def port_view_def fun_eq_iff slot_map_def)
  moreover have "u32_bytes (k_le ops) (ucast (b_slot b)) = slot_key ops i"
    using slot(1) by (cases "b_slot b = redir_tls") (simp_all add: slot_key_def u32_bytes_ne i_def redir_tls_def)
  then have "helper_socks hp (b_slot b) = Some (sock (fd_value ops (snd (rn_own s)) (cl_fd (rn_held s ! i))))"
    using s i assms(6,8) by (simp add: serving_def tracks_def helper_socks_def)
  ultimately have "fate (dispatch hp ctx) = Steered (sock (fd_value ops (snd (rn_own s)) (cl_fd (rn_held s ! i))))"
    using slot(2) assms(9,10) by (simp add: dispatch_fate steering_fate_def ipproto_tcp_def)
  then show ?thesis using i w by (intro bexI [of _ "rn_held s ! i"]) simp_all
qed

theorem started_ports_reach_the_listener_witness:
  "\<exists>s h. run_attached demo_start_env demo_args demo_host = Some (Inr (demo_http, s), h) \<and>
     fate (dispatch (demo_loader_helpers (rn_own s)) (demo_ctx\<lparr>local_port := 18081\<rparr>)) = Steered [6, 0, 0, 0, 0, 0, 0, 0]"
proof -
  obtain s h where s: "run_attached demo_start_env demo_args demo_host = Some (Inr (demo_http, s), h)" "rn_held s = [demo_listener]"
      "snd (rn_own s) = demo_redir_on"
    using demo_start by blast
  have "\<exists>c \<in> set (rn_held s). fate (dispatch (demo_loader_helpers (rn_own s)) (demo_ctx\<lparr>local_port := 18081\<rparr>)) =
      Steered (id (fd_value (khash_ops True) (snd (rn_own s)) (cl_fd c))) \<and>
    (if b_slot demo_binding = redir_tls then waited_for (se_wait_tls demo_start_env) (a_tls_target demo_args) c
     else waited_for (se_wait demo_start_env) (a_target demo_args) c)"
    by (rule started_ports_reach_the_listener [OF kernel_map_khash s(1) demo_start_ops demo_start_layout])
      (simp_all add: demo_args_def demo_loader_helpers_def khash_ops_def option.map_id0 option.map_ident demo_ctx_def demo_http_def om_get_def)
  moreover have "fd_value (khash_ops True) demo_redir_on 6 = [6, 0, 0, 0, 0, 0, 0, 0]"
    using demo_slot_bytes(2) by (simp add: fd_value_def Let_def khash_ops_def demo_redir_on_def demo_redir_def)
  ultimately have "fate (dispatch (demo_loader_helpers (rn_own s)) (demo_ctx\<lparr>local_port := 18081\<rparr>)) = Steered [6, 0, 0, 0, 0, 0, 0, 0]"
    by (auto simp: s(2,3) demo_listener_def)
  with s(1) show ?thesis by blast
qed

text \<open>
  C9: A start that succeeds read a policy from its policy file and, under that policy with the ports of its own
  listeners reserved too, either read the desired file or, without one, took the state of the flags. The map it
  leaves is that state; the policy admits it, and no steered port is 0, denied, reserved or its own listener's.
\<close>

theorem start_opens_what_its_policy_admits:
  assumes "kernel_map ops view same" "run_attached env args h = Some (Inr (d, s), h')"
    and "se_ops env = ops" "start_layout env args h"
  shows "\<exists>p0. policy_load (policy_file_for args) (start_files env h) = Inr p0 \<and>
    (\<forall>q. q \<noteq> resolve lock_path \<longrightarrow> fs_files (start_files env h) q = fs_files (w_fs (ho_world h)) q) \<and>
    (case fs_files (start_files env h) (resolve (path_of (a_ports_file args))) of
       Some body \<Rightarrow> load_from_reader_with_policy body (p0\<lparr>p_reserve := p_reserve p0 \<union> listener_ports args\<rparr>) = Inr d
     | None \<Rightarrow> seed_state args (p0\<lparr>p_reserve := p_reserve p0 \<union> listener_ports args\<rparr>) = Inr d) \<and>
    om_wf d \<and> admissible (p0\<lparr>p_reserve := p_reserve p0 \<union> listener_ports args\<rparr>) d \<and>
    port_view ops view (fst (rn_own s)) = slot_map d \<and>
    (\<forall>p \<in> dom (port_view ops view (fst (rn_own s))).
       p \<noteq> 0 \<and> p \<notin> p_deny p0 \<and> p \<notin> p_reserve p0 \<and> p \<notin> listener_ports args)"
proof -
  note run = kernel_map.run_attached_Inr [OF assms]
  obtain pol where pol: "start_policy args (start_files env h) = Inr pol" "start_ok pol d"
    "start_source args pol (start_files env h) = Inr d" using run by blast
  obtain p0 where p0: "policy_load (policy_file_for args) (start_files env h) = Inr p0"
    "pol = p0\<lparr>p_reserve := p_reserve p0 \<union> listener_ports args\<rparr>" using start_policy_file [OF pol(1)] by blast
  have view: "port_view ops view (fst (rn_own s)) = slot_map d" using run by (simp add: serving_def)
  have "p \<noteq> 0 \<and> p \<notin> p_deny p0 \<and> p \<notin> p_reserve p0 \<and> p \<notin> listener_ports args" if p: "p \<in> dom (slot_map d)" for p
  proof -
    obtain b where "om_get d p = Some b" using p by (auto simp: slot_map_def)
    from start_ok_ports [OF pol(2) start_policy_wf [OF pol(1)] this] show ?thesis by (simp add: p0(2) port_allowed_def)
  qed
  then have steered: "\<forall>p \<in> dom (port_view ops view (fst (rn_own s))). p \<noteq> 0 \<and> p \<notin> p_deny p0 \<and> p \<notin> p_reserve p0 \<and>
      p \<notin> listener_ports args" unfolding view by blast
  show ?thesis
    using start_source_text [OF pol(3)] pol(2)
    by (intro exI [of _ p0] conjI p0(1) view steered allI impI start_files_other) (simp_all only: p0(2) start_ok_def not_False_eq_True)
qed

theorem start_opens_what_its_policy_admits_witness:
  "\<exists>s h. run_attached demo_start_env demo_args demo_host = Some (Inr (demo_http, s), h) \<and>
     (\<exists>p0. policy_load (policy_file_for demo_args) (start_files demo_start_env demo_host) = Inr p0) \<and>
     port_view (khash_ops True) kh_view (fst (rn_own s)) = slot_map demo_http \<and>
     8080 \<notin> dom (port_view (khash_ops True) kh_view (fst (rn_own s)))"
proof -
  obtain s h where s: "run_attached demo_start_env demo_args demo_host = Some (Inr (demo_http, s), h)"
    using demo_start by blast
  have "8080 \<in> listener_ports demo_args" by (simp add: listener_ports_def demo_targets demo_args_def)
  with start_opens_what_its_policy_admits [OF kernel_map_khash s demo_start_ops demo_start_layout] obtain p0 where
    "policy_load (policy_file_for demo_args) (start_files demo_start_env demo_host) = Inr p0"
    "port_view (khash_ops True) kh_view (fst (rn_own s)) = slot_map demo_http"
    "8080 \<notin> dom (port_view (khash_ops True) kh_view (fst (rn_own s)))"
    by (elim exE conjE) blast
  with s show ?thesis by blast
qed

text \<open>
  C10: From a start on, through every turn of the loop, every request and every change by other processes
  that leaves the socket map alone, each held socket is the one registered in its slot.
\<close>

theorem socket_map_follows_the_held_sockets:
  assumes "kernel_map ops view same" "run_attached env args h = Some (Inr (d, s), h')"
    and "se_ops env = ops" "start_layout env args h"
    and "reaches ops parse args (slot_ports redir_tls d \<noteq> []) s t"
  shows "length (rn_held t) \<le> 2 \<and>
    (\<forall>i < length (rn_held t). view (snd (current_maps args t)) (slot_key ops i) =
       Some (fd_value ops (snd (current_maps args t)) (cl_fd (rn_held t ! i))))"
proof -
  note run = kernel_map.run_attached_Inr [OF assms(1-4)]
  then have "tracks ops view (snd (current_maps args s)) (rn_held s)"
    using conjunct1 [OF conjunct2 [OF run]] by (simp add: serving_def current_maps_def)
  from kernel_map.reaches_tracks [OF assms(1,5) this] show ?thesis by (simp add: tracks_def)
qed

theorem socket_map_follows_the_held_sockets_witness:
  "\<exists>s h t. run_attached demo_start_env demo_args demo_host = Some (Inr (demo_http, s), h) \<and>
     reaches (khash_ops True) (\<lambda>_. None) demo_args False s t \<and> length (rn_held t) \<le> 2"
proof -
  obtain s h t where s: "run_attached demo_start_env demo_args demo_host = Some (Inr (demo_http, s), h)"
    "reaches (khash_ops True) (\<lambda>_. None) demo_args False s t"
    using demo_start_running by blast
  have "slot_ports redir_tls demo_http = []"
    by (simp add: slot_ports_def demo_http_def demo_binding_def seed_binding_def redir_primary_def redir_tls_def)
  then show ?thesis
    using socket_map_follows_the_held_sockets [OF kernel_map_khash s(1) demo_start_ops demo_start_layout, of "\<lambda>_. None" t] s by auto
qed

text \<open>
  C14: After a start without TLS ports and with an empty TLS slot the loader never fills that slot, so that
  a TLS port that comes later, by a reload or a command, has its connections dropped.
\<close>

theorem tls_port_added_later_is_dropped:
  assumes "kernel_map ops view same" "run_attached env args h = Some (Inr (d, s), h')"
    and "se_ops env = ops" "start_layout env args h"
    and "slot_ports redir_tls d = []" "view (snd (rn_own s)) (slot_key ops 1) = None"
    and "reaches ops parse args (slot_ports redir_tls d \<noteq> []) s t"
    and "h_le hp = k_le ops" "h_open_ports hp = view (fst (current_maps args t))"
    and "h_redir_socket hp = (\<lambda>k. map_option sock (view (snd (current_maps args t)) k))"
    and "sk_protocol ctx = 6"
    and "port_view ops view (fst (current_maps args t)) (ucast (local_port ctx)) = Some redir_tls"
  shows "fate (dispatch hp ctx) = Dropped"
proof -
  note run = kernel_map.run_attached_Inr [OF assms(1-4)]
  have maps: "current_maps args s = rn_own s"
    using conjunct1 [OF conjunct2 [OF run]] by (simp add: current_maps_def)
  then have "tracks ops view (snd (current_maps args s)) (rn_held s)" using run by (simp add: serving_def)
  then have "view (snd (current_maps args t)) (slot_key ops 1) = None"
    using kernel_map.reaches_tls_slot [OF assms(1), of parse args s t] assms(5-7) maps by (simp add: tls_slot_def)
  then have "helper_socks hp redir_tls = None"
    using assms(8,10) by (simp add: helper_socks_def slot_key_def u32_bytes_ne redir_tls_def)
  moreover have "helper_slots hp (ucast (local_port ctx)) = Some redir_tls"
    using assms(8,9,12) by (simp add: helper_slots_def port_view_def)
  ultimately show ?thesis using assms(11) by (simp add: dispatch_fate steering_fate_def ipproto_tcp_def redir_tls_def)
qed

theorem tls_port_added_later_is_dropped_witness:
  "\<exists>s h t. run_attached demo_start_env demo_args demo_host = Some (Inr (demo_http, s), h) \<and>
     reaches (khash_ops True) (\<lambda>_. None) demo_args False s t \<and>
     fate (dispatch (demo_loader_helpers (current_maps demo_args t)) (demo_ctx\<lparr>local_port := 18443\<rparr>)) = Dropped"
proof -
  obtain s h t where s: "run_attached demo_start_env demo_args demo_host = Some (Inr (demo_http, s), h)"
    "reaches (khash_ops True) (\<lambda>_. None) demo_args False s t" "snd (rn_own s) = demo_redir_on"
    "port_view (khash_ops True) kh_view (fst (current_maps demo_args t)) = slot_map demo_desired"
    using demo_start_running by blast
  have no_tls: "slot_ports redir_tls demo_http = []"
    by (simp add: slot_ports_def demo_http_def demo_binding_def seed_binding_def redir_primary_def redir_tls_def)
  have "ne_bytes True 4 (1 :: u32) = [1, 0, 0, 0]" by (simp add: ne_bytes_def upt_rec)
  then have slot: "kh_view demo_redir_on (slot_key (khash_ops True) 1) = None"
    by (simp add: kh_view_def kh_entries_def demo_redir_on_def demo_redir_def slot_key_def khash_ops_def)
  have "slot_map demo_desired 18443 = Some redir_tls" by (simp add: slot_map_def demo_desired_def om_get_def)
  then have "fate (dispatch (demo_loader_helpers (current_maps demo_args t)) (demo_ctx\<lparr>local_port := 18443\<rparr>)) = Dropped"
    by (intro tls_port_added_later_is_dropped [OF kernel_map_khash s(1) demo_start_ops demo_start_layout no_tls, of "\<lambda>_. None" t _ id])
      (use slot s(2-4) no_tls in \<open>simp_all add: demo_loader_helpers_def khash_ops_def option.map_id demo_ctx_def\<close>)
  with s show ?thesis by blast
qed

text \<open>
  C12: A rescan that succeeds leaves a healthy or freshly found listener in every slot it looks at; one that
  fails has still registered every socket it holds; no other key of the socket map changes.
\<close>

theorem rescan_leaves_live_listeners:
  assumes "kernel_map ops view same" "length held \<le> 2"
    and "\<forall>i < length held. view m (slot_key ops i) = Some (fd_value ops m (cl_fd (held ! i)))"
    and "rescan_held ops v v_tls target tls_target (m, held) = (r, n, held')"
  shows "(\<forall>i < length held'. view n (slot_key ops i) = Some (fd_value ops n (cl_fd (held' ! i)))) \<and>
    (\<forall>k. k \<noteq> slot_key ops 0 \<and> k \<noteq> slot_key ops 1 \<longrightarrow> view n k = view m k) \<and>
    (is_ok r \<longrightarrow> held' \<noteq> [] \<and> live_listener v target (held' ! 0) \<and>
       (\<forall>tls. tls_target = Some tls \<longrightarrow> length held' = 2 \<and> live_listener v_tls tls (held' ! 1)))"
proof -
  have "tracks ops view m held" using assms(2,3) by (simp add: tracks_def)
  from kernel_map.rescan_held_keeps [OF assms(1) this assms(4)] show ?thesis by (simp add: tracks_def)
qed

theorem rescan_leaves_live_listeners_witness:
  "\<exists>n. rescan_held (khash_ops True) demo_proc demo_proc ''127.0.0.1:8080'' None (demo_redir, []) = (Inr 1, n, [demo_listener]) \<and>
     live_listener demo_proc ''127.0.0.1:8080'' demo_listener"
proof -
  have run: "rescan_held (khash_ops True) demo_proc demo_proc ''127.0.0.1:8080'' None (demo_redir, []) =
      (Inr 1, demo_redir_on, [demo_listener])"
    using demo_register
    by (simp add: rescan_held_def rescan_at_def rescan_slot_def put_held_def sbind_def lift_res_def ret_def demo_split demo_found
        demo_listener_def)
  have "live_listener demo_proc ''127.0.0.1:8080'' ([demo_listener] ! 0)"
    using rescan_leaves_live_listeners [OF kernel_map_khash _ _ run] by simp
  with run show ?thesis by auto
qed

text \<open>
  C11: A reload gives every port its old slot or that of the file, and the file's on success; a file that
  does not load changes nothing. No audit line is written and the freeze gate is not asked.
\<close>

theorem reload_installs_the_file:
  assumes "kernel_map ops view same" "port_layout ops (fst (current_maps args s))"
    and "load_with_policy (path_of (a_ports_file args)) (policy_file_for args) (w_fs (so_world (rn_sock s))) = file_state"
    and "t = reload_map ops args s"
  shows "rn_held t = rn_held s \<and> snd (current_maps args t) = snd (current_maps args s) \<and>
    w_fs (so_world (rn_sock t)) = w_fs (so_world (rn_sock s)) \<and> so_audit (rn_sock t) = so_audit (rn_sock s) \<and>
    (case file_state of
       Inl e \<Rightarrow> t = s
     | Inr d \<Rightarrow>
         (\<forall>p. port_view ops view (fst (current_maps args t)) p \<in>
            {port_view ops view (fst (current_maps args s)) p, slot_map d p}) \<and>
         (is_ok (fst (reconcile_map ops d (fst (current_maps args s)))) \<longrightarrow>
            port_view ops view (fst (current_maps args t)) = slot_map d))"
  using kernel_map.reload_map_spec [OF assms(1) assms(2) [unfolded current_maps_def] refl] assms(3,4)
  by (cases file_state) (simp_all add: current_maps_def Let_def)

theorem reload_installs_the_file_witness:
  "is_frozen default_freeze_file (w_fs (so_world (rn_sock demo_frozen))) \<and>
   port_view (khash_ops True) kh_view (fst (current_maps demo_args demo_frozen)) 18081 = None \<and>
   port_view (khash_ops True) kh_view (fst (current_maps demo_args (reload_map (khash_ops True) demo_args demo_frozen))) =
     slot_map demo_desired \<and>
   so_audit (rn_sock (reload_map (khash_ops True) demo_args demo_frozen)) = []"
proof -
  have empty: "port_view (khash_ops True) kh_view demo_map = (\<lambda>_. None)"
    by (simp add: fun_eq_iff port_view_def kh_view_def kh_entries_def demo_map_def)
  have "om_wf demo_desired" by simp
  then have "is_ok (fst (reconcile_map (khash_ops True) demo_desired demo_map))"
    using khh.reconcile_map_opens [OF demo_map_roomy(1), of demo_desired True] by (auto simp: empty)
  then show ?thesis
    using reload_installs_the_file [OF kernel_map_khash _ demo_frozen_facts(3) refl, of True] demo_frozen_facts(1,2) empty
    by (simp add: demo_frozen_def)
qed

text \<open>
  C15: A run of the command line writes exactly one line for a mutating command, with its outcome, after
  at most the line of the closing for freeze, and no line for the others.
\<close>

theorem command_line_is_audited:
  "\<exists>closing. ho_audit (snd (run_ctl env (op # args) h)) = ho_audit h @ closing @
      (if is_mutation op then [run_audit env (op # args) (is_ok (fst (run_ctl env (op # args) h)))] else []) \<and>
    closing \<in> (if op = ''freeze'' then {[], [closing_line env (is_ok (fst (run_ctl env (op # args) h)))]} else {[]})"
proof -
  obtain r t where "run_ctl env (op # args) h = (r, t)" by fastforce
  from run_ctl_lines [OF this refl] this show ?thesis by auto
qed

text \<open>
  C37: Of a table whose rows have the format the kernel documents for a little-endian machine, whatever their
  spacing, the inodes read for an address and a port are exactly those of the listening sockets there, in the
  order of the rows.
\<close>

theorem listen_rows_are_read:
  assumes "lines table = header # rows" "list_all2 row_of socks rows"
  shows "parse_listen_inodes table ip p =
    map ts_inode (filter (\<lambda>s. ts_state s = 10 \<and> ts_addr s = ip \<and> ts_port s = p) socks)"
  using assms by (rule parse_listen_inodes_rows)

theorem listen_rows_are_read_witness: "parse_listen_inodes demo_tcp (127, 0, 0, 1) 8080 = [77]"
  using listen_rows_are_read [OF demo_lines, of "[demo_row]"] demo_row_text by (simp add: demo_row_def)

text \<open>
  C38: A listener that is found is one of the table's, was shown by another process under a descriptor that
  was duplicated, and its owner is watched by a descriptor of that process.
\<close>

theorem captured_listener_has_a_foreign_owner:
  assumes "find_listen_socket_file v host p = Inr c"
  shows "\<exists>ip inodes names name f n. parse_ipv4 host = Some ip \<and> listen_inodes v host p = Inr inodes \<and>
    cl_inode c \<in> set inodes \<and> pv_entries v = Inr names \<and> name \<in> set names \<and>
    shown_by v (cl_inode c) name (cl_owner_pid c) f n \<and> cl_owner_pid c \<noteq> pv_own_pid v \<and>
    pv_pidfd_open v (cl_owner_pid c) = Inr (cl_owner_pidfd c) \<and> pv_pidfd_getfd v (cl_owner_pidfd c) n = Inr (cl_fd c)"
proof -
  obtain inodes names name f n where f: "listen_inodes v host p = Inr inodes" "cl_inode c \<in> set inodes" "pv_entries v = Inr names"
    "name \<in> set names" "shown_by v (cl_inode c) name (cl_owner_pid c) f n" "pv_pidfd_open v (cl_owner_pid c) = Inr (cl_owner_pidfd c)"
    "pv_pidfd_getfd v (cl_owner_pidfd c) n = Inr (cl_fd c)"
    using find_listen_found [OF assms] by blast
  moreover obtain ip where "parse_ipv4 host = Some ip" using f(1) by (auto simp: listen_inodes_def split: option.splits)
  moreover have "cl_owner_pid c \<noteq> pv_own_pid v" using f(5) by (simp add: shown_by_def)
  ultimately show ?thesis by blast
qed

theorem captured_listener_has_a_foreign_owner_witness:
  "find_listen_socket_file demo_proc ''127.0.0.1'' 8080 = Inr demo_listener \<and> cl_owner_pid demo_listener \<noteq> pv_own_pid demo_proc"
  using captured_listener_has_a_foreign_owner [OF demo_found] demo_found by blast

text \<open>
  C39: A wait whose clock passes the deadline ends, at the first turn with a shutdown, a listener or the
  deadline passed, and with the result of that turn.
\<close>

theorem wait_for_a_listener_ends:
  assumes "split_target target = Inr (host, p)" "wt_clock w k > wait"
  shows "\<exists>n \<le> k. (\<forall>i < n. \<not> wait_ends w host p wait i) \<and> wait_ends w host p wait n \<and>
    wait_for_listen_socket w target wait = Some (wait_result w target host p n)"
proof -
  have "wait_ends w host p wait k" using assms(2) by (simp add: wait_ends_def)
  from wait_loop_total [OF this, of target] show ?thesis using assms(1) by (auto simp: wait_for_listen_socket_def)
qed

theorem wait_for_a_listener_ends_witness:
  "\<exists>n \<le> 1. wait_for_listen_socket demo_waiting ''127.0.0.1:8080'' 0 =
     Some (wait_result demo_waiting ''127.0.0.1:8080'' ''127.0.0.1'' 8080 n)"
  using wait_for_a_listener_ends [OF demo_split, of 0 demo_waiting 1] by (auto simp: demo_waiting_def)

text \<open>
  The socket file a start has bound passes the check of its own mode and lets in exactly root, the
  owner and the given group.
\<close>

theorem socket_file_lets_its_group_in:
  assumes "start_socket path grp s = (Inr (), t)"
  shows "\<exists>n. sd_nodes t path = Some n \<and> sm_mode n = 432 \<and>
    (\<forall>cred. authorize cred (sm_uid n) (sm_gid n) (sm_mode n) = Inr () \<longleftrightarrow>
       pc_uid cred = 0 \<or> pc_uid cred = sm_uid (sd_created s) \<or> pc_gid cred = sm_gid n) \<and>
    (\<forall>gid. grp = Some gid \<longrightarrow> sm_gid n = gid)"
proof -
  obtain n where n: "sd_nodes t path = Some n" "sm_mode n = 432" "\<forall>gid. grp = Some gid \<longrightarrow> sm_gid n = gid"
    "sm_uid n = sm_uid (sd_created s)"
    using start_socket_node [OF assms] by blast
  then show ?thesis by (intro exI [of _ n]) (auto simp: authorize_iff)
qed

theorem socket_file_lets_its_group_in_witness:
  "\<exists>t n. start_socket [''run'', ''ctl.sock''] (Some 20) demo_sock_dir = (Inr (), t) \<and> sd_nodes t [''run'', ''ctl.sock''] = Some n \<and>
     authorize \<lparr>pc_pid = 7, pc_uid = 1000, pc_gid = 20\<rparr> (sm_uid n) (sm_gid n) (sm_mode n) = Inr ()"
proof -
  obtain t where t: "start_socket [''run'', ''ctl.sock''] (Some 20) demo_sock_dir = (Inr (), t)" using demo_sock_start by blast
  from socket_file_lets_its_group_in [OF this] t show ?thesis by fastforce
qed

text \<open>
  C13: A loader that has started as the toy or for OpenResty ends exactly when some turn finds the shutdown asked
  for. At the first such turn it returns without an error, whatever its reloads and rescans met, in the state
  after the turns before it, with its listeners registered; the socket file it had bound is gone, unless that
  removal fails.
\<close>

theorem started_loader_runs_to_its_end:
  assumes "kernel_map ops view same" "run_attached env args h = Some (Inr (d, s), h')"
    and "se_ops env = ops" "start_layout env args h" "a_mode args \<in> {Toy, OpenResty}"
  shows "((\<exists>r. run_loader env args turns (h, files) = Some r) \<longleftrightarrow> (\<exists>k. lt_shutdown (turns k))) \<and>
    (\<forall>k. lt_shutdown (turns k) \<and> (\<forall>i < k. \<not> lt_shutdown (turns i)) \<longrightarrow>
      (\<exists>u files'. u = after_turns ops args (slot_ports redir_tls d \<noteq> []) turns 0 k s \<and>
         run_loader env args turns (h, files) = Some (Inr (), h'\<lparr>ho_world := so_world (rn_sock u)\<rparr>, files') \<and>
         reaches ops parse args (slot_ports redir_tls d \<noteq> []) s u \<and>
         tracks ops view (snd (current_maps args u)) (rn_held u) \<and>
         (\<forall>p. fst (control_socket args files) = Some p \<and> \<not> sd_fault files (Unlink p) \<longrightarrow> sd_nodes files' p = None)))"
proof (intro conjI allI impI)
  note run = kernel_map.run_attached_Inr [OF assms(1-4)]
  have fine: "\<not> so_poisoned (rn_sock s)" using run by simp
  note ends = run_loader_ends [OF assms(2,5) fine, unfolded assms(3)]
  show "(\<exists>r. run_loader env args turns (h, files) = Some r) \<longleftrightarrow> (\<exists>k. lt_shutdown (turns k))" by (rule ends(1))
  fix k assume k: "lt_shutdown (turns k) \<and> (\<forall>i < k. \<not> lt_shutdown (turns i))"
  let ?u = "after_turns ops args (slot_ports redir_tls d \<noteq> []) turns 0 k s"
  obtain files' where files': "run_loader env args turns (h, files) = Some (Inr (), h'\<lparr>ho_world := so_world (rn_sock ?u)\<rparr>, files')"
    "\<forall>p. fst (control_socket args files) = Some p \<and> \<not> sd_fault files (Unlink p) \<longrightarrow> sd_nodes files' p = None"
    using ends(2) [OF conjunct1 [OF k] conjunct2 [OF k]] by blast
  have "tracks ops view (snd (current_maps args s)) (rn_held s)"
    using conjunct1 [OF conjunct2 [OF run]] run by (simp add: serving_def current_maps_def)
  note tracked = kernel_map.reaches_tracks [OF assms(1) after_turns_reaches [OF fine] this]
  show "\<exists>u files'. u = ?u \<and>
         run_loader env args turns (h, files) = Some (Inr (), h'\<lparr>ho_world := so_world (rn_sock u)\<rparr>, files') \<and>
         reaches ops parse args (slot_ports redir_tls d \<noteq> []) s u \<and>
         tracks ops view (snd (current_maps args u)) (rn_held u) \<and>
         (\<forall>p. fst (control_socket args files) = Some p \<and> \<not> sd_fault files (Unlink p) \<longrightarrow> sd_nodes files' p = None)"
    by (rule exI [of _ ?u], rule exI [of _ files'], intro conjI refl files' after_turns_reaches [OF fine] tracked)
qed

theorem started_loader_runs_to_its_end_witness:
  "(\<exists>t files'. run_loader demo_start_env demo_args (\<lambda>i. if i = 0 then demo_turn else demo_turn\<lparr>lt_shutdown := True\<rparr>)
      (demo_host, demo_sock_dir) = Some (Inr (), t, files')) \<and>
   run_loader demo_start_env demo_args (\<lambda>_. demo_turn) (demo_host, demo_sock_dir) = None"
proof -
  obtain s h where s: "run_attached demo_start_env demo_args demo_host = Some (Inr (demo_http, s), h)"
    using demo_start by blast
  have mode: "a_mode demo_args \<in> {Toy, OpenResty}" by (simp add: demo_args_def)
  note ends = started_loader_runs_to_its_end [OF kernel_map_khash s demo_start_ops demo_start_layout mode]
  have no: "\<not> lt_shutdown demo_turn" by (simp add: demo_turn_def)
  have "run_loader demo_start_env demo_args (\<lambda>_. demo_turn) (demo_host, demo_sock_dir) = None"
    using ends [of "\<lambda>_. demo_turn" demo_sock_dir] no by (metis not_None_eq)
  moreover let ?turns = "\<lambda>i. if i = (0 :: nat) then demo_turn else demo_turn\<lparr>lt_shutdown := True\<rparr>"
  have "lt_shutdown (?turns 1) \<and> (\<forall>i < 1. \<not> lt_shutdown (?turns i))" using no by simp
  from mp [OF spec [OF conjunct2 [OF ends]], OF this, of demo_sock_dir]
  have "\<exists>t files'. run_loader demo_start_env demo_args ?turns (demo_host, demo_sock_dir) = Some (Inr (), t, files')" by blast
  ultimately show ?thesis by blast
qed

text \<open>
  The order of the documentation, the port before its flags, is refused: the flags end at the first
  word that is none, so that the binding is missing. Nothing changes.
\<close>

theorem port_before_its_flags_is_refused:
  assumes "\<not> starts_with ''-'' p"
  shows "(\<exists>e. fst (ctl_add ops (p # rest) w) = Inl e) \<and> snd (ctl_add ops (p # rest) w) = w"
proof -
  have "p \<noteq> ''--''" "p \<noteq> ''-''" using assms by (auto simp: starts_with_def)
  then have f: "parse_go_flags (p # rest) add_bools add_vals = Inr (no_flags\<lparr>pf_args := p # rest\<rparr>)"
    using assms by (simp add: parse_go_flags_def no_flags_def)
  define f0 where "f0 = no_flags\<lparr>pf_args := p # rest\<rparr>"
  have bound: "binding_from_flags f0 = Inl (CtlE BindingMissing)" and nohelp: "\<not> bool_flag f0 ''help''"
    by (simp_all add: f0_def binding_from_flags_def get_or_def flag_get_def bool_flag_def no_flags_def)
  obtain c u where run: "collect_or_usage ''open/add'' f0 w = (c, u)" by fastforce
  then have "u = w" by (auto simp: collect_or_usage_def split: sum.splits if_splits)
  with run have c: "collect_or_usage ''open/add'' f0 w = (c, w)" by simp
  have "\<exists>e. ctl_add ops (p # rest) w = (Inl e, w)"
    unfolding ctl_add_def with_flags_def f f0_def [symmetric]
    by (cases c; cases "enforce_ladder (projr c) (bool_flag f0 ''full-ladder'') w")
      (simp_all add: sbind_def lift_res_def getr_def c bound nohelp)
  then show ?thesis by auto
qed

theorem port_before_its_flags_is_refused_witness:
  "snd (ctl_add (khash_ops True) [''18083'', ''-tenant'', ''acme'', ''-site'', ''www''] demo_world) = demo_world"
  using port_before_its_flags_is_refused [of "''18083''" "khash_ops True" "[''-tenant'', ''acme'', ''-site'', ''www'']" demo_world]
  by (simp add: starts_with_def)

end
